(* ===== verification/Go_Prelude.thy ===== *)
theory Go_Prelude
  imports Main "HOL-Library.Word" "HOL-Library.Multiset" "HOL-Library.AList"
begin

text \<open>
  The part of Go that every component of the AVS uses, and the lemmas the components share.

  \<^item> A call that may panic has type \<open>'a go\<close>, a sum of \<open>panic\<close> and the returned value. A Go
    \<open>error\<close> is no panic: it is an ordinary result, \<open>error option\<close> with \<open>None\<close> for \<open>nil\<close>,
    returned beside whatever state the function has already written.
  \<^item> A \<open>*big.Int\<close> is \<open>int option\<close>, \<open>None\<close> for the nil pointer; reading it is \<open>deref\<close>.
    \<open>big.Int.Div\<close> is Euclidean and panics on a zero divisor (\<open>big_Div\<close>); \<open>big.Int.Int64\<close>
    keeps the low 64 bits (\<open>big_Int64\<close>).
  \<^item> \<open>uint32\<close> and \<open>uint64\<close> are words, so that subtraction of timestamps wraps as in Go.
  \<^item> A Go map is an association list with distinct keys; the list order stands for one of the
    orders \<open>range\<close> may choose. Results that do not depend on it are proved invariant under
    permutation (\<open>for_range_perm\<close>).
  \<^item> \<open>for _, x := range xs\<close> with a body that updates local variables is \<open>for_range\<close>.
\<close>

named_theorems go_eval \<open>equations that evaluate the Go primitives on concrete data\<close>

section \<open>Panics, errors, pointers\<close>

datatype panic = NilDeref | DivByZero | SliceBounds | Explicit string

type_synonym 'a go = "panic + 'a"
type_synonym error = string
type_synonym u8 = "8 word"
type_synonym u32 = "32 word"
type_synonym u64 = "64 word"
type_synonym bigptr = "int option"

definition go_bind :: "'a go \<Rightarrow> ('a \<Rightarrow> 'b go) \<Rightarrow> 'b go" where
  "go_bind r f = (case r of Inl p \<Rightarrow> Inl p | Inr x \<Rightarrow> f x)"

lemma go_bind_Inl [simp]: "go_bind (Inl p) f = Inl p"
  by (simp add: go_bind_def)

lemma go_bind_Inr [simp]: "go_bind (Inr x) f = f x"
  by (simp add: go_bind_def)

lemma go_bind_assoc: "go_bind (go_bind r f) g = go_bind r (\<lambda>x. go_bind (f x) g)"
  by (cases r) auto

lemma go_bind_Inr_iff: "go_bind r f = Inr y \<longleftrightarrow> (\<exists>x. r = Inr x \<and> f x = Inr y)"
  by (cases r) auto

lemma go_bind_Inl_iff: "go_bind r f = Inl p \<longleftrightarrow> r = Inl p \<or> (\<exists>x. r = Inr x \<and> f x = Inl p)"
  by (cases r) auto

lemma go_bind_cong [fundef_cong]:
  "r = r' \<Longrightarrow> (\<And>x. r' = Inr x \<Longrightarrow> f x = g x) \<Longrightarrow> go_bind r f = go_bind r' g"
  by (cases r') auto

definition deref :: "'a option \<Rightarrow> 'a go" where
  "deref p = (case p of None \<Rightarrow> Inl NilDeref | Some x \<Rightarrow> Inr x)"

lemma deref_Some [simp]: "deref (Some x) = Inr x"
  and deref_None [simp]: "deref None = Inl NilDeref"
  by (simp_all add: deref_def)

lemma deref_the: "p \<noteq> None \<Longrightarrow> deref p = Inr (the p)"
  by auto

lemma deref_Inr_iff [simp]: "deref p = Inr x \<longleftrightarrow> p = Some x"
  by (cases p) auto

lemma deref_Inl_iff [simp]: "deref p = Inl q \<longleftrightarrow> p = None \<and> q = NilDeref"
  by (cases p) auto

lemmas go_bind_iffs = go_bind_Inr_iff go_bind_Inl_iff

section \<open>Arbitrary-precision and fixed-width integers\<close>

definition euclid_div :: "int \<Rightarrow> int \<Rightarrow> int" where
  "euclid_div x y = (if 0 < y then x div y else - (x div (- y)))"

definition big_Div :: "int \<Rightarrow> int \<Rightarrow> int go" where
  "big_Div x y = (if y = 0 then Inl DivByZero else Inr (euclid_div x y))"

lemma euclid_div_pos [simp]: "0 < y \<Longrightarrow> euclid_div x y = x div y"
  by (simp add: euclid_div_def)

lemma big_Div_nonzero [simp]: "y \<noteq> 0 \<Longrightarrow> big_Div x y = Inr (euclid_div x y)"
  by (simp add: big_Div_def)

lemma big_Div_zero [simp]: "big_Div x 0 = Inl DivByZero"
  by (simp add: big_Div_def)

lemma big_Div_Inl_iff: "big_Div x y = Inl p \<longleftrightarrow> y = 0 \<and> p = DivByZero"
  by (auto simp: big_Div_def)

text \<open>The quotient is the Euclidean one: the remainder is never negative.\<close>

lemma euclid_div_rem:
  assumes "y \<noteq> 0"
  shows "0 \<le> x - y * euclid_div x y \<and> x - y * euclid_div x y < \<bar>y\<bar>"
proof (cases "0 < y")
  case True
  then have "x - y * euclid_div x y = x mod y" by (simp add: minus_mult_div_eq_mod)
  with True show ?thesis by simp
next
  case False
  with assms have "y < 0" by simp
  then have "x - y * euclid_div x y = x mod (- y)"
    using minus_mult_div_eq_mod [of x "- y"] by (simp add: euclid_div_def)
  with \<open>y < 0\<close> show ?thesis by simp
qed

lemma euclid_div_mult [simp]: "y \<noteq> 0 \<Longrightarrow> euclid_div (x * y) y = x"
  using nonzero_mult_div_cancel_right [of "- y" "- x"] by (simp add: euclid_div_def)

definition big_Int64 :: "int \<Rightarrow> int" where
  "big_Int64 x = sint (word_of_int x :: 64 word)"

lemma big_Int64_id: "- (2 ^ 63) \<le> x \<Longrightarrow> x < 2 ^ 63 \<Longrightarrow> big_Int64 x = x"
  by (simp add: big_Int64_def sint_sbintrunc' signed_take_bit_int_eq_self)

definition uint64 :: "int \<Rightarrow> u64" where
  [go_eval]: "uint64 x = word_of_int x"

lemma uint_uint64: "0 \<le> x \<Longrightarrow> x < 2 ^ 64 \<Longrightarrow> uint (uint64 x) = x"
  by (simp add: uint64_def uint_word_of_int)

text \<open>Unsigned subtraction: exact when it does not go below zero, and huge when it does.\<close>

lemma uint_sub_le: "uint (a - b :: 'a::len word) = uint a - uint b" if "b \<le> a"
  using that by (simp add: uint_sub_lem word_le_def)

lemma uint_sub_wrap:
  "uint (a - b :: u64) = uint a - uint b + 2 ^ 64" if "a < b"
proof -
  have "uint a < uint b" using that by (simp add: word_less_def)
  moreover have "0 \<le> uint a" "uint b < 2 ^ 64"
    using uint_ge_0 [of a] uint_lt2p [of b] by simp_all
  ultimately show ?thesis by (simp add: uint_sub_if' word_le_def)
qed

section \<open>Range loops\<close>

primrec for_range :: "('s \<Rightarrow> 'a \<Rightarrow> 's go) \<Rightarrow> 's \<Rightarrow> 'a list \<Rightarrow> 's go" where
  "for_range body s [] = Inr s"
| "for_range body s (x # xs) = go_bind (body s x) (\<lambda>s'. for_range body s' xs)"

lemma for_range_append:
  "for_range body s (xs @ ys) = go_bind (for_range body s xs) (\<lambda>s'. for_range body s' ys)"
  by (induction xs arbitrary: s) (auto simp: go_bind_assoc)

text \<open>A body that never panics on the elements makes the loop a fold.\<close>

lemma for_range_total:
  "(\<And>s x. x \<in> set xs \<Longrightarrow> body s x = Inr (g x s)) \<Longrightarrow> for_range body s xs = Inr (fold g xs s)"
  by (induction xs arbitrary: s) auto

lemma for_range_fold:
  "for_range body s xs = fold (\<lambda>x r. go_bind r (\<lambda>s. body s x)) xs (Inr s)"
proof -
  have "fold (\<lambda>x r. go_bind r (\<lambda>s. body s x)) xs (Inl p) = Inl p" for p
    by (induction xs) auto
  then show ?thesis
  proof (induction xs arbitrary: s)
    case (Cons x xs)
    then show ?case by (cases "body s x") auto
  qed simp
qed

lemma for_range_invariant:
  "for_range body s xs = Inr s' \<Longrightarrow> P s \<Longrightarrow> (\<And>s x t. body s x = Inr t \<Longrightarrow> P s \<Longrightarrow> P t) \<Longrightarrow> P s'"
  by (induction xs arbitrary: s) (auto simp: go_bind_Inr_iff)

text \<open>Bodies that commute give a result that does not depend on the order of iteration.\<close>

lemma for_range_perm:
  assumes "mset xs = mset ys"
    and commute: "\<And>s x y. go_bind (body s x) (\<lambda>s. body s y) = go_bind (body s y) (\<lambda>s. body s x)"
  shows "for_range body s xs = for_range body s ys"
proof -
  let ?f = "\<lambda>x r. go_bind r (\<lambda>s. body s x)"
  have "fold ?f xs (Inr s) = fold ?f ys (Inr s)"
    by (rule fold_permuted_eq [where P = "\<lambda>_. True"])
      (simp_all add: assms(1) go_bind_assoc commute)
  then show ?thesis by (simp add: for_range_fold)
qed

lemma fold_plus_sum: "fold (\<lambda>x acc. acc + f x) xs (a :: 'b::comm_monoid_add) = a + sum_list (map f xs)"
  by (induction xs arbitrary: a) (auto simp: add.assoc)

lemma fold_plus2_sum:
  "fold (\<lambda>x (a, b). (a + f x, b + g x)) xs (a :: int, b :: int) =
     (a + sum_list (map f xs), b + sum_list (map g xs))"
  by (induction xs arbitrary: a b) auto

end
