(* ===== verification/Go_Map.thy ===== *)
theory Go_Map
  imports Go_Prelude
begin

text \<open>
  Go maps. \<open>map_get\<close> is the two-value lookup \<open>v, ok := m[k]\<close>, \<open>map_put\<close> the assignment
  \<open>m[k] = v\<close>, \<open>map_del\<close> the built-in \<open>delete\<close>, \<open>map_vals\<close> and \<open>map_keys\<close> what a \<open>range\<close>
  loop visits, and \<open>map_each\<close> an in-place update, through the stored pointers, of every value
  while ranging. The locale \<open>go_map\<close> is the interface the components rely on; the lemmas the
  components need are proved from its laws and reach them through the interpretation \<open>gm\<close>.
\<close>

type_synonym ('k, 'v) gomap = "('k \<times> 'v) list"

definition map_get :: "('k, 'v) gomap \<Rightarrow> 'k \<Rightarrow> 'v option" where
  [go_eval]: "map_get m k = map_of m k"

definition map_put :: "'k \<Rightarrow> 'v \<Rightarrow> ('k, 'v) gomap \<Rightarrow> ('k, 'v) gomap" where
  [go_eval]: "map_put k v m = AList.update k v m"

definition map_del :: "'k \<Rightarrow> ('k, 'v) gomap \<Rightarrow> ('k, 'v) gomap" where
  "map_del k m = AList.delete k m"

definition map_vals :: "('k, 'v) gomap \<Rightarrow> 'v list" where
  "map_vals m = map snd m"

definition map_keys :: "('k, 'v) gomap \<Rightarrow> 'k list" where
  "map_keys m = map fst m"

definition map_ok :: "('k, 'v) gomap \<Rightarrow> bool" where
  [go_eval]: "map_ok m = distinct (map fst m)"

definition map_each :: "('v \<Rightarrow> 'w) \<Rightarrow> ('k, 'v) gomap \<Rightarrow> ('k, 'w) gomap" where
  "map_each f m = map (\<lambda>(k, v). (k, f v)) m"

section \<open>The interface\<close>

locale go_map =
  fixes get :: "'m \<Rightarrow> 'k \<Rightarrow> 'v option"
    and put :: "'k \<Rightarrow> 'v \<Rightarrow> 'm \<Rightarrow> 'm"
    and del :: "'k \<Rightarrow> 'm \<Rightarrow> 'm"
    and vals :: "'m \<Rightarrow> 'v list"
    and ok :: "'m \<Rightarrow> bool"
  assumes get_put: "get (put k v m) k' = (if k' = k then Some v else get m k')"
    and get_del: "get (del k m) k' = (if k' = k then None else get m k')"
    and ok_put: "ok m \<Longrightarrow> ok (put k v m)"
    and ok_del: "ok m \<Longrightarrow> ok (del k m)"
    and vals_iff: "ok m \<Longrightarrow> x \<in> set (vals m) \<longleftrightarrow> (\<exists>k. get m k = Some x)"
    and vals_put_new: "ok m \<Longrightarrow> get m k = None \<Longrightarrow>
          mset (vals (put k v m)) = add_mset v (mset (vals m))"
    and vals_put_old: "ok m \<Longrightarrow> get m k = Some w \<Longrightarrow>
          add_mset w (mset (vals (put k v m))) = add_mset v (mset (vals m))"
begin

lemma vals_put_all:
  "ok m \<Longrightarrow> (\<forall>x \<in> set (vals m). P x) \<Longrightarrow> P v \<Longrightarrow> \<forall>x \<in> set (vals (put k v m)). P x"
  by (auto simp: vals_iff ok_put get_put split: if_splits)

lemma vals_put_in: "ok m \<Longrightarrow> v \<in> set (vals (put k v m))"
  by (auto simp: vals_iff ok_put get_put)

lemma len_put:
  "ok m \<Longrightarrow> length (vals (put k v m)) = (if get m k = None then Suc (length (vals m)) else length (vals m))"
proof (cases "get m k")
  case None
  assume "ok m"
  with None have "size (mset (vals (put k v m))) = size (add_mset v (mset (vals m)))"
    by (simp add: vals_put_new)
  with None show ?thesis by simp
next
  case (Some w)
  assume "ok m"
  with Some have "size (add_mset w (mset (vals (put k v m)))) = size (add_mset v (mset (vals m)))"
    by (simp add: vals_put_old)
  with Some show ?thesis by simp
qed

text \<open>Storing under a key replaces the summand of the value stored there before.\<close>

lemma sum_put:
  fixes f :: "'v \<Rightarrow> int"
  assumes "ok m"
  shows "sum_list (map f (vals (put k v m))) =
     sum_list (map f (vals m)) - (case get m k of None \<Rightarrow> 0 | Some w \<Rightarrow> f w) + f v"
proof -
  have sum: "sum_list (map f xs) = (\<Sum>x\<in>#mset xs. f x)" for xs
    by (simp flip: sum_mset_sum_list)
  show ?thesis
  proof (cases "get m k")
    case None
    then show ?thesis using vals_put_new [OF assms None, of v] by (simp add: sum)
  next
    case (Some w)
    then have "(\<Sum>x\<in>#add_mset w (mset (vals (put k v m))). f x) = (\<Sum>x\<in>#add_mset v (mset (vals m)). f x)"
      by (simp only: vals_put_old [OF assms Some])
    with Some show ?thesis by (simp add: sum)
  qed
qed

end

section \<open>Association lists implement it\<close>

lemma get_map_put: "map_get (map_put k v m) k' = (if k' = k then Some v else map_get m k')"
  by (simp add: map_get_def map_put_def update_conv')

lemma map_ok_put: "map_ok m \<Longrightarrow> map_ok (map_put k v m)"
  by (simp add: map_ok_def map_put_def distinct_update)

lemma vals_map_put_new:
  "map_get m k = None \<Longrightarrow> map_vals (map_put k v m) = map_vals m @ [v]"
  by (induction m) (auto simp: map_get_def map_put_def map_vals_def split: if_splits)

lemma vals_map_put_old:
  "map_get m k = Some w \<Longrightarrow>
    add_mset w (mset (map_vals (map_put k v m))) = add_mset v (mset (map_vals m))"
proof (induction m)
  case (Cons p m)
  then show ?case
    by (cases p) (auto simp: map_get_def map_put_def map_vals_def add_mset_commute split: if_splits)
qed (simp add: map_get_def)

interpretation gm: go_map map_get map_put map_del map_vals map_ok
proof unfold_locales
  fix m :: "('k, 'v) gomap" and k k' v
  show "map_get (map_del k m) k' = (if k' = k then None else map_get m k')"
    by (simp add: map_get_def map_del_def delete_conv')
  show "map_ok m \<Longrightarrow> map_ok (map_del k m)"
    by (simp add: map_ok_def map_del_def distinct_delete)
  show "map_ok m \<Longrightarrow> v \<in> set (map_vals m) \<longleftrightarrow> (\<exists>k. map_get m k = Some v)"
    by (force simp: map_ok_def map_vals_def map_get_def map_of_eq_Some_iff image_iff)
  show "map_get m k = None \<Longrightarrow> mset (map_vals (map_put k v m)) = add_mset v (mset (map_vals m))"
    by (simp add: vals_map_put_new)
qed (simp_all add: get_map_put map_ok_put vals_map_put_old)

lemmas map_laws [simp] = gm.get_put gm.get_del

lemma dom_map_put [simp]: "dom (map_get (map_put k v m)) = insert k (dom (map_get m))"
  by auto

lemma dom_map_get: "dom (map_get m) = fst ` set m"
  unfolding map_get_def [abs_def] by (simp add: dom_map_of_conv_image_fst)

text \<open>What holds of every entry of a map holds after a new entry that has it.\<close>

lemma map_put_all: "\<forall>k v. map_get m k = Some v \<longrightarrow> P k v \<Longrightarrow> P k' v' \<Longrightarrow> \<forall>k v. map_get (map_put k' v' m) k = Some v \<longrightarrow> P k v"
  by simp

lemma map_put_nonempty [simp]: "map_put k v m \<noteq> []"
  by (simp add: map_put_def)

lemma map_vals_Nil [simp]: "map_vals [] = []"
  and map_get_Nil [simp]: "map_get [] k = None"
  and map_ok_Nil [simp]: "map_ok []"
  by (simp_all add: map_vals_def map_get_def map_ok_def)

lemma length_map_vals [simp]: "length (map_vals m) = length m"
  by (simp add: map_vals_def)

lemma map_vals_eq_Nil [simp]: "map_vals m = [] \<longleftrightarrow> m = []"
  by (simp add: map_vals_def)

lemma map_get_in_vals: "map_get m k = Some v \<Longrightarrow> v \<in> set (map_vals m)"
  by (force simp: map_get_def map_vals_def dest: map_of_SomeD)

lemma length_map_put:
  "map_ok m \<Longrightarrow> length (map_put k v m) = (if map_get m k = None then Suc (length m) else length m)"
  using gm.len_put [of m k v] by simp

text \<open>Copying a map entry by entry.\<close>

lemma map_get_copy:
  assumes "map_ok m"
  shows "map_get (fold (\<lambda>(k, v) r. map_put k v r) m []) p = map_get m p"
proof -
  have "map_get (fold (\<lambda>(k, v) r. map_put k v r) m r) p =
      (case map_of (rev m) p of None \<Rightarrow> map_get r p | Some v \<Rightarrow> Some v)" for r
    by (induction m arbitrary: r) (auto simp: map_add_def split: option.splits)
  moreover have "map_of (rev m) = map_of m"
    using assms by (subst map_of_inject_set) (simp_all add: map_ok_def flip: rev_map)
  ultimately show ?thesis by (simp add: map_get_def [of m] split: option.split)
qed

section \<open>In-place updates while ranging\<close>

lemma map_get_each [simp]: "map_get (map_each f m) k = map_option f (map_get m k)"
  by (induction m) (auto simp: map_get_def map_each_def)

lemma map_ok_each [simp]: "map_ok (map_each f m) = map_ok m"
  by (simp add: map_ok_def map_each_def case_prod_unfold comp_def)

lemma map_vals_each [simp]: "map_vals (map_each f m) = map f (map_vals m)"
  by (simp add: map_vals_def map_each_def case_prod_unfold comp_def)

lemma map_each_id [simp]: "map_each (\<lambda>v. v) m = m"
  by (simp add: map_each_def)

lemma map_each_cong:
  "(\<And>v. v \<in> set (map_vals m) \<Longrightarrow> f v = g v) \<Longrightarrow> map_each f m = map_each g m"
  by (force simp: map_each_def map_vals_def)

lemma map_each_comp: "map_each f (map_each g m) = map_each (\<lambda>v. f (g v)) m"
  by (simp add: map_each_def case_prod_unfold)

text \<open>A loop that, for each entry of a map, replaces or deletes that entry.\<close>

definition sweep :: "('k \<Rightarrow> 'v \<Rightarrow> 'v option) \<Rightarrow> ('k \<times> 'v) list \<Rightarrow> ('k, 'v) gomap \<Rightarrow> ('k, 'v) gomap" where
  "sweep f xs m = fold (\<lambda>(k, v) m. case f k v of None \<Rightarrow> map_del k m | Some w \<Rightarrow> map_put k w m) xs m"

lemma map_get_sweep:
  assumes "distinct (map fst xs)"
  shows "map_get (sweep f xs m) p = (case map_of xs p of None \<Rightarrow> map_get m p | Some v \<Rightarrow> f p v)"
  using assms
proof (induction xs arbitrary: m)
  case (Cons x xs)
  obtain k v where x: "x = (k, v)" by (cases x)
  with Cons.prems have "map_of xs k = None" by (auto simp: map_of_eq_None_iff)
  with x Cons show ?case by (auto simp: sweep_def split: option.split)
qed (simp add: sweep_def)

lemma map_get_sweep_all:
  "map_ok m \<Longrightarrow> map_get (sweep f m m) p = (case map_get m p of None \<Rightarrow> None | Some v \<Rightarrow> f p v)"
  using map_get_sweep [of m f m p] by (simp add: map_ok_def map_get_def [of m] split: option.splits)

lemma map_ok_sweep: "map_ok m \<Longrightarrow> map_ok (sweep f xs m)"
  unfolding sweep_def
  by (induction xs arbitrary: m) (auto simp: gm.ok_put gm.ok_del split: option.split)

text \<open>A sum over the values of a map is a sum over its domain.\<close>

lemma map_vals_keys: "map_ok m \<Longrightarrow> map_vals m = map (\<lambda>k. the (map_get m k)) (map_keys m)"
  by (auto simp: map_ok_def map_vals_def map_keys_def map_get_def)

lemma set_map_keys: "set (map_keys m) = dom (map_get m)"
  by (simp add: map_keys_def dom_map_of_conv_image_fst map_get_def [abs_def])

lemma distinct_map_keys: "map_ok m \<Longrightarrow> distinct (map_keys m)"
  by (simp add: map_ok_def map_keys_def)

lemma length_map_dom: "map_ok m \<Longrightarrow> length m = card (dom (map_get m))"
  using distinct_card [OF distinct_map_keys, of m] by (simp add: set_map_keys) (simp add: map_keys_def)

lemma sum_vals_dom:
  "map_ok m \<Longrightarrow> sum_list (map f (map_vals m)) = (\<Sum>k \<in> dom (map_get m). f (the (map_get m k)))"
  by (simp add: map_vals_keys comp_def sum_list_distinct_conv_sum_set distinct_map_keys set_map_keys)

lemma set_vals_dom: "map_ok m \<Longrightarrow> set (map_vals m) = (\<lambda>k. the (map_get m k)) ` dom (map_get m)"
  by (simp add: map_vals_keys set_map_keys)

end
