(* ===== verification/Go_Strings.thy ===== *)
theory Go_Strings
  imports Go_Prelude
begin

text \<open>
  The string conversions of the standard library that the AVS uses: \<open>big_String\<close> is
  \<open>(*big.Int).String\<close> and the \<open>%d\<close> verb, \<open>SetString10\<close> is \<open>(*big.Int).SetString(s, 10)\<close> with
  \<open>None\<close> for \<open>ok = false\<close> (an optional sign, then at least one decimal digit, nothing else),
  \<open>MustSetString\<close> is the wrapper of \<^verbatim>\<open>pkg/utils/bigint.go\<close> that panics, and \<open>big_Bytes\<close> is
  \<open>(*big.Int).Bytes\<close>, the big-endian bytes with no leading zero. The main facts are the round
  trips.
\<close>

section \<open>Decimal digits\<close>

definition digit_char :: "nat \<Rightarrow> char" where
  "digit_char d = char_of (48 + d)"

definition digit_value :: "char \<Rightarrow> nat option" where
  "digit_value c = (let v = of_char c :: nat in if 48 \<le> v \<and> v \<le> 57 then Some (v - 48) else None)"

lemma digit_value_char [simp]: "d < 10 \<Longrightarrow> digit_value (digit_char d) = Some d"
  by (simp add: digit_value_def digit_char_def Let_def)

lemma digit_char_neq: "d < 10 \<Longrightarrow> digit_value c = None \<Longrightarrow> digit_char d \<noteq> c"
  using digit_value_char by fastforce

fun nat_String :: "nat \<Rightarrow> string" where
  "nat_String n = (if n < 10 then [digit_char n] else nat_String (n div 10) @ [digit_char (n mod 10)])"

declare nat_String.simps [simp del]

definition big_String :: "int \<Rightarrow> string" where
  "big_String x = (if x < 0 then ''-'' @ nat_String (nat (- x)) else nat_String (nat x))"

fun digits_value :: "nat \<Rightarrow> string \<Rightarrow> nat option" where
  "digits_value acc [] = Some acc"
| "digits_value acc (c # cs) =
     (case digit_value c of None \<Rightarrow> None | Some d \<Rightarrow> digits_value (10 * acc + d) cs)"

definition parse_nat :: "string \<Rightarrow> nat option" where
  "parse_nat s = (if s = [] then None else digits_value 0 s)"

definition SetString10 :: "string \<Rightarrow> int option" where
  "SetString10 s = (case s of
       [] \<Rightarrow> None
     | c # cs \<Rightarrow> (if c = CHR ''-'' then map_option (\<lambda>n. - int n) (parse_nat cs)
                else if c = CHR ''+'' then map_option int (parse_nat cs)
                else map_option int (parse_nat s)))"

definition MustSetString :: "string \<Rightarrow> int go" where
  "MustSetString s = (case SetString10 s of
       None \<Rightarrow> Inl (Explicit (''invalid big.Int string: '' @ s))
     | Some x \<Rightarrow> Inr x)"

lemma nat_String_induct_step: "10 \<le> n \<Longrightarrow> nat_String n = nat_String (n div 10) @ [digit_char (n mod 10)]"
  by (subst nat_String.simps) simp

lemma nat_String_small: "n < 10 \<Longrightarrow> nat_String n = [digit_char n]"
  by (subst nat_String.simps) simp

lemma nat_String_nonempty [simp]: "nat_String n \<noteq> []"
  by (subst nat_String.simps) simp

lemma nat_String_digits: "\<forall>c \<in> set (nat_String n). digit_value c \<noteq> None"
proof (induction n rule: nat_String.induct)
  case (1 n)
  then show ?case
    by (cases "n < 10") (auto simp: nat_String_small nat_String_induct_step)
qed

lemma digits_value_append:
  "digits_value acc (xs @ ys) = Option.bind (digits_value acc xs) (\<lambda>a. digits_value a ys)"
  by (induction xs arbitrary: acc) (auto split: option.splits)

lemma digits_value_nat_String: "digits_value 0 (nat_String n) = Some n"
proof (induction n rule: nat_String.induct)
  case (1 n)
  show ?case
  proof (cases "n < 10")
    case False
    with 1 have "digits_value 0 (nat_String (n div 10)) = Some (n div 10)" by simp
    with False show ?thesis
      by (simp add: nat_String_induct_step digits_value_append)
  qed (simp add: nat_String_small)
qed

lemma parse_nat_String: "parse_nat (nat_String n) = Some n"
  by (simp add: parse_nat_def digits_value_nat_String)

lemma hd_nat_String: "nat_String n = c # cs \<Longrightarrow> c \<noteq> CHR ''-'' \<and> c \<noteq> CHR ''+''"
  using nat_String_digits [of n] by (auto simp: digit_value_def)

text \<open>Printing and parsing back is the identity, for every integer.\<close>

lemma SetString10_big_String: "SetString10 (big_String x) = Some x"
proof (cases "x < 0")
  case True
  then show ?thesis by (simp add: SetString10_def big_String_def parse_nat_String)
next
  case False
  obtain c cs where s: "nat_String (nat x) = c # cs"
    by (cases "nat_String (nat x)") auto
  with hd_nat_String [OF s] False parse_nat_String [of "nat x"] show ?thesis
    by (simp add: SetString10_def big_String_def)
qed

lemma big_String_inject: "big_String x = big_String y \<Longrightarrow> x = y"
  by (metis SetString10_big_String option.inject)

lemma nat_String_no_underscore: "CHR ''_'' \<notin> set (nat_String n)"
proof
  assume "CHR ''_'' \<in> set (nat_String n)"
  with nat_String_digits [of n] have "digit_value (CHR ''_'') \<noteq> None" by blast
  then show False by (simp add: digit_value_def)
qed

lemma big_String_no_underscore: "CHR ''_'' \<notin> set (big_String x)"
  by (simp add: big_String_def nat_String_no_underscore)

section \<open>Big-endian bytes\<close>

type_synonym bytes = "u8 list"

fun nat_Bytes :: "nat \<Rightarrow> bytes" where
  "nat_Bytes n = (if n = 0 then [] else nat_Bytes (n div 256) @ [word_of_nat (n mod 256)])"

declare nat_Bytes.simps [simp del]

definition big_Bytes :: "int \<Rightarrow> bytes" where
  "big_Bytes x = nat_Bytes (nat \<bar>x\<bar>)"

definition bytes_value :: "bytes \<Rightarrow> nat" where
  "bytes_value bs = foldl (\<lambda>acc b. 256 * acc + unat b) 0 bs"

lemma nat_Bytes_0 [simp]: "nat_Bytes 0 = []"
  by (simp add: nat_Bytes.simps)

lemma nat_Bytes_pos: "0 < n \<Longrightarrow> nat_Bytes n = nat_Bytes (n div 256) @ [word_of_nat (n mod 256)]"
  by (subst nat_Bytes.simps) simp

lemma bytes_value_nat_Bytes: "bytes_value (nat_Bytes n) = n"
proof (induction n rule: nat_Bytes.induct)
  case (1 n)
  show ?case
  proof (cases "n = 0")
    case False
    have "unat (word_of_nat (n mod 256) :: u8) = n mod 256"
      by (simp add: unat_of_nat)
    with False 1 show ?thesis
      by (simp add: nat_Bytes_pos bytes_value_def)
  qed (simp add: bytes_value_def)
qed

lemma nat_Bytes_length: "n < 256 ^ k \<Longrightarrow> length (nat_Bytes n) \<le> k"
proof (induction k arbitrary: n)
  case (Suc k)
  show ?case
  proof (cases "n = 0")
    case False
    from Suc.prems have "n div 256 < 256 ^ k"
      by (simp add: less_mult_imp_div_less)
    with Suc.IH False show ?thesis by (simp add: nat_Bytes_pos)
  qed simp
qed simp

end
