(* ===== verification/Go_Float.thy ===== *)
theory Go_Float
  imports Complex_Main Go_Prelude "HOL-Library.Log_Nat"
begin

text \<open>
  Go's \<open>float64\<close>, IEEE 754 binary64 with rounding to nearest, ties to even. A finite value is the
  rational number it denotes (the sign of zero is not kept: no code modelled here divides by a
  zero, and only the text of an alert message could show the sign); overflow and the special values are explicit. \<open>rnd\<close> rounds a rational to
  53 significant bits, or to a multiple of \<open>2 ^ -1074\<close> below the normal range, and \<open>round64\<close>
  adds overflow. The facts the components use: rounding is monotone (\<open>rnd_mono\<close>), exact on
  the representable numbers (\<open>rnd_grid\<close>), and a closed rational is rounded by naming its exponent
  and significand (\<open>round64_eqI\<close>).
\<close>

datatype float64 = NaN | NInf | Fin rat | PInf

section \<open>Rounding\<close>

definition ilog2_rat :: "rat \<Rightarrow> int" where
  "ilog2_rat r = (case quotient_of r of (a, b) \<Rightarrow>
     let k = bitlen a - bitlen b in if 2 powi k \<le> r then k else k - 1)"

definition rne :: "rat \<Rightarrow> int" where
  "rne x = (let f = \<lfloor>x\<rfloor>; d = x - of_int f in
     if d < 1/2 then f else if 1/2 < d then f + 1 else if even f then f else f + 1)"

definition exp64 :: "rat \<Rightarrow> int" where
  "exp64 r = max (ilog2_rat \<bar>r\<bar> - 52) (-1074)"

definition rnd :: "rat \<Rightarrow> rat" where
  "rnd r = (if r = 0 then 0 else of_int (rne (r / 2 powi (exp64 r))) * 2 powi (exp64 r))"

definition round64 :: "rat \<Rightarrow> float64" where
  "round64 r = (let v = rnd r in
     if 2 ^ 1024 \<le> v then PInf else if v \<le> - (2 ^ 1024) then NInf else Fin v)"

section \<open>Operations\<close>

fun f_sgn :: "float64 \<Rightarrow> rat" where
  "f_sgn NaN = 0"
| "f_sgn NInf = -1"
| "f_sgn PInf = 1"
| "f_sgn (Fin a) = sgn a"

definition inf_of :: "rat \<Rightarrow> float64" where
  "inf_of s = (if 0 < s then PInf else if s < 0 then NInf else NaN)"

definition f_mul :: "float64 \<Rightarrow> float64 \<Rightarrow> float64" where
  "f_mul x y = (case (x, y) of
       (Fin a, Fin b) \<Rightarrow> round64 (a * b)
     | (NaN, _) \<Rightarrow> NaN
     | (_, NaN) \<Rightarrow> NaN
     | _ \<Rightarrow> inf_of (f_sgn x * f_sgn y))"

definition f_div :: "float64 \<Rightarrow> float64 \<Rightarrow> float64" where
  "f_div x y = (case (x, y) of
       (NaN, _) \<Rightarrow> NaN
     | (_, NaN) \<Rightarrow> NaN
     | (Fin a, Fin b) \<Rightarrow> if b = 0 then inf_of (sgn a) else round64 (a / b)
     | (Fin a, _) \<Rightarrow> Fin 0
     | (_, Fin b) \<Rightarrow> inf_of (f_sgn x * (if b < 0 then -1 else 1))
     | _ \<Rightarrow> NaN)"

definition f_add :: "float64 \<Rightarrow> float64 \<Rightarrow> float64" where
  "f_add x y = (case (x, y) of
       (Fin a, Fin b) \<Rightarrow> round64 (a + b)
     | (NaN, _) \<Rightarrow> NaN
     | (_, NaN) \<Rightarrow> NaN
     | (Fin a, _) \<Rightarrow> y
     | (_, Fin b) \<Rightarrow> x
     | _ \<Rightarrow> if x = y then x else NaN)"

fun f_neg :: "float64 \<Rightarrow> float64" where
  "f_neg NaN = NaN"
| "f_neg NInf = PInf"
| "f_neg PInf = NInf"
| "f_neg (Fin a) = Fin (- a)"

definition f_sub :: "float64 \<Rightarrow> float64 \<Rightarrow> float64" where
  "f_sub x y = f_add x (f_neg y)"

fun f_less :: "float64 \<Rightarrow> float64 \<Rightarrow> bool" where
  "f_less NaN y = False"
| "f_less x NaN = False"
| "f_less (Fin a) (Fin b) = (a < b)"
| "f_less NInf y = (y \<noteq> NInf)"
| "f_less x PInf = (x \<noteq> PInf)"
| "f_less x y = False"

abbreviation f_greater :: "float64 \<Rightarrow> float64 \<Rightarrow> bool" where
  "f_greater x y \<equiv> f_less y x"

text \<open>\<open>float64(n)\<close> for an integer, and a decimal literal of the source.\<close>

definition f_of_int :: "int \<Rightarrow> float64" where
  "f_of_int n = round64 (of_int n)"

definition f_lit :: "rat \<Rightarrow> float64" where
  "f_lit r = round64 r"

text \<open>\<open>int64(x)\<close> truncates towards zero; the language leaves it open what happens outside the
  range, which is \<open>None\<close> here; \<open>go_int64\<close> takes what the implementation does there as a
  parameter.\<close>

definition trunc_rat :: "rat \<Rightarrow> int" where
  "trunc_rat r = (if 0 \<le> r then \<lfloor>r\<rfloor> else \<lceil>r\<rceil>)"

fun f_to_int64 :: "float64 \<Rightarrow> int option" where
  "f_to_int64 (Fin r) =
     (let n = trunc_rat r in if - (2 ^ 63) \<le> n \<and> n < 2 ^ 63 then Some n else None)"
| "f_to_int64 x = None"

definition go_int64 :: "(float64 \<Rightarrow> int) \<Rightarrow> float64 \<Rightarrow> int" where
  "go_int64 impl x = (case f_to_int64 x of Some n \<Rightarrow> n | None \<Rightarrow> impl x)"

section \<open>Integer rounding\<close>

lemma rne_cases: "rne x = \<lfloor>x\<rfloor> \<and> x - of_int \<lfloor>x\<rfloor> \<le> 1/2 \<or> rne x = \<lfloor>x\<rfloor> + 1 \<and> 1/2 \<le> x - of_int \<lfloor>x\<rfloor>"
  by (auto simp: rne_def Let_def)

lemma rne_of_int [simp]: "rne (of_int n) = n"
  by (simp add: rne_def)

lemma rne_eqI: "\<bar>x - of_int n\<bar> < 1/2 \<Longrightarrow> rne x = n"
proof -
  assume a: "\<bar>x - of_int n\<bar> < 1/2"
  show "rne x = n"
  proof (cases "of_int n \<le> x")
    case True
    with a have "\<lfloor>x\<rfloor> = n" by (intro floor_unique) auto
    with a True show ?thesis by (simp add: rne_def Let_def)
  next
    case False
    with a have f: "\<lfloor>x\<rfloor> = n - 1" by (intro floor_unique) auto
    with a False have "1/2 < x - of_int \<lfloor>x\<rfloor>" by simp
    then show ?thesis unfolding rne_def Let_def by (simp add: f)
  qed
qed

lemma rne_mono: "x \<le> y \<Longrightarrow> rne x \<le> rne y"
proof -
  assume le: "x \<le> y"
  then have fl: "\<lfloor>x\<rfloor> \<le> \<lfloor>y\<rfloor>" by (rule floor_mono)
  show ?thesis
  proof (cases "\<lfloor>x\<rfloor> = \<lfloor>y\<rfloor>")
    case True
    with le show ?thesis by (simp add: rne_def Let_def)
  next
    case False
    with fl have "\<lfloor>x\<rfloor> + 1 \<le> \<lfloor>y\<rfloor>" by simp
    then show ?thesis using rne_cases [of x] rne_cases [of y] by linarith
  qed
qed

lemma rne_le: "x \<le> of_int n \<Longrightarrow> rne x \<le> n"
  using rne_mono [of x "of_int n"] by simp

lemma rne_ge: "of_int n \<le> x \<Longrightarrow> n \<le> rne x"
  using rne_mono [of "of_int n" x] by simp

section \<open>The binary exponent\<close>

lemma powi_mono2: "i \<le> j \<Longrightarrow> (2::rat) powi i \<le> 2 powi j"
  by (rule power_int_increasing) auto

lemma powi_less2: "(2::rat) powi i < 2 powi j \<Longrightarrow> i < j"
  using powi_mono2 [of j i] by force

lemma powi_nat: "0 \<le> k \<Longrightarrow> (2::rat) powi k = of_int (2 ^ nat k)"
  by (simp add: power_int_def)

lemma powi_split: "j \<le> i \<Longrightarrow> (2::rat) powi i = of_int (2 ^ nat (i - j)) * 2 powi j"
  using powi_nat [of "i - j"] power_int_add [of "2::rat" "i - j" j] by simp

lemma bitlen_powi:
  assumes "0 < (a::int)"
  shows "(2::rat) powi (bitlen a - 1) \<le> of_int a \<and> of_int a < (2::rat) powi (bitlen a)"
proof -
  from assms have b: "2 ^ nat (bitlen a - 1) \<le> a \<and> a < 2 ^ nat (bitlen a)"
    by (rule bitlen_bounds)
  have "bitlen a \<noteq> 0" using assms by (simp add: bitlen_eq_zero_iff)
  then have k: "0 \<le> bitlen a - 1" "0 \<le> bitlen a" using bitlen_nonneg [of a] by simp_all
  from b show ?thesis by (simp only: powi_nat [OF k(1)] powi_nat [OF k(2)] of_int_le_iff of_int_less_iff)
qed

lemma ilog2_rat_bounds:
  assumes "0 < r"
  shows "2 powi (ilog2_rat r) \<le> r \<and> r < 2 powi (ilog2_rat r + 1)"
proof -
  obtain a b where q: "quotient_of r = (a, b)" by (cases "quotient_of r")
  then have b: "0 < b" and r: "r = of_int a / of_int b"
    by (auto dest: quotient_of_denom_pos quotient_of_div)
  with assms have a: "0 < a" by (simp add: zero_less_divide_iff)
  let ?k = "bitlen a - bitlen b"
  note ba = bitlen_powi [OF a] and bb = bitlen_powi [OF b]
  have "r < 2 powi (bitlen a) / 2 powi (bitlen b - 1)"
    unfolding r using ba bb a b by (intro frac_less) (simp_all add: less_imp_le)
  then have up: "r < 2 powi (?k + 1)"
    by (simp flip: power_int_diff add: algebra_simps)
  have "2 powi (bitlen a - 1) / 2 powi (bitlen b) \<le> r"
    unfolding r using ba bb a b by (intro frac_le) (simp_all add: less_imp_le)
  then have lo: "2 powi (?k - 1) \<le> r"
    by (simp flip: power_int_diff add: algebra_simps)
  show ?thesis using up lo by (simp add: ilog2_rat_def q Let_def)
qed

lemma ilog2_rat_eqI:
  assumes "2 powi k \<le> r" and "r < 2 powi (k + 1)"
  shows "ilog2_rat r = k"
proof -
  have "0 < r" using assms(1) by (rule less_le_trans [rotated]) simp
  from ilog2_rat_bounds [OF this] assms
  have "(2::rat) powi (ilog2_rat r) < 2 powi (k + 1)" "(2::rat) powi k < 2 powi (ilog2_rat r + 1)"
    by linarith+
  then show ?thesis by (auto dest!: powi_less2)
qed

lemma ilog2_rat_mono: "0 < x \<Longrightarrow> x \<le> y \<Longrightarrow> ilog2_rat x \<le> ilog2_rat y"
proof -
  assume "0 < x" "x \<le> y"
  with ilog2_rat_bounds [of x] ilog2_rat_bounds [of y]
  have "(2::rat) powi (ilog2_rat x) < 2 powi (ilog2_rat y + 1)" by linarith
  then show ?thesis by (auto dest!: powi_less2)
qed

section \<open>Rounding to 53 bits\<close>

lemma rnd_0 [simp]: "rnd 0 = 0"
  by (simp add: rnd_def)

lemma rnd_le_grid:
  assumes "0 < x" and "x \<le> of_int n * 2 powi (exp64 x)"
  shows "rnd x \<le> of_int n * 2 powi (exp64 x)"
proof -
  have "x / 2 powi (exp64 x) \<le> of_int n" using assms(2) by (simp add: divide_le_eq)
  then have "rne (x / 2 powi (exp64 x)) \<le> n" by (rule rne_le)
  then show ?thesis using assms(1) by (simp add: rnd_def)
qed

lemma rnd_ge_grid:
  assumes "0 < x" and "of_int n * 2 powi (exp64 x) \<le> x"
  shows "of_int n * 2 powi (exp64 x) \<le> rnd x"
proof -
  have "of_int n \<le> x / 2 powi (exp64 x)" using assms(2) by (simp add: le_divide_eq)
  then have "n \<le> rne (x / 2 powi (exp64 x))" by (rule rne_ge)
  then show ?thesis using assms(1) by (simp add: rnd_def)
qed

lemma rnd_nonneg: "0 \<le> x \<Longrightarrow> 0 \<le> rnd x"
  using rnd_ge_grid [of x 0] by (cases "x = 0") auto

text \<open>A multiple of \<open>2 powi e\<close> with at most 53 significant bits is its own rounding.\<close>

lemma rnd_grid:
  assumes "\<bar>m\<bar> < 2 ^ 53" and "-1074 \<le> e"
  shows "rnd (of_int m * 2 powi e) = of_int m * 2 powi e"
proof (cases "m = 0")
  case False
  define r :: rat where "r = of_int m * 2 powi e"
  have pos: "0 < \<bar>r\<bar>" using False by (simp add: r_def)
  have "of_int \<bar>m\<bar> * 2 powi e < (of_int (2 ^ 53) * 2 powi e :: rat)"
    using assms(1) by (intro mult_strict_right_mono) (simp_all only: of_int_less_iff zero_less_power_int zero_less_numeral)
  then have "\<bar>r\<bar> < 2 powi (e + 53)" by (simp add: r_def abs_mult power_int_add)
  then have "(2::rat) powi (ilog2_rat \<bar>r\<bar>) < 2 powi (e + 53)"
    using ilog2_rat_bounds [OF pos] by linarith
  then have le: "exp64 r \<le> e" using assms(2) by (auto simp: exp64_def dest!: powi_less2)
  have eq: "r = of_int (m * 2 ^ nat (e - exp64 r)) * 2 powi (exp64 r)"
    using powi_split [OF le] by (simp add: r_def [symmetric]) (simp add: r_def)
  then have "r / 2 powi (exp64 r) = of_int (m * 2 ^ nat (e - exp64 r))"
    by (metis nonzero_mult_div_cancel_right power_int_not_zero zero_neq_numeral)
  then have "rne (r / 2 powi (exp64 r)) = m * 2 ^ nat (e - exp64 r)" by (simp only: rne_of_int)
  then have "rnd r = r" using eq pos by (auto simp: rnd_def)
  then show ?thesis by (simp add: r_def)
qed simp

lemma rnd_int: "\<bar>n\<bar> < 2 ^ 53 \<Longrightarrow> rnd (of_int n) = of_int n"
  using rnd_grid [of n 0] by simp

lemma rnd_1 [simp]: "rnd 1 = 1"
  using rnd_int [of 1] by simp

text \<open>Rounding is monotone on the non-negative numbers.\<close>

lemma rnd_mono:
  assumes "0 \<le> x" and "x \<le> y"
  shows "rnd x \<le> rnd y"
proof (cases "x = 0")
  case True
  then show ?thesis using assms rnd_nonneg [of y] by simp
next
  case False
  with assms have x: "0 < x" and y: "0 < y" by simp_all
  let ?ex = "exp64 x" and ?ey = "exp64 y"
  have lg: "ilog2_rat x \<le> ilog2_rat y" using x assms(2) by (rule ilog2_rat_mono)
  then have "?ex \<le> ?ey" using x y by (simp add: exp64_def)
  then consider "?ex = ?ey" | "?ex < ?ey" by linarith
  then show ?thesis
  proof cases
    case 1
    have "rne (x / 2 powi ?ey) \<le> rne (y / 2 powi ?ey)"
      using assms(2) by (intro rne_mono divide_right_mono) simp_all
    then show ?thesis using 1 x y by (simp add: rnd_def)
  next
    case 2
    then have ey: "?ey + 52 = ilog2_rat y" and ex: "ilog2_rat x + 1 \<le> ?ey + 52"
      using x y by (auto simp: exp64_def max_def split: if_splits)
    have "x \<le> 2 powi (?ey + 52)"
      using ilog2_rat_bounds [OF x] powi_mono2 [OF ex] by linarith
    also have "\<dots> = of_int (2 ^ nat (?ey + 52 - ?ex)) * 2 powi ?ex"
      using 2 by (intro powi_split) simp
    finally have "rnd x \<le> of_int (2 ^ nat (?ey + 52 - ?ex)) * 2 powi ?ex"
      by (rule rnd_le_grid [OF x])
    also have "\<dots> = of_int (2 ^ 52) * 2 powi ?ey"
      using powi_split [of ?ex "?ey + 52"] powi_split [of ?ey "?ey + 52"] 2 by simp
    also have "\<dots> \<le> rnd y"
    proof (rule rnd_ge_grid [OF y])
      have "of_int (2 ^ 52) * 2 powi ?ey = (2 powi (?ey + 52) :: rat)"
        using powi_split [of ?ey "?ey + 52"] by simp
      then show "of_int (2 ^ 52) * 2 powi ?ey \<le> y"
        using ilog2_rat_bounds [OF y] by (simp only: ey)
    qed
    finally show ?thesis .
  qed
qed

lemma rnd_eqI:
  assumes "2 powi k \<le> r" and "r < 2 powi (k + 1)" and "-1022 \<le> k"
    and "\<bar>r / 2 powi (k - 52) - of_int m\<bar> < 1/2"
  shows "rnd r = of_int m * 2 powi (k - 52)"
proof -
  have "0 < r" using assms(1) by (rule less_le_trans [rotated]) simp
  moreover have "exp64 r = k - 52"
    using ilog2_rat_eqI [OF assms(1,2)] assms(3) \<open>0 < r\<close> by (simp add: exp64_def)
  ultimately show ?thesis using rne_eqI [OF assms(4)] by (simp add: rnd_def)
qed

section \<open>Finite results\<close>

lemma round64_Fin: "\<bar>rnd r\<bar> < 2 ^ 1024 \<Longrightarrow> round64 r = Fin (rnd r)"
  by (auto simp: round64_def Let_def)

lemma round64_unit: "0 \<le> r \<Longrightarrow> r \<le> 1 \<Longrightarrow> round64 r = Fin (rnd r) \<and> 0 \<le> rnd r \<and> rnd r \<le> 1"
proof -
  assume r: "0 \<le> r" "r \<le> 1"
  from r(1) have nn: "0 \<le> rnd r" by (rule rnd_nonneg)
  moreover have up: "rnd r \<le> 1" using rnd_mono [OF r] by simp
  moreover have "(1::rat) < 2 ^ 1024" by simp
  ultimately have "\<bar>rnd r\<bar> < 2 ^ 1024" by linarith
  then show ?thesis using nn up by (simp add: round64_Fin)
qed

lemma f_of_int_exact: "\<bar>n\<bar> < 2 ^ 53 \<Longrightarrow> f_of_int n = Fin (of_int n)"
proof -
  assume n: "\<bar>n\<bar> < 2 ^ 53"
  then have "\<bar>of_int n :: rat\<bar> < of_int (2 ^ 53)" by (simp only: of_int_abs [symmetric] of_int_less_iff)
  also have "(of_int (2 ^ 53) :: rat) < 2 ^ 1024" by simp
  finally show ?thesis using n by (simp add: f_of_int_def round64_Fin rnd_int)
qed

lemma f_lit_int: "\<bar>n\<bar> < 2 ^ 53 \<Longrightarrow> f_lit (of_int n) = Fin (of_int n)"
  using f_of_int_exact [of n] by (simp add: f_lit_def f_of_int_def)

section \<open>Confidences: floats of the unit interval\<close>

lemma rnd_idem: "0 \<le> x \<Longrightarrow> rnd (rnd x) = rnd x"
proof (cases "x = 0")
  case False
  assume "0 \<le> x"
  with False have x: "0 < x" by simp
  define e where "e = exp64 x"
  define n where "n = rne (x / 2 powi e)"
  have r: "rnd x = of_int n * 2 powi e" using x by (simp add: rnd_def n_def e_def)
  have e: "-1074 \<le> e" by (simp add: e_def exp64_def)
  have "x < 2 powi (ilog2_rat x + 1)" using ilog2_rat_bounds [OF x] by simp
  also have "\<dots> \<le> 2 powi (e + 53)" using x by (intro powi_mono2) (simp add: e_def exp64_def)
  finally have "x \<le> of_int (2 ^ 53) * 2 powi e" using powi_split [of e "e + 53"] by simp
  then have "x / 2 powi e \<le> of_int (2 ^ 53)" by (simp add: divide_le_eq)
  then have up: "n \<le> 2 ^ 53" unfolding n_def by (rule rne_le)
  have lo: "0 \<le> n" unfolding n_def using x by (intro rne_ge) simp
  show ?thesis
  proof (cases "n = 2 ^ 53")
    case True
    then have "rnd x = of_int (2 ^ 52) * 2 powi (e + 1)"
      unfolding r using powi_split [of e "e + 1"] by simp
    with rnd_grid [of "2 ^ 52" "e + 1"] e show ?thesis by simp
  next
    case False
    with up lo have "\<bar>n\<bar> < 2 ^ 53" by simp
    with e show ?thesis by (simp only: r rnd_grid)
  qed
qed simp

definition unit_f :: "float64 \<Rightarrow> bool" where
  "unit_f x \<longleftrightarrow> (\<exists>c. x = Fin c \<and> rnd c = c \<and> 0 \<le> c \<and> c \<le> 1)"

lemma unit_f_round: "0 \<le> r \<Longrightarrow> r \<le> 1 \<Longrightarrow> unit_f (round64 r)"
  using round64_unit [of r] rnd_idem [of r] by (auto simp: unit_f_def)

lemma unit_f_lit: "0 \<le> r \<Longrightarrow> r \<le> 1 \<Longrightarrow> unit_f (f_lit r)"
  by (simp add: f_lit_def unit_f_round)

lemma unit_f_simps [simp]: "unit_f (Fin 0)" "unit_f (Fin 1)"
  by (simp_all add: unit_f_def)

lemma f_mul_unit: "unit_f x \<Longrightarrow> unit_f y \<Longrightarrow> unit_f (f_mul x y)"
  by (auto simp: f_mul_def unit_f_def [of x] unit_f_def [of y] intro!: unit_f_round mult_le_one)

lemma f_mul_unit_Fin:
  assumes "unit_f (Fin a)" and "unit_f (Fin b)"
  shows "f_mul (Fin a) (Fin b) = Fin (rnd (a * b))" and "0 \<le> rnd (a * b)" and "rnd (a * b) \<le> a"
proof -
  have ab: "0 \<le> a" "a \<le> 1" "0 \<le> b" "b \<le> 1" "rnd a = a" using assms by (auto simp: unit_f_def)
  then have p: "0 \<le> a * b" "a * b \<le> 1" "a * b \<le> a" by (auto intro: mult_le_one mult_left_le)
  show "f_mul (Fin a) (Fin b) = Fin (rnd (a * b))" "0 \<le> rnd (a * b)"
    using round64_unit [OF p(1,2)] by (simp_all add: f_mul_def)
  show "rnd (a * b) \<le> a" using rnd_mono [OF p(1,3)] ab(5) by simp
qed

text \<open>Multiplying by a literal between two representable bounds.\<close>

lemma f_lit_between:
  assumes "0 \<le> lo" and "lo \<le> r" and "r \<le> hi" and "hi \<le> 1" and "rnd lo = lo" and "rnd hi = hi"
  shows "\<exists>c. f_lit r = Fin c \<and> rnd c = c \<and> lo \<le> c \<and> c \<le> hi"
proof -
  have "lo \<le> rnd r" "rnd r \<le> hi"
    using rnd_mono [of lo r] rnd_mono [of r hi] assms by auto
  moreover have "f_lit r = Fin (rnd r)" using round64_unit [of r] assms by (simp add: f_lit_def)
  moreover have "rnd (rnd r) = rnd r" using assms by (intro rnd_idem) simp
  ultimately show ?thesis by blast
qed

lemma f_mul_between:
  assumes "unit_f (Fin a)" and "unit_f (Fin b)"
    and "0 \<le> lo" and "lo \<le> a * b" and "rnd lo = lo" and "a * b \<le> hi" and "rnd hi = hi"
  shows "\<exists>c. f_mul (Fin a) (Fin b) = Fin c \<and> rnd c = c \<and> lo \<le> c \<and> c \<le> hi \<and> c \<le> a"
proof -
  have ab: "0 \<le> a * b" using assms(1,2) by (auto simp: unit_f_def)
  have "lo \<le> rnd (a * b)" "rnd (a * b) \<le> hi"
    using rnd_mono [of lo "a * b"] rnd_mono [of "a * b" hi] assms ab by auto
  with f_mul_unit_Fin [OF assms(1,2)] rnd_idem [OF ab] show ?thesis by blast
qed

lemma rnd_dyadic: "\<bar>m\<bar> < 2 ^ 53 \<Longrightarrow> k \<le> 1074 \<Longrightarrow> rnd (of_int m / 2 ^ k) = of_int m / 2 ^ k"
  using rnd_grid [of m "- int k"] by (simp add: power_int_minus divide_inverse)

section \<open>Non-negative results and the rounding error\<close>

lemma rnd_le_pow2: "0 \<le> x \<Longrightarrow> x \<le> 2 ^ k \<Longrightarrow> rnd x \<le> 2 ^ k"
  using rnd_mono [of x "2 ^ k"] rnd_grid [of 1 "int k"] by simp

lemma round64_nonneg:
  assumes "0 \<le> x" and "x \<le> 2 ^ k" and "k \<le> 1023"
  shows "round64 x = Fin (rnd x) \<and> 0 \<le> rnd x \<and> rnd x \<le> 2 ^ k"
proof -
  note le = rnd_le_pow2 [OF assms(1,2)] and nn = rnd_nonneg [OF assms(1)]
  have "(2::rat) ^ k < 2 ^ 1024" using assms(3) by (intro power_strict_increasing) auto
  with le nn have "\<bar>rnd x\<bar> < 2 ^ 1024" by linarith
  with le nn show ?thesis by (simp add: round64_Fin)
qed

text \<open>A finite float between zero and a power of two.\<close>

definition f_range :: "nat \<Rightarrow> float64 \<Rightarrow> bool" where
  "f_range k x \<longleftrightarrow> (\<exists>c. x = Fin c \<and> 0 \<le> c \<and> c \<le> 2 ^ k)"

lemma f_mul_range:
  assumes "f_range j x" and "f_range k y" and "j + k \<le> 1023"
  shows "f_range (j + k) (f_mul x y)"
proof -
  obtain a b where ab: "x = Fin a" "y = Fin b" "0 \<le> a" "a \<le> 2 ^ j" "0 \<le> b" "b \<le> 2 ^ k"
    using assms(1,2) by (auto simp: f_range_def)
  then have "a * b \<le> 2 ^ (j + k)" by (simp add: power_add mult_mono)
  with ab assms(3) round64_nonneg [of "a * b" "j + k"] show ?thesis
    by (auto simp: f_mul_def f_range_def)
qed

lemma f_div_range:
  assumes "f_range k x" and "1 \<le> b" and "k \<le> 1023"
  shows "f_range k (f_div x (Fin b))"
proof -
  obtain a where a: "x = Fin a" "0 \<le> a" "a \<le> 2 ^ k" using assms(1) by (auto simp: f_range_def)
  have "a / b \<le> a" using a(2) assms(2) by (simp add: divide_le_eq mult_le_cancel_left1)
  with a assms(2,3) round64_nonneg [of "a / b" k] show ?thesis
    by (auto simp: f_div_def f_range_def)
qed

lemma unit_f_range: "unit_f x \<Longrightarrow> f_range 0 x"
  by (auto simp: unit_f_def f_range_def)

lemma f_of_int_range: "0 \<le> n \<Longrightarrow> n \<le> 2 ^ k \<Longrightarrow> k \<le> 1023 \<Longrightarrow> f_range k (f_of_int n)"
proof -
  assume n: "0 \<le> n" "n \<le> 2 ^ k" "k \<le> 1023"
  then have "(of_int n :: rat) \<le> of_int (2 ^ k)" by (simp only: of_int_le_iff)
  with n round64_nonneg [of "of_int n" k] show ?thesis by (auto simp: f_of_int_def f_range_def)
qed

lemma rne_error: "\<bar>of_int (rne x) - x\<bar> \<le> 1/2"
proof -
  have "x < of_int (\<lfloor>x\<rfloor> + 1)" by (simp add: less_floor_iff floor_less_iff [symmetric] del: of_int_add)
  then have fl: "of_int \<lfloor>x\<rfloor> \<le> x" "x < of_int \<lfloor>x\<rfloor> + 1" by simp_all
  from rne_cases [of x] show ?thesis
  proof
    assume "rne x = \<lfloor>x\<rfloor> \<and> x - of_int \<lfloor>x\<rfloor> \<le> 1/2"
    with fl show ?thesis unfolding abs_le_iff by linarith
  next
    assume "rne x = \<lfloor>x\<rfloor> + 1 \<and> 1/2 \<le> x - of_int \<lfloor>x\<rfloor>"
    then have "of_int (rne x) = (of_int \<lfloor>x\<rfloor> :: rat) + 1" "1/2 \<le> x - of_int \<lfloor>x\<rfloor>" by simp_all
    with fl show ?thesis unfolding abs_le_iff by linarith
  qed
qed

text \<open>Below one the error is at most \<open>1/2^53\<close>.\<close>

lemma rnd_error:
  assumes "0 \<le> x" and "x \<le> 1"
  shows "\<bar>rnd x - x\<bar> \<le> 1 / 2 ^ 53"
proof (cases "x = 0")
  case False
  then have x: "0 < x" using assms(1) by simp
  have "ilog2_rat x \<le> ilog2_rat 1" using x assms(2) by (rule ilog2_rat_mono)
  moreover have "ilog2_rat 1 = 0" by (rule ilog2_rat_eqI) simp_all
  ultimately have "exp64 x \<le> -52" using x by (simp add: exp64_def)
  then have e: "(2::rat) powi (exp64 x) \<le> 2 powi (-52)" by (rule powi_mono2)
  let ?p = "(2::rat) powi (exp64 x)"
  have p: "0 < ?p" by simp
  have "rnd x - x = (of_int (rne (x / ?p)) - x / ?p) * ?p"
    using False p by (simp add: rnd_def left_diff_distrib)
  then have "\<bar>rnd x - x\<bar> \<le> 1/2 * ?p"
    using rne_error [of "x / ?p"] by (simp add: abs_mult)
  also have "\<dots> \<le> 1/2 * 2 powi (-52)" using e by simp
  also have "\<dots> = 1 / 2 ^ 53" by (simp add: power_int_def power_divide)
  finally show ?thesis .
qed simp

text \<open>So fractions with small denominators compare as floats the way they compare exactly.\<close>

lemma rnd_less_iff:
  assumes "0 \<le> x" "x \<le> 1" "0 \<le> y" "y \<le> 1" and "x < y \<Longrightarrow> 1 / 2 ^ 51 \<le> y - x"
  shows "rnd x < rnd y \<longleftrightarrow> x < y"
proof
  assume "x < y"
  from assms(5) [OF this] rnd_error [OF assms(1,2)] rnd_error [OF assms(3,4)]
  have "y - x \<ge> 1 / 2 ^ 51" "rnd x \<le> x + 1 / 2 ^ 53" "y \<le> rnd y + 1 / 2 ^ 53"
    unfolding abs_le_iff by linarith+
  moreover have "(1 / 2 ^ 53 + 1 / 2 ^ 53 :: rat) < 1 / 2 ^ 51" by simp
  ultimately show "rnd x < rnd y" by linarith
next
  assume "rnd x < rnd y"
  then show "x < y" using rnd_mono [OF assms(3), of x] by force
qed

lemma frac_gap:
  assumes "0 < b" "b \<le> (2::int) ^ 32" "0 < d" "d \<le> 8" and "of_int a / of_int b < (of_int c / of_int d :: rat)"
  shows "1 / 2 ^ 51 \<le> of_int c / of_int d - (of_int a / of_int b :: rat)"
proof -
  have bd: "(0::rat) < of_int b" "(0::rat) < of_int d" using assms by simp_all
  have "(of_int (a * d) :: rat) < of_int (c * b)"
    using assms(5) bd by (simp add: divide_less_eq less_divide_eq mult.commute)
  then have "a * d < c * b" by (simp only: of_int_less_iff)
  then have num: "(1::rat) \<le> of_int (c * b - a * d)" by (simp only: of_int_1_le_iff)
  have "b * d \<le> 2 ^ 32 * 8" using assms by (intro mult_mono) auto
  then have den: "(of_int (b * d) :: rat) \<le> of_int (2 ^ 51)" unfolding of_int_le_iff by simp
  have "of_int c / of_int d - (of_int a / of_int b :: rat) = of_int (c * b - a * d) / of_int (b * d)"
    using bd by (simp add: field_simps)
  moreover have "1 / 2 ^ 51 \<le> (of_int (c * b - a * d) / of_int (b * d) :: rat)"
    using num den bd by (intro frac_le) (simp_all add: mult_pos_pos)
  ultimately show ?thesis by simp
qed

end
