(* ===== verification/Alert_Store.thy ===== *)
theory Alert_Store
  imports Go_Map Go_Strings Go_Float
begin

text \<open>
  What the alert manager and the monitor of \<^verbatim>\<open>pkg/monitoring\<close> share: the \<open>Alert\<close> struct, the map
  \<open>map[string]*Alert\<close>, and the interface of a component that creates, resolves and lists alerts.
  The map holds pointers and the manager's channel holds the same pointers, so the store is
  explicit: allocated alerts in a heap, addresses in the map. The locale \<open>alert_service\<close> states
  what a client of either component may rely on.
\<close>

section \<open>Data\<close>

datatype iface = IFloat float64 | IInt int | IString string

record Alert =
  al_ID :: string
  al_Type :: string
  al_Severity :: string
  al_Message :: string
  al_Timestamp :: u64
  al_Resolved :: bool
  al_ResolvedAt :: u64
  al_Metadata :: "(string, iface) gomap"
  al_Source :: string
  al_Tags :: "string list"

type_synonym ref = nat

record AlertMap =
  heap :: "Alert list"
  index :: "(string, ref) gomap"

definition empty_store :: AlertMap where
  "empty_store = \<lparr>heap = [], index = []\<rparr>"

text \<open>\<open>m[id] = &alert\<close>, \<open>m[id]\<close> and a write through a pointer.\<close>

definition store_put :: "string \<Rightarrow> Alert \<Rightarrow> AlertMap \<Rightarrow> AlertMap" where
  "store_put k alert s = s\<lparr>heap := heap s @ [alert], index := map_put k (length (heap s)) (index s)\<rparr>"

definition store_lookup :: "AlertMap \<Rightarrow> string \<Rightarrow> Alert option" where
  "store_lookup s k = map_option (\<lambda>p. heap s ! p) (map_get (index s) k)"

definition store_write :: "ref \<Rightarrow> Alert \<Rightarrow> AlertMap \<Rightarrow> AlertMap" where
  "store_write p alert s = s\<lparr>heap := (heap s)[p := alert]\<rparr>"

definition store_alerts :: "AlertMap \<Rightarrow> Alert list" where
  "store_alerts s = map (\<lambda>p. heap s ! p) (map_vals (index s))"

definition alert_id :: "string \<Rightarrow> int \<Rightarrow> string" where
  "alert_id alertType nanos = alertType @ ''_'' @ big_String nanos"

definition alert_matches :: "string \<Rightarrow> bool \<Rightarrow> Alert \<Rightarrow> bool" where
  "alert_matches severity resolved a \<longleftrightarrow>
     \<not> (severity \<noteq> [] \<and> al_Severity a \<noteq> severity) \<and> \<not> al_Resolved a \<noteq> resolved"

section \<open>The invariant of the store\<close>

text \<open>Every pointer of the map is allocated and points to the alert with that identifier.\<close>

definition store_inv :: "AlertMap \<Rightarrow> bool" where
  "store_inv s \<longleftrightarrow> map_ok (index s) \<and>
     (\<forall>k p. map_get (index s) k = Some p \<longrightarrow> p < length (heap s) \<and> al_ID (heap s ! p) = k)"

lemma store_inv_empty [simp]: "store_inv empty_store"
  by (simp add: store_inv_def empty_store_def)

lemma store_lookup_empty [simp]: "store_lookup empty_store k = None"
  by (simp add: store_lookup_def empty_store_def)

lemma store_inv_put: "store_inv s \<Longrightarrow> al_ID a = i \<Longrightarrow> store_inv (store_put i a s)"
  by (auto simp: store_inv_def store_put_def nth_append gm.ok_put less_SucI)

lemma store_lookup_put:
  "store_inv s \<Longrightarrow> store_lookup (store_put i a s) k = (if k = i then Some a else store_lookup s k)"
  by (cases "map_get (index s) k") (auto simp: store_lookup_def store_put_def store_inv_def nth_append)

lemma store_inv_write:
  "store_inv s \<Longrightarrow> map_get (index s) k = Some p \<Longrightarrow> al_ID a = k \<Longrightarrow> store_inv (store_write p a s)"
  by (simp add: store_inv_def store_write_def nth_list_update) metis

lemma store_lookup_write:
  assumes "store_inv s" and "map_get (index s) k = Some p"
  shows "store_lookup (store_write p a s) j = (if j = k then Some a else store_lookup s j)"
proof -
  have p: "p < length (heap s)" using assms by (simp add: store_inv_def)
  have inj: "q \<noteq> p" if "map_get (index s) j = Some q" "j \<noteq> k" for q
    using that assms by (auto simp: store_inv_def)
  show ?thesis
  proof (cases "j = k")
    case False
    then show ?thesis
      using inj by (cases "map_get (index s) j") (simp_all add: store_lookup_def store_write_def)
  qed (use assms(2) p in \<open>simp add: store_lookup_def store_write_def\<close>)
qed

lemma store_lookup_None: "store_lookup s k = None \<longleftrightarrow> map_get (index s) k = None"
  by (simp add: store_lookup_def)

lemma store_lookup_ID: "store_inv s \<Longrightarrow> store_lookup s k = Some a \<Longrightarrow> al_ID a = k"
  by (auto simp: store_inv_def store_lookup_def)

lemma store_alerts_iff: "store_inv s \<Longrightarrow> a \<in> set (store_alerts s) \<longleftrightarrow> (\<exists>k. store_lookup s k = Some a)"
proof -
  assume "store_inv s"
  then have ok: "map_ok (index s)" by (simp add: store_inv_def)
  show ?thesis
    unfolding store_alerts_def store_lookup_def by (simp add: image_iff Bex_def gm.vals_iff [OF ok]) blast
qed

text \<open>A loop that rewrites, through their pointers, the alerts that satisfy a condition.\<close>

definition store_sweep :: "(Alert \<Rightarrow> bool) \<Rightarrow> (Alert \<Rightarrow> Alert) \<Rightarrow> ref list \<Rightarrow> AlertMap \<Rightarrow> AlertMap" where
  "store_sweep c g ps s = fold (\<lambda>p s. let a = heap s ! p in if c a then store_write p (g a) s else s) ps s"

lemma sweep_heap:
  assumes "distinct ps" and "\<forall>p \<in> set ps. p < length (heap s)"
  shows "index (store_sweep c g ps s) = index s \<and> length (heap (store_sweep c g ps s)) = length (heap s) \<and>
     (\<forall>q < length (heap s). heap (store_sweep c g ps s) ! q =
        (if q \<in> set ps \<and> c (heap s ! q) then g (heap s ! q) else heap s ! q))"
  using assms
proof (induction ps arbitrary: s)
  case (Cons p ps)
  let ?s = "let a = heap s ! p in if c a then store_write p (g a) s else s"
  have s: "index ?s = index s" "length (heap ?s) = length (heap s)"
    "q < length (heap s) \<Longrightarrow> heap ?s ! q = (if q = p \<and> c (heap s ! q) then g (heap s ! q) else heap s ! q)" for q
    by (auto simp: store_write_def Let_def nth_list_update)
  have "distinct ps" "\<forall>p \<in> set ps. p < length (heap ?s)" using Cons.prems s(2) by simp_all
  note IH = Cons.IH [OF this]
  have unfold: "store_sweep c g (p # ps) s = store_sweep c g ps ?s" by (simp add: store_sweep_def)
  show ?case unfolding unfold using IH s Cons.prems(1) by auto
qed (simp add: store_sweep_def)

lemma index_distinct: "store_inv s \<Longrightarrow> distinct (map_vals (index s))"
proof -
  assume inv: "store_inv s"
  then have ok: "map_ok (index s)" by (simp add: store_inv_def)
  have "inj_on snd (set (index s))"
  proof (rule inj_onI)
    fix x y
    assume xy: "x \<in> set (index s)" "y \<in> set (index s)" "snd x = snd y"
    have "map_get (index s) (fst x) = Some (snd x)" "map_get (index s) (fst y) = Some (snd y)"
      using ok xy(1,2) by (simp_all add: map_ok_def map_get_def)
    with inv xy(3) have "fst x = fst y" unfolding store_inv_def by metis
    with xy(3) show "x = y" by (simp add: prod_eq_iff)
  qed
  with ok show ?thesis by (simp add: map_vals_def map_ok_def distinct_map)
qed

lemma sweep_lookup:
  assumes "store_inv s" and "\<And>a. al_ID (g a) = al_ID a"
    and s': "s' = store_sweep c g (map_vals (index s)) s"
  shows "store_inv s'" and "store_lookup s' k = map_option (\<lambda>a. if c a then g a else a) (store_lookup s k)"
proof -
  have ok: "map_ok (index s)" using assms(1) by (simp add: store_inv_def)
  have "\<forall>p \<in> set (map_vals (index s)). p < length (heap s)"
    using assms(1) by (auto simp: store_inv_def gm.vals_iff)
  note sw = sweep_heap [OF index_distinct [OF assms(1)] this, where c = c and g = g, folded s']
  have at: "p < length (heap s) \<and> heap s' ! p = (if c (heap s ! p) then g (heap s ! p) else heap s ! p)"
    if "map_get (index s) k = Some p" for k p
    using that assms(1) sw map_get_in_vals [OF that] by (auto simp: store_inv_def)
  show "store_inv s'" using assms(1,2) at by (auto simp: store_inv_def sw)
  show "store_lookup s' k = map_option (\<lambda>a. if c a then g a else a) (store_lookup s k)"
    using at by (cases "map_get (index s) k") (simp_all add: store_lookup_def conjunct1 [OF sw])
qed

text \<open>Identifiers are injective: the number after the last underscore is the time.\<close>

lemma alert_id_inject: "alert_id ty n = alert_id ty' n' \<longleftrightarrow> ty = ty' \<and> n = n'"
proof
  assume eq: "alert_id ty n = alert_id ty' n'"
  have split: "takeWhile (\<lambda>c. c \<noteq> CHR ''_'') (rev (t @ ''_'' @ big_String m)) = rev (big_String m)" for t m
  proof -
    have "\<forall>c \<in> set (rev (big_String m)). c \<noteq> CHR ''_''" using big_String_no_underscore by auto
    then show ?thesis by (simp add: takeWhile_append)
  qed
  from eq have "big_String n = big_String n'"
    using split [of ty n] split [of ty' n'] by (simp add: alert_id_def)
  with eq show "ty = ty' \<and> n = n'" by (auto simp: alert_id_def dest: big_String_inject)
qed simp

section \<open>The interface\<close>

locale alert_service =
  fixes inv :: "'s \<Rightarrow> bool"
    and lookup :: "'s \<Rightarrow> string \<Rightarrow> Alert option"
    and create :: "int \<Rightarrow> int \<Rightarrow> string \<Rightarrow> string \<Rightarrow> string \<Rightarrow> 's \<Rightarrow> string \<times> 's"
    and resolve :: "int \<Rightarrow> string \<Rightarrow> 's \<Rightarrow> 's \<times> error option"
    and listed :: "string \<Rightarrow> bool \<Rightarrow> 's \<Rightarrow> Alert list"
  assumes create_inv: "inv s \<Longrightarrow> inv (snd (create t0 t1 ty sev msg s))"
    and resolve_inv: "inv s \<Longrightarrow> inv (fst (resolve t k s))"
    and create_id: "fst (create t0 t1 ty sev msg s) = alert_id ty t0"
    and create_new: "inv s \<Longrightarrow> \<exists>a. lookup (snd (create t0 t1 ty sev msg s)) (alert_id ty t0) = Some a \<and>
          al_Severity a = sev \<and> al_Message a = msg \<and> al_Timestamp a = uint64 t1 \<and> \<not> al_Resolved a"
    and create_old: "inv s \<Longrightarrow> k \<noteq> alert_id ty t0 \<Longrightarrow> lookup (snd (create t0 t1 ty sev msg s)) k = lookup s k"
    and resolve_missing: "lookup s k = None \<Longrightarrow> resolve t k s = (s, Some (''alert not found: '' @ k))"
    and resolve_active: "inv s \<Longrightarrow> lookup s k = Some a \<Longrightarrow> \<not> al_Resolved a \<Longrightarrow>
          snd (resolve t k s) = None \<and>
          lookup (fst (resolve t k s)) j =
            (if j = k then Some (a\<lparr>al_Resolved := True, al_ResolvedAt := uint64 t\<rparr>) else lookup s j)"
    and listed_iff: "inv s \<Longrightarrow> a \<in> set (listed sev b s) \<longleftrightarrow> (\<exists>k. lookup s k = Some a \<and> alert_matches sev b a)"
begin

text \<open>A new alert is listed as active, for its severity and for all.\<close>

lemma created_listed:
  assumes "inv s" and "f \<in> {[], sev}"
  shows "\<exists>a. lookup (snd (create t0 t1 ty sev msg s)) (alert_id ty t0) = Some a \<and>
     a \<in> set (listed f False (snd (create t0 t1 ty sev msg s)))"
  using create_new [OF assms(1), of t0 t1 ty sev msg] assms(2)
    listed_iff [OF create_inv [OF assms(1)]] by (auto simp: alert_matches_def)

text \<open>Resolving moves an alert from the active to the resolved ones.\<close>

lemma resolved_moves:
  assumes "inv s" and "lookup s k = Some a" and "\<not> al_Resolved a" and "f \<in> {[], al_Severity a}"
  shows "a \<in> set (listed f False s)"
    and "a\<lparr>al_Resolved := True, al_ResolvedAt := uint64 t\<rparr> \<in> set (listed f True (fst (resolve t k s)))"
proof -
  show "a \<in> set (listed f False s)" using assms listed_iff [OF assms(1)] by (auto simp: alert_matches_def)
  show "a\<lparr>al_Resolved := True, al_ResolvedAt := uint64 t\<rparr> \<in> set (listed f True (fst (resolve t k s)))"
    using assms resolve_active [OF assms(1,2,3), of t k] listed_iff [OF resolve_inv [OF assms(1)]]
    by (auto simp: alert_matches_def)
qed

text \<open>Creating and at once resolving an alert leaves every other alert as it was.\<close>

lemma create_resolve:
  assumes "inv s" and s': "s' = snd (create t0 t1 ty sev msg s)"
  shows "snd (resolve t (alert_id ty t0) s') = None"
    and "k \<noteq> alert_id ty t0 \<Longrightarrow> lookup (fst (resolve t (alert_id ty t0) s')) k = lookup s k"
proof -
  obtain a where a: "lookup s' (alert_id ty t0) = Some a" "\<not> al_Resolved a"
    unfolding s' using create_new [OF assms(1)] by blast
  have "inv s'" unfolding s' using assms(1) by (rule create_inv)
  from resolve_active [OF this a] show "snd (resolve t (alert_id ty t0) s') = None" by simp
  show "k \<noteq> alert_id ty t0 \<Longrightarrow> lookup (fst (resolve t (alert_id ty t0) s')) k = lookup s k"
    using resolve_active [OF \<open>inv s'\<close> a, of t k] create_old [OF assms(1), of k ty t0] by (simp add: s')
qed

end

end
