(* ===== verification/Step_Systems.thy ===== *)
theory Step_Systems
  imports Main
begin

text \<open>
  Executions of a component whose methods run in an order the scheduler chooses: the step relation
  of the component, labelled with the call, and its finite runs. The locale \<open>steps_related\<close> is
  the contract of a relation between earlier and later states that every step respects (a counter
  grows, a flag stays set); \<open>steps_invariant\<close> that of a property every step keeps, which is the
  special case of the relation between states that have it. \<open>steps_progress\<close> is the contract of a
  component that can always get closer to a final state, by a measure. \<open>steps_refine\<close> is functional
  refinement: under the invariant every step is the step of an abstract function on the abstract
  state, so a whole execution is the fold of that function over the calls made.
\<close>

inductive run :: "('s \<Rightarrow> 'e \<Rightarrow> 's \<Rightarrow> bool) \<Rightarrow> 's \<Rightarrow> 'e list \<Rightarrow> 's \<Rightarrow> bool" for step where
  run_nil: "run step s [] s"
| run_cons: "step s e s' \<Longrightarrow> run step s' es s'' \<Longrightarrow> run step s (e # es) s''"

inductive_simps run_Nil_iff [simp]: "run step s [] s'"
inductive_simps run_Cons_iff: "run step s (e # es) s'"

lemma run_append: "run step s es s' \<Longrightarrow> run step s' fs s'' \<Longrightarrow> run step s (es @ fs) s''"
  by (induction rule: run.induct) (auto intro: run_cons)

lemma run_snoc_iff: "run step s (es @ [e]) s' \<longleftrightarrow> (\<exists>t. run step s es t \<and> step t e s')"
  by (induction es arbitrary: s) (auto simp: run_Cons_iff)

locale steps_related =
  fixes step :: "'s \<Rightarrow> 'e \<Rightarrow> 's \<Rightarrow> bool" and R :: "'s \<Rightarrow> 's \<Rightarrow> bool"
  assumes R_refl: "R s s"
    and R_trans: "R s s' \<Longrightarrow> R s' s'' \<Longrightarrow> R s s''"
    and R_step: "step s e s' \<Longrightarrow> R s s'"
begin

lemma R_run: "run step s es s' \<Longrightarrow> R s s'"
  by (induction rule: run.induct) (auto intro: R_refl R_trans R_step)

end

locale steps_invariant =
  fixes step :: "'s \<Rightarrow> 'e \<Rightarrow> 's \<Rightarrow> bool" and I :: "'s \<Rightarrow> bool"
  assumes I_step: "I s \<Longrightarrow> step s e s' \<Longrightarrow> I s'"

sublocale steps_invariant \<subseteq> kept: steps_related step "\<lambda>s s'. I s \<longrightarrow> I s'"
  by unfold_locales (auto intro: I_step)

context steps_invariant
begin

lemma I_run: "run step s es s' \<Longrightarrow> I s \<Longrightarrow> I s'"
  using kept.R_run by blast

end

locale steps_refine = steps_invariant step I
  for step :: "'s \<Rightarrow> 'e \<Rightarrow> 's \<Rightarrow> bool" and I :: "'s \<Rightarrow> bool" +
  fixes abs :: "'s \<Rightarrow> 'a" and f :: "'e \<Rightarrow> 'a \<Rightarrow> 'a"
  assumes refine_step: "I s \<Longrightarrow> step s e s' \<Longrightarrow> abs s' = f e (abs s)"
begin

lemma refine_run: "run step s es s' \<Longrightarrow> I s \<Longrightarrow> abs s' = fold f es (abs s)"
  by (induction rule: run.induct) (simp_all add: refine_step I_step)

end

locale steps_progress =
  fixes step :: "'s \<Rightarrow> 'e \<Rightarrow> 's \<Rightarrow> bool" and I :: "'s \<Rightarrow> bool" and final :: "'s \<Rightarrow> bool" and size_of :: "'s \<Rightarrow> nat"
  assumes progress: "I s \<Longrightarrow> \<not> final s \<Longrightarrow> \<exists>e s'. step s e s' \<and> I s' \<and> size_of s' < size_of s"
begin

lemma reaches_final: "I s \<Longrightarrow> \<exists>es s'. run step s es s' \<and> I s' \<and> final s' \<and> length es \<le> size_of s"
proof (induction s rule: measure_induct_rule [of size_of])
  case (less s)
  show ?case
  proof (cases "final s")
    case True
    with less.prems have "run step s [] s \<and> I s \<and> final s \<and> length ([] :: 'e list) \<le> size_of s" by simp
    then show ?thesis by blast
  next
    case False
    with progress less.prems obtain e s' where s': "step s e s'" "I s'" "size_of s' < size_of s" by blast
    from less.IH [OF s'(3,2)] obtain es s'' where
      "run step s' es s''" "I s''" "final s''" "length es \<le> size_of s'" by blast
    with s' have "run step s (e # es) s'' \<and> I s'' \<and> final s'' \<and> length (e # es) \<le> size_of s"
      by (auto intro: run_cons)
    then show ?thesis by blast
  qed
qed

end

end
