(* ===== verification/Alert_Manager.thy ===== *)
theory Alert_Manager
  imports Alert_Store Step_Systems
begin

text \<open>
  The alert manager of \<^verbatim>\<open>pkg/monitoring/alerts.go\<close>: alerts by identifier, two channels of
  capacity 100 with non-blocking sends, handlers called by one goroutine, an hourly cleanup and
  the threshold checks. Handlers are code outside the repository; what they do is not modelled,
  but the calls they get are recorded in order in \<open>am_calls\<close>, and their errors are only logged.
\<close>

section \<open>Formatting\<close>

text \<open>\<open>%.2f\<close> of a float: the exact value, rounded half to even to hundredths.\<close>

definition two_digits :: "nat \<Rightarrow> string" where
  "two_digits n = (if n < 10 then ''0'' @ nat_String n else nat_String n)"

definition fmt_2f :: "float64 \<Rightarrow> string" where
  "fmt_2f x = (case x of NaN \<Rightarrow> ''NaN'' | PInf \<Rightarrow> ''+Inf'' | NInf \<Rightarrow> ''-Inf''
     | Fin r \<Rightarrow> (let n = nat (rne (\<bar>r\<bar> * 100)) in
         (if r < 0 then ''-'' else []) @ nat_String (n div 100) @ ''.'' @ two_digits (n mod 100)))"

section \<open>Data\<close>

record AlertThresholds =
  at_PriceDeviation :: float64
  at_LiquidityImbalance :: float64
  at_ResponseTime :: int
  at_ErrorRate :: float64
  at_Uptime :: float64
  at_MemoryUsage :: float64
  at_CPUUsage :: float64

datatype 'h call = HandleAlert 'h Alert | HandleAlertResolved 'h string

record 'h AlertManager =
  am_alerts :: AlertMap
  am_alertChan :: "ref list"
  am_resolveChan :: "string list"
  am_thresholds :: AlertThresholds
  am_handlers :: "'h list"
  am_calls :: "'h call list"

definition NewAlertManager :: "AlertThresholds \<Rightarrow> 'h AlertManager" where
  "NewAlertManager thresholds = \<lparr>am_alerts = empty_store, am_alertChan = [], am_resolveChan = [],
     am_thresholds = thresholds, am_handlers = [], am_calls = []\<rparr>"

section \<open>Operations\<close>

definition AddHandler :: "'h \<Rightarrow> 'h AlertManager \<Rightarrow> 'h AlertManager" where
  "AddHandler handler am = am\<lparr>am_handlers := am_handlers am @ [handler]\<rparr>"

text \<open>\<open>select { case c <- x: default: }\<close> on a channel of capacity 100.\<close>

definition try_send :: "'a \<Rightarrow> 'a list \<Rightarrow> 'a list" where
  "try_send x c = (if length c < 100 then c @ [x] else c)"

definition CreateAlert ::
  "int \<Rightarrow> int \<Rightarrow> string \<Rightarrow> string \<Rightarrow> string \<Rightarrow> string \<Rightarrow> (string, iface) gomap \<Rightarrow> string list \<Rightarrow>
   'h AlertManager \<Rightarrow> string \<times> 'h AlertManager" where
  "CreateAlert nanos now alertType severity message source metadata tags am =
     (let alertID = alert_id alertType nanos;
          alert = \<lparr>al_ID = alertID, al_Type = alertType, al_Severity = severity, al_Message = message,
                   al_Timestamp = uint64 now, al_Resolved = False, al_ResolvedAt = 0,
                   al_Metadata = metadata, al_Source = source, al_Tags = tags\<rparr>;
          p = length (heap (am_alerts am))
      in (alertID, am\<lparr>am_alerts := store_put alertID alert (am_alerts am),
                      am_alertChan := try_send p (am_alertChan am)\<rparr>))"

definition ResolveAlert :: "int \<Rightarrow> string \<Rightarrow> 'h AlertManager \<Rightarrow> 'h AlertManager \<times> error option" where
  "ResolveAlert now alertID am =
     (case map_get (index (am_alerts am)) alertID of
        None \<Rightarrow> (am, Some (''alert not found: '' @ alertID))
      | Some p \<Rightarrow>
         let alert = heap (am_alerts am) ! p in
         if al_Resolved alert then (am, Some (''alert already resolved: '' @ alertID))
         else (am\<lparr>am_alerts := store_write p (alert\<lparr>al_Resolved := True, al_ResolvedAt := uint64 now\<rparr>) (am_alerts am),
                  am_resolveChan := try_send alertID (am_resolveChan am)\<rparr>, None))"

definition GetAlert :: "string \<Rightarrow> 'h AlertManager \<Rightarrow> error + Alert" where
  "GetAlert alertID am = (case store_lookup (am_alerts am) alertID of
       None \<Rightarrow> Inl (''alert not found: '' @ alertID)
     | Some alert \<Rightarrow> Inr alert)"

text \<open>The loop of GetAlerts, with its \<open>break\<close> at the limit.\<close>

fun getAlerts_loop :: "string \<Rightarrow> bool \<Rightarrow> int \<Rightarrow> Alert list \<Rightarrow> Alert list \<Rightarrow> Alert list" where
  "getAlerts_loop severity resolved limit acc [] = acc"
| "getAlerts_loop severity resolved limit acc (alert # rest) =
     (if 0 < limit \<and> limit \<le> int (length acc) then acc
      else if severity \<noteq> [] \<and> al_Severity alert \<noteq> severity then getAlerts_loop severity resolved limit acc rest
      else if al_Resolved alert \<noteq> resolved then getAlerts_loop severity resolved limit acc rest
      else getAlerts_loop severity resolved limit (acc @ [alert]) rest)"

definition GetAlerts :: "string \<Rightarrow> bool \<Rightarrow> int \<Rightarrow> 'h AlertManager \<Rightarrow> Alert list" where
  "GetAlerts severity resolved limit am =
     getAlerts_loop severity resolved limit [] (store_alerts (am_alerts am))"

definition GetActiveAlerts :: "'h AlertManager \<Rightarrow> Alert list" where
  "GetActiveAlerts am = GetAlerts [] False 0 am"

definition GetCriticalAlerts :: "'h AlertManager \<Rightarrow> Alert list" where
  "GetCriticalAlerts am = GetAlerts ''critical'' False 0 am"

definition handleAlert :: "ref \<Rightarrow> 'h AlertManager \<Rightarrow> 'h AlertManager" where
  "handleAlert p am =
     am\<lparr>am_calls := am_calls am @ map (\<lambda>h. HandleAlert h (heap (am_alerts am) ! p)) (am_handlers am)\<rparr>"

definition handleAlertResolved :: "string \<Rightarrow> 'h AlertManager \<Rightarrow> 'h AlertManager" where
  "handleAlertResolved alertID am =
     am\<lparr>am_calls := am_calls am @ map (\<lambda>h. HandleAlertResolved h alertID) (am_handlers am)\<rparr>"

definition cleanupOldAlerts :: "int \<Rightarrow> 'h AlertManager \<Rightarrow> 'h AlertManager" where
  "cleanupOldAlerts t am =
     (let now = uint64 t;
          cutoff = now - 7 * 24 * 60 * 60;
          toDelete = map fst (filter (\<lambda>(alertID, p). let alert = heap (am_alerts am) ! p in
              al_Resolved alert \<and> al_ResolvedAt alert < cutoff) (index (am_alerts am)))
      in am\<lparr>am_alerts := (am_alerts am)\<lparr>index := fold map_del toDelete (index (am_alerts am))\<rparr>\<rparr>)"

text \<open>The goroutines: clients create and resolve, \<open>processAlerts\<close> takes from either channel,
  \<open>cleanupAlerts\<close> ticks.\<close>

datatype am_event =
    Created int int string string string string "(string, iface) gomap" "string list"
  | Resolved int string
  | TakeAlert
  | TakeResolved
  | Cleanup int

inductive am_step :: "'h AlertManager \<Rightarrow> am_event \<Rightarrow> 'h AlertManager \<Rightarrow> bool" where
  create: "am_step am (Created nanos now ty sev msg src md tags) (snd (CreateAlert nanos now ty sev msg src md tags am))"
| resolve: "am_step am (Resolved now k) (fst (ResolveAlert now k am))"
| processAlerts_alert: "am_alertChan am = p # ps \<Longrightarrow> am_step am TakeAlert (handleAlert p (am\<lparr>am_alertChan := ps\<rparr>))"
| processAlerts_resolved: "am_resolveChan am = k # ks \<Longrightarrow>
    am_step am TakeResolved (handleAlertResolved k (am\<lparr>am_resolveChan := ks\<rparr>))"
| cleanupAlerts: "am_step am (Cleanup now) (cleanupOldAlerts now am)"

section \<open>Threshold checks\<close>

text \<open>Every check reads the clock twice when it creates its alert; \<open>clk\<close> gives the readings by type.\<close>

definition percent :: "float64 \<Rightarrow> string" where
  "percent x = fmt_2f (f_mul x (f_lit 100)) @ ''%''"

definition check_rate ::
  "(string \<Rightarrow> int \<times> int) \<Rightarrow> (string, float64) gomap \<Rightarrow> string \<Rightarrow> string \<Rightarrow> string \<Rightarrow> float64 \<Rightarrow> string list \<Rightarrow>
   'h AlertManager \<Rightarrow> 'h AlertManager" where
  "check_rate clk metrics name severity title threshold tags am =
     (case map_get metrics name of
        None \<Rightarrow> am
      | Some v \<Rightarrow>
         if f_greater v threshold then
           snd (CreateAlert (fst (clk name)) (snd (clk name)) name severity
             (title @ '' exceeded threshold: '' @ percent v @ '' > '' @ percent threshold)
             ''monitoring'' [(name, IFloat v), (''threshold'', IFloat threshold)] tags am)
         else am)"

definition check_response_time ::
  "(string \<Rightarrow> int \<times> int) \<Rightarrow> (string, float64) gomap \<Rightarrow> 'h AlertManager \<Rightarrow> 'h AlertManager" where
  "check_response_time clk metrics am =
     (case map_get metrics ''response_time'' of
        None \<Rightarrow> am
      | Some v \<Rightarrow>
         if f_greater v (f_of_int (at_ResponseTime (am_thresholds am))) then
           snd (CreateAlert (fst (clk ''response_time'')) (snd (clk ''response_time'')) ''response_time'' ''medium''
             (''Response time exceeded threshold: '' @ fmt_2f v @ ''s > '' @
               big_String (at_ResponseTime (am_thresholds am)) @ ''s'')
             ''monitoring'' [(''response_time'', IFloat v), (''threshold'', IInt (at_ResponseTime (am_thresholds am)))]
             [''response'', ''time''] am)
         else am)"

definition check_uptime ::
  "(string \<Rightarrow> int \<times> int) \<Rightarrow> (string, float64) gomap \<Rightarrow> 'h AlertManager \<Rightarrow> 'h AlertManager" where
  "check_uptime clk metrics am =
     (case map_get metrics ''uptime'' of
        None \<Rightarrow> am
      | Some v \<Rightarrow>
         if f_less v (at_Uptime (am_thresholds am)) then
           snd (CreateAlert (fst (clk ''uptime'')) (snd (clk ''uptime'')) ''uptime'' ''critical''
             (''Uptime below threshold: '' @ percent v @ '' < '' @ percent (at_Uptime (am_thresholds am)))
             ''monitoring'' [(''uptime'', IFloat v), (''threshold'', IFloat (at_Uptime (am_thresholds am)))] [''uptime''] am)
         else am)"

definition CheckThresholds ::
  "(string \<Rightarrow> int \<times> int) \<Rightarrow> (string, float64) gomap \<Rightarrow> 'h AlertManager \<Rightarrow> 'h AlertManager" where
  "CheckThresholds clk metrics am =
     (let th = am_thresholds am;
          am = check_rate clk metrics ''price_deviation'' ''high'' ''Price deviation'' (at_PriceDeviation th) [''price'', ''deviation''] am;
          am = check_rate clk metrics ''liquidity_imbalance'' ''high'' ''Liquidity imbalance'' (at_LiquidityImbalance th) [''liquidity'', ''imbalance''] am;
          am = check_response_time clk metrics am;
          am = check_rate clk metrics ''error_rate'' ''high'' ''Error rate'' (at_ErrorRate th) [''error'', ''rate''] am;
          am = check_uptime clk metrics am;
          am = check_rate clk metrics ''memory_usage'' ''medium'' ''Memory usage'' (at_MemoryUsage th) [''memory'', ''usage''] am;
          am = check_rate clk metrics ''cpu_usage'' ''medium'' ''CPU usage'' (at_CPUUsage th) [''cpu'', ''usage''] am
      in am)"

definition GetDefaultThresholds :: AlertThresholds where
  "GetDefaultThresholds = \<lparr>at_PriceDeviation = f_lit (1/10), at_LiquidityImbalance = f_lit (1/5),
     at_ResponseTime = 30, at_ErrorRate = f_lit (1/20), at_Uptime = f_lit (99/100),
     at_MemoryUsage = f_lit (4/5), at_CPUUsage = f_lit (4/5)\<rparr>"

section \<open>The invariant\<close>

definition am_inv :: "'h AlertManager \<Rightarrow> bool" where
  "am_inv am \<longleftrightarrow> store_inv (am_alerts am) \<and> length (am_alertChan am) \<le> 100 \<and> length (am_resolveChan am) \<le> 100 \<and>
     (\<forall>p \<in> set (am_alertChan am). p < length (heap (am_alerts am)))"

abbreviation am_lookup :: "'h AlertManager \<Rightarrow> string \<Rightarrow> Alert option" where
  "am_lookup am \<equiv> store_lookup (am_alerts am)"

lemma length_try_send: "length c \<le> 100 \<Longrightarrow> length (try_send x c) \<le> 100"
  by (simp add: try_send_def)

lemma set_try_send: "set (try_send x c) \<subseteq> insert x (set c)"
  by (auto simp: try_send_def)

lemma heap_store_put [simp]: "heap (store_put k a s) = heap s @ [a]"
  by (simp add: store_put_def)

lemma length_heap_store_write [simp]: "length (heap (store_write p a s)) = length (heap s)"
  by (simp add: store_write_def)

lemma CreateAlert_inv:
  "am_inv am \<Longrightarrow> am_inv (snd (CreateAlert nanos now ty sev msg src md tags am))"
  using set_try_send [of "length (heap (am_alerts am))" "am_alertChan am"]
  by (auto simp: am_inv_def CreateAlert_def Let_def store_inv_put length_try_send less_SucI)

lemma ResolveAlert_inv: "am_inv am \<Longrightarrow> am_inv (fst (ResolveAlert now k am))"
proof (cases "map_get (index (am_alerts am)) k")
  case (Some p)
  assume inv: "am_inv am"
  then have "al_ID (heap (am_alerts am) ! p) = k" using Some by (simp add: am_inv_def store_inv_def)
  then have "store_inv (store_write p ((heap (am_alerts am) ! p)\<lparr>al_Resolved := True, al_ResolvedAt := uint64 now\<rparr>) (am_alerts am))"
    using inv Some by (intro store_inv_write) (simp_all add: am_inv_def)
  with inv Some show ?thesis by (simp add: am_inv_def ResolveAlert_def Let_def length_try_send)
qed (simp add: ResolveAlert_def)

lemma fold_map_del:
  "map_get (fold map_del ks m) k = (if k \<in> set ks then None else map_get m k)"
  "map_ok m \<Longrightarrow> map_ok (fold map_del ks m)"
  by (induction ks arbitrary: m) (auto simp: gm.ok_del)

lemma cleanup_lookup:
  assumes "am_inv am"
  shows "am_lookup (cleanupOldAlerts t am) k =
     (case am_lookup am k of None \<Rightarrow> None
      | Some a \<Rightarrow> if al_Resolved a \<and> al_ResolvedAt a < uint64 t - 604800 then None else Some a)"
proof -
  let ?P = "\<lambda>p. al_Resolved (heap (am_alerts am) ! p) \<and> al_ResolvedAt (heap (am_alerts am) ! p) < uint64 t - 604800"
  let ?del = "map fst (filter (\<lambda>(i, p). ?P p) (index (am_alerts am)))"
  have "map_ok (index (am_alerts am))" using assms by (simp add: am_inv_def store_inv_def)
  then have del: "k \<in> set ?del \<longleftrightarrow> (\<exists>p. map_get (index (am_alerts am)) k = Some p \<and> ?P p)"
    by (force simp: map_get_def map_ok_def map_of_eq_Some_iff)
  show ?thesis
    by (cases "map_get (index (am_alerts am)) k")
      (simp_all add: cleanupOldAlerts_def Let_def store_lookup_def fold_map_del del del: set_map)
qed

lemma cleanup_inv: "am_inv am \<Longrightarrow> am_inv (cleanupOldAlerts t am)"
  by (simp add: am_inv_def cleanupOldAlerts_def Let_def store_inv_def fold_map_del)

lemma handle_inv:
  "am_inv am \<Longrightarrow> am_alertChan am = p # ps \<Longrightarrow> am_inv (handleAlert p (am\<lparr>am_alertChan := ps\<rparr>))"
  "am_inv am \<Longrightarrow> am_resolveChan am = k # ks \<Longrightarrow> am_inv (handleAlertResolved k (am\<lparr>am_resolveChan := ks\<rparr>))"
  by (simp_all add: am_inv_def handleAlert_def handleAlertResolved_def)

interpretation manager: steps_invariant am_step am_inv
proof
  fix am am' :: "'h AlertManager" and e
  assume "am_inv am" and "am_step am e am'"
  from this(2,1) show "am_inv am'"
    by cases (auto simp: CreateAlert_inv ResolveAlert_inv cleanup_inv intro: handle_inv)
qed

section \<open>The interface\<close>

lemma getAlerts_loop_spec:
  "getAlerts_loop sev b limit acc xs = acc @
     (if 0 < limit then take (nat (limit - int (length acc))) (filter (alert_matches sev b) xs)
      else filter (alert_matches sev b) xs)"
proof (induction xs arbitrary: acc)
  case (Cons a xs)
  show ?case
  proof (cases "0 < limit \<and> limit \<le> int (length acc)")
    case False
    then have "0 < limit \<Longrightarrow> nat (limit - int (length acc)) = Suc (nat (limit - (1 + int (length acc))))" by linarith
    with False Cons show ?thesis by (auto simp: alert_matches_def)
  qed simp
qed simp

lemma ResolveAlert_active:
  assumes "am_inv am" and "am_lookup am k = Some a" and "\<not> al_Resolved a"
  shows "snd (ResolveAlert t k am) = None \<and> am_lookup (fst (ResolveAlert t k am)) j =
     (if j = k then Some (a\<lparr>al_Resolved := True, al_ResolvedAt := uint64 t\<rparr>) else am_lookup am j)"
proof -
  obtain p where p: "map_get (index (am_alerts am)) k = Some p" "a = heap (am_alerts am) ! p"
    using assms(2) by (auto simp: store_lookup_def)
  with assms show ?thesis
    by (simp add: ResolveAlert_def Let_def store_lookup_write [OF _ p(1)] am_inv_def)
qed

interpretation am: alert_service am_inv am_lookup
  "\<lambda>t0 t1 ty sev msg. CreateAlert t0 t1 ty sev msg src md tags" ResolveAlert "\<lambda>sev b. GetAlerts sev b 0" for src md tags
proof
  fix s :: "'h AlertManager" and t0 t1 t ty sev msg k j a b
  show "am_inv s \<Longrightarrow> am_inv (snd (CreateAlert t0 t1 ty sev msg src md tags s))" by (rule CreateAlert_inv)
  show "am_inv s \<Longrightarrow> am_inv (fst (ResolveAlert t k s))" by (rule ResolveAlert_inv)
  show "fst (CreateAlert t0 t1 ty sev msg src md tags s) = alert_id ty t0" by (simp add: CreateAlert_def Let_def)
  show "am_inv s \<Longrightarrow> \<exists>a. am_lookup (snd (CreateAlert t0 t1 ty sev msg src md tags s)) (alert_id ty t0) = Some a \<and>
      al_Severity a = sev \<and> al_Message a = msg \<and> al_Timestamp a = uint64 t1 \<and> \<not> al_Resolved a"
    by (simp add: CreateAlert_def Let_def am_inv_def store_lookup_put)
  show "am_inv s \<Longrightarrow> k \<noteq> alert_id ty t0 \<Longrightarrow>
      am_lookup (snd (CreateAlert t0 t1 ty sev msg src md tags s)) k = am_lookup s k"
    by (simp add: CreateAlert_def Let_def am_inv_def store_lookup_put)
  show "am_lookup s k = None \<Longrightarrow> ResolveAlert t k s = (s, Some (''alert not found: '' @ k))"
    by (simp add: store_lookup_def ResolveAlert_def)
  show "am_inv s \<Longrightarrow> am_lookup s k = Some a \<Longrightarrow> \<not> al_Resolved a \<Longrightarrow> snd (ResolveAlert t k s) = None \<and>
      am_lookup (fst (ResolveAlert t k s)) j =
        (if j = k then Some (a\<lparr>al_Resolved := True, al_ResolvedAt := uint64 t\<rparr>) else am_lookup s j)"
    by (rule ResolveAlert_active)
  show "am_inv s \<Longrightarrow> a \<in> set (GetAlerts sev b 0 s) \<longleftrightarrow> (\<exists>k. am_lookup s k = Some a \<and> alert_matches sev b a)"
    by (auto simp: GetAlerts_def getAlerts_loop_spec am_inv_def store_alerts_iff)
qed

section \<open>Properties of the alert manager\<close>

text \<open>In every state an execution of the alert manager reaches, whatever the order of clients,
  handler goroutine and cleanup: each map entry points to an allocated alert with that very
  identifier, the channels hold at most 100 entries, and every queued pointer is allocated.\<close>

theorem alert_manager_invariant:
  assumes "run am_step (NewAlertManager th) es am"
  shows "map_ok (index (am_alerts am)) \<and>
     (\<forall>k p. map_get (index (am_alerts am)) k = Some p \<longrightarrow>
        p < length (heap (am_alerts am)) \<and> al_ID (heap (am_alerts am) ! p) = k) \<and>
     length (am_alertChan am) \<le> 100 \<and> length (am_resolveChan am) \<le> 100 \<and>
     (\<forall>p \<in> set (am_alertChan am). p < length (heap (am_alerts am)))"
proof -
  have "am_inv (NewAlertManager th)" by (simp add: am_inv_def NewAlertManager_def)
  from manager.I_run [OF assms this] show ?thesis by (simp add: am_inv_def store_inv_def)
qed

text \<open>C6: The life of an alert. A created alert is found under the returned identifier and listed as
  active; resolving it succeeds once, moves it to the resolved ones with the time of resolution,
  and leaves every other alert alone; resolving it again is an error that changes nothing.\<close>

theorem alert_lifecycle:
  assumes "am_inv am" and "CreateAlert nanos t ty sev msg src md tags am = (i, am1)"
    and "ResolveAlert t' i am1 = (am2, err)"
  shows "\<exists>a. GetAlert i am1 = Inr a \<and> a \<in> set (GetActiveAlerts am1) \<and> err = None \<and>
     a\<lparr>al_Resolved := True, al_ResolvedAt := uint64 t'\<rparr> \<in> set (GetAlerts sev True 0 am2) \<and>
     (\<forall>k. k \<noteq> i \<longrightarrow> am_lookup am2 k = am_lookup am k) \<and>
     ResolveAlert t'' i am2 = (am2, Some (''alert already resolved: '' @ i))"
proof -
  have i: "i = alert_id ty nanos" and am1: "am1 = snd (CreateAlert nanos t ty sev msg src md tags am)"
    using assms(2) by (auto simp: CreateAlert_def Let_def)
  have inv1: "am_inv am1" unfolding am1 using assms(1) by (rule CreateAlert_inv)
  obtain a where a: "am_lookup am1 i = Some a" "al_Severity a = sev" "\<not> al_Resolved a"
    unfolding am1 i using am.create_new [OF assms(1)] by blast
  have am2: "am2 = fst (ResolveAlert t' i am1)" "err = snd (ResolveAlert t' i am1)" using assms(3) by simp_all
  have res: "snd (ResolveAlert t' i am1) = None \<and> am_lookup (fst (ResolveAlert t' i am1)) j =
      (if j = i then Some (a\<lparr>al_Resolved := True, al_ResolvedAt := uint64 t'\<rparr>) else am_lookup am1 j)" for j
    by (rule am.resolve_active [OF inv1 a(1,3)])
  have moved: "a \<in> set (GetAlerts f False 0 am1)"
    "a\<lparr>al_Resolved := True, al_ResolvedAt := uint64 t'\<rparr> \<in> set (GetAlerts f True 0 (fst (ResolveAlert t' i am1)))"
    if "f \<in> {[], al_Severity a}" for f
    using am.resolved_moves [OF inv1 a(1,3) that] by blast+
  have "am_lookup am2 i = Some (a\<lparr>al_Resolved := True, al_ResolvedAt := uint64 t'\<rparr>)"
    using res unfolding am2 by simp
  then have "ResolveAlert t'' i am2 = (am2, Some (''alert already resolved: '' @ i))"
    by (auto simp: store_lookup_def ResolveAlert_def Let_def)
  moreover have "\<forall>k. k \<noteq> i \<longrightarrow> am_lookup am2 k = am_lookup am k"
    using res am.create_old [OF assms(1)] unfolding am2 by (simp add: am1 i)
  ultimately show ?thesis
    using a moved [of "[]"] moved [of sev] res unfolding am2
    by (auto simp: GetAlert_def GetActiveAlerts_def)
qed

text \<open>The cleanup removes exactly the alerts resolved more than seven days ago; active alerts and
  recently resolved ones stay as they are.\<close>

theorem cleanupOldAlerts_exact:
  assumes "am_inv am" and "604800 \<le> now" and "now < 2 ^ 64"
  shows "am_lookup (cleanupOldAlerts now am) k = (case am_lookup am k of None \<Rightarrow> None
     | Some a \<Rightarrow> if al_Resolved a \<and> uint (al_ResolvedAt a) + 604800 < now then None else Some a)"
proof -
  have now: "uint (uint64 now) = now" using assms(2,3) by (intro uint_uint64) simp_all
  then have "604800 \<le> uint64 now" using assms(2) by (simp add: word_le_def)
  from uint_sub_le [OF this] now have "uint (uint64 now - 604800) = now - 604800" by simp
  then have "(w < uint64 now - 604800) = (uint w + 604800 < now)" for w :: u64
    by (simp add: word_less_def) linarith
  then show ?thesis by (cases "am_lookup am k") (simp_all add: cleanup_lookup [OF assms(1)])
qed

text \<open>GetAlerts returns the alerts of the wanted severity (any, when empty) and resolution state:
  all of them without a limit, and with a positive limit that many or all if there are fewer.\<close>

theorem GetAlerts_limit:
  assumes "am_inv am"
  shows "set (GetAlerts sev b limit am) \<subseteq> {a. \<exists>k. am_lookup am k = Some a \<and> (sev = [] \<or> al_Severity a = sev) \<and> al_Resolved a = b} \<and>
     (limit \<le> 0 \<longrightarrow> set (GetAlerts sev b limit am) =
        {a. \<exists>k. am_lookup am k = Some a \<and> (sev = [] \<or> al_Severity a = sev) \<and> al_Resolved a = b}) \<and>
     (0 < limit \<longrightarrow> int (length (GetAlerts sev b limit am)) = min limit (int (length (GetAlerts sev b 0 am))))"
proof -
  let ?A = "{a. \<exists>k. am_lookup am k = Some a \<and> (sev = [] \<or> al_Severity a = sev) \<and> al_Resolved a = b}"
  have all: "set (filter (alert_matches sev b) (store_alerts (am_alerts am))) = ?A"
    using assms by (auto simp: am_inv_def store_alerts_iff alert_matches_def)
  have "set (GetAlerts sev b limit am) \<subseteq> set (filter (alert_matches sev b) (store_alerts (am_alerts am)))"
    unfolding GetAlerts_def getAlerts_loop_spec by (auto dest: in_set_takeD)
  then show ?thesis
    unfolding all using all by (auto simp: GetAlerts_def getAlerts_loop_spec min_def)
qed

text \<open>What has been delivered to one handler, and what the channel still holds for it.\<close>

fun handled :: "'h \<Rightarrow> 'h call \<Rightarrow> string list" where
  "handled h (HandleAlert h' a) = (if h' = h then [al_ID a] else [])"
| "handled h (HandleAlertResolved h' k) = []"

definition delivered :: "'h \<Rightarrow> 'h AlertManager \<Rightarrow> string list" where
  "delivered h am = concat (map (handled h) (am_calls am))"

definition pending :: "'h AlertManager \<Rightarrow> string list" where
  "pending am = map (\<lambda>p. al_ID (heap (am_alerts am) ! p)) (am_alertChan am)"

definition fifo :: "'h \<Rightarrow> 'h AlertManager \<Rightarrow> 'h AlertManager \<Rightarrow> bool" where
  "fifo h am am' \<longleftrightarrow> (am_inv am \<and> distinct (am_handlers am) \<and> h \<in> set (am_handlers am) \<longrightarrow>
     am_inv am' \<and> am_handlers am' = am_handlers am \<and>
     (\<exists>new. delivered h am' @ pending am' = delivered h am @ pending am @ new))"

lemma delivered_handlers:
  "distinct hs \<Longrightarrow> h \<in> set hs \<Longrightarrow> concat (map (handled h \<circ> (\<lambda>h. HandleAlert h a)) hs) = [al_ID a]"
  "concat (map (handled h \<circ> (\<lambda>h. HandleAlertResolved h k)) hs) = []"
proof -
  have none: "h \<notin> set hs \<Longrightarrow> concat (map (handled h \<circ> (\<lambda>h. HandleAlert h a)) hs) = []" for hs
    by (induction hs) auto
  show "distinct hs \<Longrightarrow> h \<in> set hs \<Longrightarrow> concat (map (handled h \<circ> (\<lambda>h. HandleAlert h a)) hs) = [al_ID a]"
    by (induction hs) (auto simp: none)
qed (induction hs, auto)

lemma nth_update_ID: "al_ID a = al_ID (xs ! p) \<Longrightarrow> al_ID (xs[p := a] ! x) = al_ID (xs ! x)"
  by (cases "p < length xs"; cases "p = x") (auto simp: list_update_beyond)

lemma pending_CreateAlert:
  "am_inv am \<Longrightarrow> pending (snd (CreateAlert nanos now ty sev msg src md tags am)) =
     pending am @ (if length (am_alertChan am) < 100 then [alert_id ty nanos] else [])"
  by (auto simp: pending_def CreateAlert_def Let_def try_send_def am_inv_def nth_append)

lemma fifo_step: "am_step am e am' \<Longrightarrow> fifo h am am'"
proof (cases rule: am_step.cases, assumption)
  fix nanos now ty sev msg src md tags
  assume am': "am' = snd (CreateAlert nanos now ty sev msg src md tags am)"
  have "am_calls am' = am_calls am" "am_handlers am' = am_handlers am"
    by (simp_all add: am' CreateAlert_def Let_def)
  then show ?thesis
    using pending_CreateAlert [of am nanos now ty sev msg src md tags]
      CreateAlert_inv [of am nanos now ty sev msg src md tags]
    by (auto simp: fifo_def delivered_def am')
next
  fix now k
  assume am': "am' = fst (ResolveAlert now k am)"
  have "pending am' = pending am" if "am_inv am"
    by (simp add: am' pending_def ResolveAlert_def Let_def store_write_def nth_update_ID split: option.split)
  moreover have "am_calls am' = am_calls am" "am_handlers am' = am_handlers am"
    by (auto simp: am' ResolveAlert_def Let_def split: option.split)
  ultimately show ?thesis using ResolveAlert_inv [of am now k] by (simp add: fifo_def delivered_def am')
next
  fix p ps
  assume am': "am' = handleAlert p (am\<lparr>am_alertChan := ps\<rparr>)" and chan: "am_alertChan am = p # ps"
  then show ?thesis
    using handle_inv(1) [OF _ chan] by (simp add: fifo_def delivered_def pending_def handleAlert_def delivered_handlers)
next
  fix k ks
  assume am': "am' = handleAlertResolved k (am\<lparr>am_resolveChan := ks\<rparr>)" and chan: "am_resolveChan am = k # ks"
  then show ?thesis
    using handle_inv(2) [OF _ chan] by (simp add: fifo_def delivered_def pending_def handleAlertResolved_def delivered_handlers)
next
  fix now
  assume am': "am' = cleanupOldAlerts now am"
  then show ?thesis
    using cleanup_inv [of am now] by (simp add: fifo_def delivered_def pending_def cleanupOldAlerts_def Let_def)
qed

lemma fifo_trans: "fifo h am am' \<Longrightarrow> fifo h am' am'' \<Longrightarrow> fifo h am am''"
  unfolding fifo_def by (metis append.assoc)

interpretation delivery: steps_related am_step "fifo h" for h
  by unfold_locales (simp add: fifo_def, fact fifo_trans, fact fifo_step)


section \<open>Threshold checks\<close>

text \<open>A check of one metric: at most the alert of its own type is added.\<close>

definition raises :: "(string \<Rightarrow> int \<times> int) \<Rightarrow> string \<Rightarrow> bool \<Rightarrow> 'h AlertManager \<Rightarrow> 'h AlertManager \<Rightarrow> bool" where
  "raises clk name b am am' \<longleftrightarrow> (am_inv am \<longrightarrow> am_inv am' \<and> am_thresholds am' = am_thresholds am \<and>
     (\<forall>k. k \<noteq> alert_id name (fst (clk name)) \<longrightarrow> am_lookup am' k = am_lookup am k) \<and>
     (am_lookup am' (alert_id name (fst (clk name))) \<noteq> None \<longleftrightarrow>
        b \<or> am_lookup am (alert_id name (fst (clk name))) \<noteq> None))"

definition above :: "(string, float64) gomap \<Rightarrow> string \<Rightarrow> float64 \<Rightarrow> bool" where
  "above metrics name th \<longleftrightarrow> (\<exists>v. map_get metrics name = Some v \<and> f_less th v)"

definition below :: "(string, float64) gomap \<Rightarrow> string \<Rightarrow> float64 \<Rightarrow> bool" where
  "below metrics name th \<longleftrightarrow> (\<exists>v. map_get metrics name = Some v \<and> f_less v th)"

lemma raises_create:
  "raises clk name True am (snd (CreateAlert (fst (clk name)) t name sev msg src md tags am))"
proof -
  have "am_thresholds (snd (CreateAlert (fst (clk name)) t name sev msg src md tags am)) = am_thresholds am"
    by (simp add: CreateAlert_def Let_def)
  then show ?thesis
    unfolding raises_def using CreateAlert_inv am.create_new am.create_old by fastforce
qed

lemma raises_none: "raises clk name False am am"
  by (simp add: raises_def)

lemma checks_raise:
  "raises clk name (above metrics name th) am (check_rate clk metrics name sev title th tags am)"
  "raises clk ''response_time'' (above metrics ''response_time'' (f_of_int (at_ResponseTime (am_thresholds am)))) am
     (check_response_time clk metrics am)"
  "raises clk ''uptime'' (below metrics ''uptime'' (at_Uptime (am_thresholds am))) am (check_uptime clk metrics am)"
  by (auto simp: check_rate_def check_response_time_def check_uptime_def above_def below_def
      raises_create raises_none split: option.split)

lemma raises_at:
  assumes "am_inv am" and "raises clk n b am am'"
  shows "am_inv am'" and "am_thresholds am' = am_thresholds am"
    and "am_lookup am' (alert_id name (fst (clk name))) \<noteq> None \<longleftrightarrow>
       name = n \<and> b \<or> am_lookup am (alert_id name (fst (clk name))) \<noteq> None"
    and "\<forall>name. k \<noteq> alert_id name (fst (clk name)) \<Longrightarrow> am_lookup am' k = am_lookup am k"
proof -
  show "am_lookup am' (alert_id name (fst (clk name))) \<noteq> None \<longleftrightarrow>
       name = n \<and> b \<or> am_lookup am (alert_id name (fst (clk name))) \<noteq> None"
    using assms by (cases "name = n") (simp_all add: raises_def alert_id_inject)
qed (use assms in \<open>auto simp: raises_def\<close>)

definition exceeded :: "AlertThresholds \<Rightarrow> (string, float64) gomap \<Rightarrow> string \<Rightarrow> bool" where
  "exceeded th metrics name \<longleftrightarrow>
     name = ''price_deviation'' \<and> above metrics name (at_PriceDeviation th) \<or>
     name = ''liquidity_imbalance'' \<and> above metrics name (at_LiquidityImbalance th) \<or>
     name = ''response_time'' \<and> above metrics name (f_of_int (at_ResponseTime th)) \<or>
     name = ''error_rate'' \<and> above metrics name (at_ErrorRate th) \<or>
     name = ''uptime'' \<and> below metrics name (at_Uptime th) \<or>
     name = ''memory_usage'' \<and> above metrics name (at_MemoryUsage th) \<or>
     name = ''cpu_usage'' \<and> above metrics name (at_CPUUsage th)"

text \<open>C25: A check of the thresholds creates one alert for exactly those of the seven metrics that are
  reported and on the wrong side of their threshold (below for the uptime, above for the rest;
  a NaN is on neither), provided the identifiers of the moment are unused, and touches no other
  alert.\<close>

theorem CheckThresholds_exact:
  assumes "am_inv am" and "\<forall>name. am_lookup am (alert_id name (fst (clk name))) = None"
  shows "am_inv (CheckThresholds clk metrics am) \<and>
     (\<forall>name. am_lookup (CheckThresholds clk metrics am) (alert_id name (fst (clk name))) \<noteq> None \<longleftrightarrow>
        exceeded (am_thresholds am) metrics name) \<and>
     (\<forall>k. (\<forall>name. k \<noteq> alert_id name (fst (clk name))) \<longrightarrow>
        am_lookup (CheckThresholds clk metrics am) k = am_lookup am k)"
proof -
  let ?th = "am_thresholds am"
  define a1 where "a1 = check_rate clk metrics ''price_deviation'' ''high'' ''Price deviation'' (at_PriceDeviation ?th) [''price'', ''deviation''] am"
  define a2 where "a2 = check_rate clk metrics ''liquidity_imbalance'' ''high'' ''Liquidity imbalance'' (at_LiquidityImbalance ?th) [''liquidity'', ''imbalance''] a1"
  define a3 where "a3 = check_response_time clk metrics a2"
  define a4 where "a4 = check_rate clk metrics ''error_rate'' ''high'' ''Error rate'' (at_ErrorRate ?th) [''error'', ''rate''] a3"
  define a5 where "a5 = check_uptime clk metrics a4"
  define a6 where "a6 = check_rate clk metrics ''memory_usage'' ''medium'' ''Memory usage'' (at_MemoryUsage ?th) [''memory'', ''usage''] a5"
  define a7 where "a7 = check_rate clk metrics ''cpu_usage'' ''medium'' ''CPU usage'' (at_CPUUsage ?th) [''cpu'', ''usage''] a6"
  have a7: "CheckThresholds clk metrics am = a7"
    by (simp add: CheckThresholds_def Let_def a1_def a2_def a3_def a4_def a5_def a6_def a7_def)
  have h1: "raises clk ''price_deviation'' (above metrics ''price_deviation'' (at_PriceDeviation ?th)) am a1"
    unfolding a1_def by (rule checks_raise)
  note R1 = raises_at [OF assms(1) h1]
  have h2: "raises clk ''liquidity_imbalance'' (above metrics ''liquidity_imbalance'' (at_LiquidityImbalance ?th)) a1 a2"
    unfolding a2_def by (rule checks_raise)
  note R2 = raises_at [OF R1(1) h2]
  have h3: "raises clk ''response_time'' (above metrics ''response_time'' (f_of_int (at_ResponseTime ?th))) a2 a3"
    unfolding a3_def using checks_raise(2) [of clk metrics a2] by (simp add: R2(2) R1(2))
  note R3 = raises_at [OF R2(1) h3]
  have h4: "raises clk ''error_rate'' (above metrics ''error_rate'' (at_ErrorRate ?th)) a3 a4"
    unfolding a4_def by (rule checks_raise)
  note R4 = raises_at [OF R3(1) h4]
  have h5: "raises clk ''uptime'' (below metrics ''uptime'' (at_Uptime ?th)) a4 a5"
    unfolding a5_def using checks_raise(3) [of clk metrics a4] by (simp add: R4(2) R3(2) R2(2) R1(2))
  note R5 = raises_at [OF R4(1) h5]
  have h6: "raises clk ''memory_usage'' (above metrics ''memory_usage'' (at_MemoryUsage ?th)) a5 a6"
    unfolding a6_def by (rule checks_raise)
  note R6 = raises_at [OF R5(1) h6]
  have h7: "raises clk ''cpu_usage'' (above metrics ''cpu_usage'' (at_CPUUsage ?th)) a6 a7"
    unfolding a7_def by (rule checks_raise)
  note R7 = raises_at [OF R6(1) h7]
  have "am_lookup a7 (alert_id name (fst (clk name))) \<noteq> None \<longleftrightarrow> exceeded ?th metrics name" for name
    unfolding exceeded_def R7(3) R6(3) R5(3) R4(3) R3(3) R2(3) R1(3) using assms(2) by auto
  moreover have "am_lookup a7 k = am_lookup am k" if "\<forall>name. k \<noteq> alert_id name (fst (clk name))" for k
    using R7(4) [OF that] R6(4) [OF that] R5(4) [OF that] R4(4) [OF that] R3(4) [OF that] R2(4) [OF that] R1(4) [OF that]
    by simp
  ultimately show ?thesis unfolding a7 using R7(1) by blast
qed

section \<open>Witnesses\<close>

definition ex_manager :: "nat AlertManager" where
  "ex_manager = AddHandler 1 (AddHandler 0 (NewAlertManager GetDefaultThresholds))"

definition ex_raised :: "nat AlertManager" where
  "ex_raised = snd (CreateAlert 5 7 ''uptime'' ''critical'' ''down'' ''monitoring'' [] [] ex_manager)"

lemma ex_manager_facts [simp]: "am_inv ex_manager" "am_lookup ex_manager k = None" "am_handlers ex_manager = [0, 1]"
  "am_thresholds ex_manager = GetDefaultThresholds"
  by (simp_all add: ex_manager_def AddHandler_def NewAlertManager_def am_inv_def)

lemma ex_raised_inv: "am_inv ex_raised"
  unfolding ex_raised_def by (rule CreateAlert_inv) simp

lemma ex_raised_lookup: "\<exists>a. am_lookup ex_raised (alert_id ''uptime'' 5) = Some a \<and> al_Severity a = ''critical'' \<and> \<not> al_Resolved a"
  unfolding ex_raised_def using am.create_new [of ex_manager] by (metis ex_manager_facts(1))

lemma ex_run_create: "run am_step am [Created 5 7 ''uptime'' ''critical'' ''down'' ''monitoring'' [] []]
    (snd (CreateAlert 5 7 ''uptime'' ''critical'' ''down'' ''monitoring'' [] [] am))"
  by (auto simp: run_Cons_iff intro: am_step.create)

theorem alert_manager_invariant_witness:
  "map_ok (index (am_alerts (snd (CreateAlert 5 7 ''uptime'' ''critical'' ''down'' ''monitoring'' [] []
     (NewAlertManager GetDefaultThresholds :: nat AlertManager)))))"
  using alert_manager_invariant [OF ex_run_create] by blast

theorem alert_lifecycle_witness:
  "\<exists>am1 am2 a. CreateAlert 5 7 ''uptime'' ''critical'' ''down'' ''monitoring'' [] [] ex_manager = (alert_id ''uptime'' 5, am1) \<and>
     a \<in> set (GetActiveAlerts am1) \<and> ResolveAlert 9 (alert_id ''uptime'' 5) am1 = (am2, None)"
proof -
  let ?i = "alert_id ''uptime'' 5"
  have c: "CreateAlert 5 7 ''uptime'' ''critical'' ''down'' ''monitoring'' [] [] ex_manager = (?i, ex_raised)"
    by (simp add: ex_raised_def CreateAlert_def Let_def)
  obtain am2 err where r: "ResolveAlert 9 ?i ex_raised = (am2, err)" by (cases "ResolveAlert 9 ?i ex_raised")
  from alert_lifecycle [OF ex_manager_facts(1) c r] c r show ?thesis by blast
qed

theorem cleanupOldAlerts_exact_witness:
  "am_lookup (cleanupOldAlerts 604807 ex_raised) (alert_id ''uptime'' 5) \<noteq> None"
  using cleanupOldAlerts_exact [OF ex_raised_inv, of 604807 "alert_id ''uptime'' 5"] ex_raised_lookup by auto

theorem GetAlerts_limit_witness:
  "int (length (GetAlerts ''critical'' False 3 ex_raised)) = min 3 (int (length (GetAlerts ''critical'' False 0 ex_raised)))"
  using GetAlerts_limit [OF ex_raised_inv, of "''critical''" False 3] by simp


theorem CheckThresholds_exact_witness:
  "am_lookup (CheckThresholds (\<lambda>_. (5, 7)) [(''response_time'', Fin 31), (''cpu_usage'', NaN)] ex_manager)
       (alert_id ''response_time'' 5) \<noteq> None \<and>
   am_lookup (CheckThresholds (\<lambda>_. (5, 7)) [(''response_time'', Fin 31), (''cpu_usage'', NaN)] ex_manager)
       (alert_id ''cpu_usage'' 5) = None"
proof -
  let ?m = "[(''response_time'', Fin 31), (''cpu_usage'', NaN)]"
  have "\<not> f_less x NaN" for x by (cases x) simp_all
  then have "exceeded GetDefaultThresholds ?m ''response_time''" "\<not> exceeded GetDefaultThresholds ?m ''cpu_usage''"
    by (simp_all add: exceeded_def above_def go_eval GetDefaultThresholds_def f_of_int_exact)
  with CheckThresholds_exact [of ex_manager "\<lambda>_. (5, 7)" ?m] show ?thesis by fastforce
qed

end
