(* ===== verification/Alert_Stats.thy ===== *)
theory Alert_Stats
  imports Alert_Manager
begin

text \<open>
  \<open>GetAlertStats\<close> of \<^verbatim>\<open>pkg/monitoring/alerts.go\<close>. The statistics are a \<open>map[string]interface{}\<close>: the
  type of an entry is known only at run time, and every increment asserts that it is an \<open>int\<close>. The
  assertion is a panic of the model; the typing of the map, which every increment keeps, shows that
  it is never reached. A map has fewer than \<open>2 ^ 63\<close> entries, so the counts are unbounded integers.
\<close>

section \<open>Operations\<close>

text \<open>\<open>v.(int)\<close> on what a lookup in a \<open>map[string]interface{}\<close> returns, \<open>nil\<close> for a missing key.\<close>

fun assert_int :: "iface option \<Rightarrow> int go" where
  "assert_int (Some (IInt n)) = Inr n"
| "assert_int (Some (IFloat x)) = Inl (Explicit ''interface conversion: interface {} is float64, not int'')"
| "assert_int (Some (IString s)) = Inl (Explicit ''interface conversion: interface {} is string, not int'')"
| "assert_int None = Inl (Explicit ''interface conversion: interface {} is nil, not int'')"

text \<open>\<open>stats[k] = stats[k].(int) + 1\<close>.\<close>

definition stat_incr :: "string \<Rightarrow> (string, iface) gomap \<Rightarrow> (string, iface) gomap go" where
  "stat_incr k stats = go_bind (assert_int (map_get stats k)) (\<lambda>n. Inr (map_put k (IInt (n + 1)) stats))"

definition stats_alert :: "(string, iface) gomap \<Rightarrow> Alert \<Rightarrow> (string, iface) gomap go" where
  "stats_alert stats alert =
     go_bind (stat_incr ''total'' stats) (\<lambda>stats.
     go_bind (if al_Resolved alert then stat_incr ''resolved'' stats else stat_incr ''active'' stats) (\<lambda>stats.
       if al_Severity alert = ''critical'' then stat_incr ''critical'' stats
       else if al_Severity alert = ''high'' then stat_incr ''high'' stats
       else if al_Severity alert = ''medium'' then stat_incr ''medium'' stats
       else if al_Severity alert = ''low'' then stat_incr ''low'' stats
       else Inr stats))"

definition GetAlertStats :: "'h AlertManager \<Rightarrow> (string, iface) gomap go" where
  "GetAlertStats am = for_range stats_alert
       [(''total'', IInt 0), (''active'', IInt 0), (''resolved'', IInt 0), (''critical'', IInt 0),
        (''high'', IInt 0), (''medium'', IInt 0), (''low'', IInt 0)]
       (store_alerts (am_alerts am))"

section \<open>Typing\<close>

text \<open>The statistics have exactly their seven keys, each with an \<open>int\<close>.\<close>

definition stat_keys :: "string list" where
  "stat_keys = [''total'', ''active'', ''resolved'', ''critical'', ''high'', ''medium'', ''low'']"

definition is_int :: "iface \<Rightarrow> bool" where
  "is_int v = (case v of IInt n \<Rightarrow> True | _ \<Rightarrow> False)"

definition stats_typed :: "(string, iface) gomap \<Rightarrow> bool" where
  "stats_typed m \<longleftrightarrow> map_ok m \<and> set (map_keys m) = set stat_keys \<and> list_all is_int (map_vals m)"

text \<open>What an entry counts; progress and preservation of an increment.\<close>

definition stat_of :: "(string, iface) gomap \<Rightarrow> string \<Rightarrow> int" where
  "stat_of m k = (case map_get m k of Some (IInt n) \<Rightarrow> n | _ \<Rightarrow> 0)"

lemma stats_typed_get:
  "stats_typed m \<Longrightarrow> map_get m k = (if k \<in> set stat_keys then Some (IInt (stat_of m k)) else None)"
proof -
  assume typed: "stats_typed m"
  have keys: "map_get m k \<noteq> None \<longleftrightarrow> k \<in> set stat_keys"
    using typed by (simp add: stats_typed_def map_get_def map_keys_def map_of_eq_None_iff)
  have "is_int v" if "map_get m k = Some v" for v
    using typed map_get_in_vals [OF that] by (simp add: stats_typed_def list_all_iff)
  with keys show ?thesis by (auto simp: stat_of_def is_int_def split: option.splits iface.splits)
qed

lemma stats_typed_put: "stats_typed m \<Longrightarrow> k \<in> set stat_keys \<Longrightarrow> stats_typed (map_put k (IInt n) m)"
  using gm.vals_put_all [of m is_int "IInt n" k] gm.ok_put [of m k "IInt n"]
  by (auto simp: stats_typed_def list_all_iff is_int_def [of "IInt n"] map_keys_def map_put_def dom_update)

lemma stat_of_put: "stat_of (map_put k (IInt n) m) j = (if j = k then n else stat_of m j)"
  by (simp add: stat_of_def)

lemma stat_incr_typed:
  assumes "stats_typed m" and "k \<in> set stat_keys"
  shows "stat_incr k m = Inr (map_put k (IInt (stat_of m k + 1)) m)"
    and "stats_typed (map_put k (IInt (stat_of m k + 1)) m)"
  using assms by (simp_all add: stat_incr_def stats_typed_get stats_typed_put)

lemma stat_keys_mem [simp]:
  "''total'' \<in> set stat_keys" "''active'' \<in> set stat_keys" "''resolved'' \<in> set stat_keys"
  "''critical'' \<in> set stat_keys" "''high'' \<in> set stat_keys" "''medium'' \<in> set stat_keys" "''low'' \<in> set stat_keys"
  by (simp_all add: stat_keys_def)

text \<open>What the entry under a key counts.\<close>

definition stat_count :: "string \<Rightarrow> Alert \<Rightarrow> bool" where
  "stat_count k a \<longleftrightarrow> k = ''total'' \<or> k = ''resolved'' \<and> al_Resolved a \<or> k = ''active'' \<and> \<not> al_Resolved a \<or>
     k \<in> {''critical'', ''high'', ''medium'', ''low''} \<and> al_Severity a = k"

lemma stats_alert_typed:
  assumes "stats_typed m"
  shows "\<exists>m'. stats_alert m a = Inr m' \<and> stats_typed m' \<and>
     (\<forall>k. stat_of m' k = stat_of m k + (if stat_count k a then 1 else 0))"
proof -
  let ?r = "if al_Resolved a then ''resolved'' else ''active''"
  have r: "?r \<in> set stat_keys" "?r \<noteq> ''total''" by simp_all
  define m1 where "m1 = map_put ''total'' (IInt (stat_of m ''total'' + 1)) m"
  define m2 where "m2 = map_put ?r (IInt (stat_of m1 ?r + 1)) m1"
  have m1: "stat_incr ''total'' m = Inr m1" "stats_typed m1"
    unfolding m1_def using stat_incr_typed [OF assms, of "''total''"] by simp_all
  have m2: "stat_incr ?r m1 = Inr m2" "stats_typed m2"
    unfolding m2_def by (rule stat_incr_typed [OF m1(2) r(1)])+
  have m2': "(if al_Resolved a then stat_incr ''resolved'' m1 else stat_incr ''active'' m1) = Inr m2"
    using m2(1) by (simp split: if_splits)
  have of2: "stat_of m2 k = stat_of m k + (if k = ''total'' \<or> k = ?r then 1 else 0)" for k
    by (simp add: m2_def m1_def stat_of_put)
  show ?thesis
  proof (cases "al_Severity a \<in> {''critical'', ''high'', ''medium'', ''low''}")
    case True
    then have "al_Severity a \<in> set stat_keys" by auto
    note m3 = stat_incr_typed [OF m2(2) this]
    have "stats_alert m a = stat_incr (al_Severity a) m2" using True by (auto simp: stats_alert_def m1(1) m2')
    with m3 True show ?thesis by (auto simp: stat_of_put of2 stat_count_def)
  next
    case False
    then have "stats_alert m a = Inr m2" by (simp add: stats_alert_def m1(1) m2')
    with m2(2) False show ?thesis by (auto simp: of2 stat_count_def)
  qed
qed

lemma stats_loop:
  "stats_typed m \<Longrightarrow> \<exists>m'. for_range stats_alert m xs = Inr m' \<and> stats_typed m' \<and>
     (\<forall>k. stat_of m' k = stat_of m k + int (length (filter (stat_count k) xs)))"
proof (induction xs arbitrary: m)
  case (Cons a xs)
  obtain m1 where m1: "stats_alert m a = Inr m1" "stats_typed m1"
    "\<forall>k. stat_of m1 k = stat_of m k + (if stat_count k a then 1 else 0)"
    using stats_alert_typed [OF Cons.prems] by blast
  obtain m2 where m2: "for_range stats_alert m1 xs = Inr m2" "stats_typed m2"
    "\<forall>k. stat_of m2 k = stat_of m1 k + int (length (filter (stat_count k) xs))" using Cons.IH [OF m1(2)] by blast
  have "stat_of m2 k = stat_of m k + int (length (filter (stat_count k) (a # xs)))" for k
    using m1(3) m2(3) by simp
  with m1(1) m2(1,2) show ?case by simp
qed simp

text \<open>C16: The type assertions of the statistics never fail. The map starts with its seven keys bound to
  an \<open>int\<close>, an alert of any content turns a map of that type into one of that type, and so the
  result has exactly these keys, each with an \<open>int\<close>: the number of the alerts, of the active and the
  resolved ones, which add up to it, and of those of each severity. An assertion would fail on a
  map that lacks the key or has something else there.\<close>

theorem GetAlertStats_typed:
  "\<exists>stats. GetAlertStats am = Inr stats \<and> stats_typed stats \<and>
     (stats_typed m \<longrightarrow> (\<exists>m'. stats_alert m a = Inr m' \<and> stats_typed m')) \<and>
     ((\<forall>n. map_get m' ''total'' \<noteq> Some (IInt n)) \<longrightarrow> isl (stats_alert m' a)) \<and>
     map_get stats ''total'' = Some (IInt (int (length (store_alerts (am_alerts am))))) \<and>
     map_get stats ''active'' = Some (IInt (int (length (filter (\<lambda>a. \<not> al_Resolved a) (store_alerts (am_alerts am)))))) \<and>
     map_get stats ''resolved'' = Some (IInt (int (length (filter al_Resolved (store_alerts (am_alerts am)))))) \<and>
     stat_of stats ''active'' + stat_of stats ''resolved'' = stat_of stats ''total'' \<and>
     (\<forall>sev \<in> {''critical'', ''high'', ''medium'', ''low''}.
        map_get stats sev = Some (IInt (int (length (filter (\<lambda>a. al_Severity a = sev) (store_alerts (am_alerts am)))))))"
proof -
  let ?m = "[(''total'', IInt 0), (''active'', IInt 0), (''resolved'', IInt 0), (''critical'', IInt 0),
        (''high'', IInt 0), (''medium'', IInt 0), (''low'', IInt 0)]"
  let ?xs = "store_alerts (am_alerts am)"
  have "stats_typed ?m" by (auto simp: stats_typed_def map_ok_def map_keys_def map_vals_def stat_keys_def is_int_def)
  from stats_loop [OF this, of ?xs] obtain stats where
    stats: "GetAlertStats am = Inr stats" "stats_typed stats"
    and cnt: "\<forall>k. stat_of stats k = stat_of ?m k + int (length (filter (stat_count k) ?xs))"
    unfolding GetAlertStats_def by blast
  have zero: "stat_of ?m k = 0" for k by (simp add: stat_of_def map_get_def)
  have get: "map_get stats k = Some (IInt (int (length (filter P ?xs))))"
    if "k \<in> set stat_keys" "stat_count k = P" for k P
    using stats_typed_get [OF stats(2), of k] that cnt zero by simp
  have P: "stat_count ''total'' = (\<lambda>a. True)" "stat_count ''active'' = (\<lambda>a. \<not> al_Resolved a)"
    "stat_count ''resolved'' = al_Resolved" by (auto simp: stat_count_def fun_eq_iff)
  have sev: "stat_count k = (\<lambda>a. al_Severity a = k)" if "k \<in> {''critical'', ''high'', ''medium'', ''low''}" for k
    using that by (auto simp: stat_count_def fun_eq_iff)
  have fail: "isl (stats_alert m' a)" if "\<forall>n. map_get m' ''total'' \<noteq> Some (IInt n)"
    using that by (cases "map_get m' ''total''" rule: assert_int.cases)
      (simp_all add: stats_alert_def stat_incr_def)
  have sum: "stat_of stats ''active'' + stat_of stats ''resolved'' = stat_of stats ''total''"
    using sum_length_filter_compl [of al_Resolved ?xs] by (simp add: cnt zero P)
  show ?thesis
    using stats stats_alert_typed [of m a] fail sum get [OF _ P(1)] get [OF _ P(2)] get [OF _ P(3)] get [OF _ sev] by auto
qed

theorem GetAlertStats_typed_witness:
  "(\<exists>stats. GetAlertStats ex_raised = Inr stats \<and> map_get stats ''total'' = Some (IInt 1) \<and>
     map_get stats ''high'' = Some (IInt 0)) \<and> isl (stats_alert [(''total'', IFloat NaN)] (hd (store_alerts (am_alerts ex_raised))))"
proof -
  let ?xs = "store_alerts (am_alerts ex_raised)"
  have "length ?xs = 1" "filter (\<lambda>a. al_Severity a = ''high'') ?xs = []"
    by (simp_all add: ex_raised_def CreateAlert_def Let_def ex_manager_def AddHandler_def NewAlertManager_def
      empty_store_def store_alerts_def store_put_def go_eval map_vals_def)
  then show ?thesis
    using GetAlertStats_typed [of ex_raised "[]" "hd ?xs" "[(''total'', IFloat NaN)]"] by (auto simp: map_get_def)
qed

end
