(* ===== verification/Go_Time.thy ===== *)
theory Go_Time
  imports Go_Float
begin

text \<open>
  The part of package \<open>time\<close> the AVS uses. A \<open>time.Time\<close> is its distance from the Unix epoch in
  nanoseconds, a \<open>time.Duration\<close> its number of nanoseconds.
\<close>

type_synonym gotime = int

text \<open>The zero \<open>time.Time\<close>, 1 January of year 1, in nanoseconds relative to the Unix epoch.\<close>

definition zero_time :: gotime where
  "zero_time = - 62135596800 * 10 ^ 9"

text \<open>\<open>time.Time.Sub\<close> saturates at the ends of \<open>int64\<close>; \<open>Duration.Seconds\<close> adds the float of the
  whole seconds and the rounded fraction. Quotient and remainder truncate towards zero.\<close>

definition time_Sub :: "gotime \<Rightarrow> gotime \<Rightarrow> int" where
  "time_Sub t u = max (- (2 ^ 63)) (min (2 ^ 63 - 1) (t - u))"

definition quot :: "int \<Rightarrow> int \<Rightarrow> int" where
  "quot a b = sgn a * (\<bar>a\<bar> div b)"

definition Seconds :: "int \<Rightarrow> float64" where
  "Seconds d = (let sec = quot d (10 ^ 9); nsec = d - sec * 10 ^ 9 in
     f_add (f_of_int sec) (f_div (f_of_int nsec) (f_lit (10 ^ 9))))"

text \<open>\<open>time.Duration(n) * time.Second\<close> wraps as \<open>int64\<close>; \<open>time.NewTicker\<close> panics unless positive.\<close>

definition NewTicker :: "int \<Rightarrow> unit go" where
  "NewTicker d = (if d \<le> 0 then Inl (Explicit ''non-positive interval for NewTicker'') else Inr ())"

definition seconds :: "int \<Rightarrow> int" where
  "seconds n = big_Int64 (n * 10 ^ 9)"

text \<open>The age in seconds as a float, against a whole number of seconds.\<close>

lemma Seconds_cmp:
  assumes "0 \<le> d" "d < 2 ^ 63" and "0 \<le> m" "m < 2 ^ 53"
  shows "d \<le> m * 10 ^ 9 \<Longrightarrow> \<not> f_less (f_of_int m) (Seconds d)"
    and "(m + 1) * 10 ^ 9 \<le> d \<Longrightarrow> f_less (f_of_int m) (Seconds d)"
proof -
  define s where "s = d div 10 ^ 9"
  define q where "q = (of_int (d mod 10 ^ 9) / 10 ^ 9 :: rat)"
  have s: "0 \<le> s" "s < 2 ^ 34" using assms(1,2) by (simp_all add: s_def)
  have quot: "quot d (10 ^ 9) = s" using assms(1) by (simp add: quot_def s_def sgn_if)
  have "d - s * 10 ^ 9 = d mod 10 ^ 9" by (simp add: s_def minus_div_mult_eq_mod)
  moreover have lit: "f_lit (10 ^ 9) = Fin (10 ^ 9)" using f_lit_int [of "10 ^ 9"] by simp
  moreover have q: "0 \<le> q" "q \<le> 1"
    unfolding q_def using pos_mod_bound [of "10 ^ 9" d] by (simp_all add: divide_le_eq)
  ultimately have frac: "f_div (f_of_int (d - s * 10 ^ 9)) (f_lit (10 ^ 9)) = Fin (rnd q)"
    using round64_unit [OF q] by (simp add: f_of_int_exact f_div_def q_def)
  let ?x = "of_int s + rnd q"
  have r: "0 \<le> rnd q" "rnd q \<le> 1" using round64_unit [OF q] by auto
  have "of_int s \<le> (of_int (2 ^ 34) :: rat)" using s by (simp only: of_int_le_iff)
  then have x: "0 \<le> ?x" "?x \<le> 2 ^ 35" using r s by simp_all
  then have sec: "Seconds d = Fin (rnd ?x)"
    using round64_nonneg [of ?x 35] s unfolding Seconds_def Let_def quot frac
    by (simp add: f_of_int_exact f_add_def)
  have m: "f_of_int m = Fin (of_int m)" "rnd (of_int m) = of_int m"
    using assms(3,4) by (simp_all add: f_of_int_exact rnd_int)
  show "\<not> f_less (f_of_int m) (Seconds d)" if d: "d \<le> m * 10 ^ 9"
  proof -
    have "?x \<le> of_int m"
    proof (cases "s < m")
      case True
      then have "(of_int (s + 1) :: rat) \<le> of_int m" by (simp only: of_int_le_iff)
      with r show ?thesis by simp
    next
      case False
      define w where "w = d mod 10 ^ 9"
      have "d = s * 10 ^ 9 + w" "0 \<le> w" by (simp_all add: s_def w_def)
      with False d have "s = m" "w = 0" by auto
      then show ?thesis by (simp add: q_def w_def)
    qed
    from rnd_mono [OF x(1) this] m show ?thesis by (simp add: sec)
  qed
  show "f_less (f_of_int m) (Seconds d)" if d: "(m + 1) * 10 ^ 9 \<le> d"
  proof -
    have "m + 1 \<le> s" using d unfolding s_def by simp
    then have "of_int (m + 1) \<le> (of_int s :: rat)" by (simp only: of_int_le_iff)
    then have "of_int (m + 1) \<le> ?x" using r by simp
    from rnd_mono [OF _ this] have "rnd (of_int (m + 1)) \<le> rnd ?x" using assms(3) by simp
    moreover have "\<bar>m + 1\<bar> < 2 ^ 53" using \<open>m + 1 \<le> s\<close> s assms(3) by simp
    ultimately show ?thesis using rnd_int [of "m + 1"] by (simp add: sec m)
  qed
qed

end
