(* ===== verification/Health_Monitor.thy ===== *)
theory Health_Monitor
  imports Alert_Store Go_Time
begin

text \<open>
  The monitor of \<^verbatim>\<open>pkg/monitoring/monitor.go\<close>: Prometheus gauges, counters and a histogram, a
  performance tracker, and its own map of alerts, which it expires after a day. A counter is the
  number of its increments, a gauge its last value, the histogram the list of its observations.
  The tracker's fields are written without a lock; the model takes each method as one step.
\<close>

section \<open>Data\<close>

record PerformanceTracker =
  pt_StateUpdates :: int
  pt_RebalancingOps :: int
  pt_SuccessfulOps :: int
  pt_FailedOps :: int
  pt_AverageLatency :: float64
  pt_Uptime :: float64
  pt_LastUpdate :: gotime

record Monitor =
  mo_poolStatesTotal :: float64
  mo_rebalancingRequests :: nat
  mo_rebalancingSuccess :: nat
  mo_rebalancingFailures :: nat
  mo_stateUpdateLatency :: "float64 list"
  mo_operatorUptime :: float64
  mo_alerts :: AlertMap
  mo_performance :: PerformanceTracker

record MetricsConfig =
  mxc_EnableMetrics :: bool
  mxc_Port :: string
  mxc_Path :: string

definition NewMonitor :: Monitor where
  "NewMonitor = \<lparr>mo_poolStatesTotal = f_lit 0, mo_rebalancingRequests = 0, mo_rebalancingSuccess = 0,
     mo_rebalancingFailures = 0, mo_stateUpdateLatency = [], mo_operatorUptime = f_lit 0, mo_alerts = empty_store,
     mo_performance = \<lparr>pt_StateUpdates = 0, pt_RebalancingOps = 0, pt_SuccessfulOps = 0, pt_FailedOps = 0,
       pt_AverageLatency = f_lit 0, pt_Uptime = f_lit 0, pt_LastUpdate = zero_time\<rparr>\<rparr>"

section \<open>Operations\<close>

text \<open>\<open>x++\<close> on an \<open>int64\<close>, and \<open>String\<close> of a possibly nil \<open>*big.Int\<close>.\<close>

definition int64_inc :: "int \<Rightarrow> int" where
  "int64_inc x = big_Int64 (x + 1)"

definition bigptr_String :: "bigptr \<Rightarrow> string" where
  "bigptr_String p = (case p of None \<Rightarrow> ''<nil>'' | Some n \<Rightarrow> big_String n)"

definition RecordStateUpdate :: "gotime \<Rightarrow> int \<Rightarrow> Monitor \<Rightarrow> Monitor" where
  "RecordStateUpdate now latency m =
     m\<lparr>mo_stateUpdateLatency := mo_stateUpdateLatency m @ [Seconds latency],
       mo_performance := (mo_performance m)\<lparr>pt_StateUpdates := int64_inc (pt_StateUpdates (mo_performance m)),
         pt_LastUpdate := now\<rparr>\<rparr>"

definition RecordRebalancingRequest :: "Monitor \<Rightarrow> Monitor" where
  "RecordRebalancingRequest m =
     m\<lparr>mo_rebalancingRequests := mo_rebalancingRequests m + 1,
       mo_performance := (mo_performance m)\<lparr>pt_RebalancingOps := int64_inc (pt_RebalancingOps (mo_performance m))\<rparr>\<rparr>"

definition RecordRebalancingSuccess :: "Monitor \<Rightarrow> Monitor" where
  "RecordRebalancingSuccess m =
     m\<lparr>mo_rebalancingSuccess := mo_rebalancingSuccess m + 1,
       mo_performance := (mo_performance m)\<lparr>pt_SuccessfulOps := int64_inc (pt_SuccessfulOps (mo_performance m))\<rparr>\<rparr>"

definition UpdatePoolStatesCount :: "int \<Rightarrow> Monitor \<Rightarrow> Monitor" where
  "UpdatePoolStatesCount n m = m\<lparr>mo_poolStatesTotal := f_of_int n\<rparr>"

definition monitor_CreateAlert ::
  "int \<Rightarrow> int \<Rightarrow> string \<Rightarrow> string \<Rightarrow> string \<Rightarrow> (string, iface) gomap \<Rightarrow> Monitor \<Rightarrow> string \<times> Monitor" where
  "monitor_CreateAlert nanos now alertType severity message metadata m =
     (let alertID = alert_id alertType nanos;
          alert = \<lparr>al_ID = alertID, al_Type = alertType, al_Severity = severity, al_Message = message,
                   al_Timestamp = uint64 now, al_Resolved = False, al_ResolvedAt = 0,
                   al_Metadata = metadata, al_Source = [], al_Tags = []\<rparr>
      in (alertID, m\<lparr>mo_alerts := store_put alertID alert (mo_alerts m)\<rparr>))"

definition RecordRebalancingFailure ::
  "int \<Rightarrow> int \<Rightarrow> string \<Rightarrow> bigptr \<Rightarrow> string \<Rightarrow> Monitor \<Rightarrow> Monitor" where
  "RecordRebalancingFailure nanos now poolID amount err m =
     snd (monitor_CreateAlert nanos now ''rebalancing_failure'' ''high''
       (''Rebalancing failed for pool '' @ poolID @ '': '' @ err)
       [(''poolID'', IString poolID), (''amount'', IString (bigptr_String amount)), (''error'', IString err)]
       (m\<lparr>mo_rebalancingFailures := mo_rebalancingFailures m + 1,
          mo_performance := (mo_performance m)\<lparr>pt_FailedOps := int64_inc (pt_FailedOps (mo_performance m))\<rparr>\<rparr>))"

definition monitor_ResolveAlert :: "int \<Rightarrow> string \<Rightarrow> Monitor \<Rightarrow> Monitor \<times> error option" where
  "monitor_ResolveAlert now alertID m =
     (case map_get (index (mo_alerts m)) alertID of
        None \<Rightarrow> (m, Some (''alert not found: '' @ alertID))
      | Some p \<Rightarrow>
         let alert = heap (mo_alerts m) ! p in
         (m\<lparr>mo_alerts := store_write p (alert\<lparr>al_Resolved := True, al_ResolvedAt := uint64 now\<rparr>) (mo_alerts m)\<rparr>, None))"

definition monitor_GetAlerts :: "string \<Rightarrow> bool \<Rightarrow> Monitor \<Rightarrow> Alert list" where
  "monitor_GetAlerts severity resolved m =
     fold (\<lambda>alert filtered.
         if severity \<noteq> [] \<and> al_Severity alert \<noteq> severity then filtered
         else if al_Resolved alert \<noteq> resolved then filtered
         else filtered @ [alert]) (store_alerts (mo_alerts m)) []"

definition GetPerformanceMetrics :: "Monitor \<Rightarrow> PerformanceTracker" where
  "GetPerformanceMetrics m = mo_performance m"

text \<open>The bodies of the three loops: one tick of each.\<close>

definition trackUptime :: "gotime \<Rightarrow> gotime \<Rightarrow> Monitor \<Rightarrow> Monitor" where
  "trackUptime startTime now m =
     (let uptime = Seconds (time_Sub now startTime) in
      m\<lparr>mo_operatorUptime := uptime, mo_performance := (mo_performance m)\<lparr>pt_Uptime := uptime\<rparr>\<rparr>)"

definition processExpiredAlerts :: "int \<Rightarrow> Monitor \<Rightarrow> Monitor" where
  "processExpiredAlerts t m =
     (let now = uint64 t; expiredThreshold = 24 * 60 * 60 in
      m\<lparr>mo_alerts := fold (\<lambda>p s. let alert = heap s ! p in
           if \<not> al_Resolved alert \<and> expiredThreshold < now - al_Timestamp alert
           then store_write p (alert\<lparr>al_Resolved := True, al_ResolvedAt := now\<rparr>) s else s)
         (map_vals (index (mo_alerts m))) (mo_alerts m)\<rparr>)"

text \<open>\<open>processCriticalAlerts\<close> only logs: what it writes is the identifier, message and time of each
  active critical alert. \<open>processAlerts\<close> expires first, so an expired alert is not logged.\<close>

definition processCriticalAlerts :: "Monitor \<Rightarrow> (string \<times> string \<times> u64) list" where
  "processCriticalAlerts m =
     (let criticalAlerts = monitor_GetAlerts ''critical'' False m in
      map (\<lambda>alert. (al_ID alert, al_Message alert, al_Timestamp alert)) criticalAlerts)"

definition monitor_processAlerts :: "int \<Rightarrow> Monitor \<Rightarrow> (string \<times> string \<times> u64) list \<times> Monitor" where
  "monitor_processAlerts t m = (let m = processExpiredAlerts t m in (processCriticalAlerts m, m))"

definition calculatePerformanceMetrics :: "Monitor \<Rightarrow> Monitor" where
  "calculatePerformanceMetrics m =
     (if 1000 < pt_StateUpdates (mo_performance m)
      then m\<lparr>mo_performance := (mo_performance m)\<lparr>pt_StateUpdates := 0, pt_RebalancingOps := 0,
             pt_SuccessfulOps := 0, pt_FailedOps := 0\<rparr>\<rparr>
      else m)"

text \<open>\<open>Duration.String\<close>: hours, minutes and seconds with up to nine decimals, trailing zeros
  omitted; below one second the unit is chosen so that the whole part is not zero.\<close>

definition fmt_frac :: "nat \<Rightarrow> nat \<Rightarrow> string" where
  "fmt_frac prec v =
     (let digits = nat_String (v mod 10 ^ prec);
          padded = replicate (prec - length digits) CHR ''0'' @ digits;
          kept = rev (dropWhile (\<lambda>c. c = CHR ''0'') (rev padded))
      in if kept = [] then [] else CHR ''.'' # kept)"

definition Duration_String :: "int \<Rightarrow> string" where
  "Duration_String d =
     (let u = nat \<bar>d\<bar>; unit_of = (\<lambda>prec name. nat_String (u div 10 ^ prec) @ fmt_frac prec u @ name); s = u div 10 ^ 9;
          body = (if u = 0 then ''0s''
             else if u < 10 ^ 3 then nat_String u @ ''ns''
             else if u < 10 ^ 6 then unit_of 3 [CHR 0xC2, CHR 0xB5, CHR ''s'']
             else if u < 10 ^ 9 then unit_of 6 ''ms''
             else (if 3600 \<le> s then nat_String (s div 3600) @ ''h'' else []) @
                  (if 60 \<le> s then nat_String (s div 60 mod 60) @ ''m'' else []) @
                  nat_String (s mod 60) @ fmt_frac 9 u @ ''s'')
      in (if d < 0 then ''-'' else []) @ body)"

text \<open>The health report, a map with fixed keys, as a record; the reason is there only when unhealthy.\<close>

record HealthReport =
  hr_status :: string
  hr_uptime :: float64
  hr_lastUpdate :: gotime
  hr_timeSinceUpdate :: string
  hr_stateUpdates :: int
  hr_rebalancingOps :: int
  hr_successfulOps :: int
  hr_failedOps :: int
  hr_activeAlerts :: nat
  hr_criticalAlerts :: nat
  hr_reason :: "string option"

definition HealthCheck :: "gotime \<Rightarrow> Monitor \<Rightarrow> HealthReport" where
  "HealthCheck now m =
     (let p = mo_performance m;
          timeSinceUpdate = time_Sub now (pt_LastUpdate p);
          health = \<lparr>hr_status = ''healthy'', hr_uptime = pt_Uptime p, hr_lastUpdate = pt_LastUpdate p,
            hr_timeSinceUpdate = Duration_String timeSinceUpdate, hr_stateUpdates = pt_StateUpdates p,
            hr_rebalancingOps = pt_RebalancingOps p, hr_successfulOps = pt_SuccessfulOps p, hr_failedOps = pt_FailedOps p,
            hr_activeAlerts = length (monitor_GetAlerts [] False m),
            hr_criticalAlerts = length (monitor_GetAlerts ''critical'' False m), hr_reason = None\<rparr>
      in if 5 * 60 * 10 ^ 9 < timeSinceUpdate
         then health\<lparr>hr_status := ''unhealthy'', hr_reason := Some ''No updates in 5 minutes''\<rparr>
         else health)"

section \<open>The interface of alerts\<close>

definition mo_inv :: "Monitor \<Rightarrow> bool" where
  "mo_inv m \<longleftrightarrow> store_inv (mo_alerts m)"

abbreviation mo_lookup :: "Monitor \<Rightarrow> string \<Rightarrow> Alert option" where
  "mo_lookup m \<equiv> store_lookup (mo_alerts m)"

lemma monitor_GetAlerts_filter:
  "monitor_GetAlerts sev b m = filter (alert_matches sev b) (store_alerts (mo_alerts m))"
proof -
  have "fold (\<lambda>alert filtered. if sev \<noteq> [] \<and> al_Severity alert \<noteq> sev then filtered
      else if al_Resolved alert \<noteq> b then filtered else filtered @ [alert]) xs acc = acc @ filter (alert_matches sev b) xs" for xs acc
    by (induction xs arbitrary: acc) (auto simp: alert_matches_def)
  then show ?thesis by (simp add: monitor_GetAlerts_def)
qed

lemma monitor_ResolveAlert_found:
  assumes "mo_inv m" and "map_get (index (mo_alerts m)) k = Some p"
  shows "mo_inv (fst (monitor_ResolveAlert t k m))" and "snd (monitor_ResolveAlert t k m) = None"
    and "mo_lookup (fst (monitor_ResolveAlert t k m)) j =
      (if j = k then Some ((heap (mo_alerts m) ! p)\<lparr>al_Resolved := True, al_ResolvedAt := uint64 t\<rparr>) else mo_lookup m j)"
proof -
  have "al_ID (heap (mo_alerts m) ! p) = k" using assms by (simp add: mo_inv_def store_inv_def)
  with assms show "mo_inv (fst (monitor_ResolveAlert t k m))"
    by (simp add: mo_inv_def monitor_ResolveAlert_def Let_def store_inv_write)
qed (use assms in \<open>simp_all add: mo_inv_def monitor_ResolveAlert_def Let_def store_lookup_write\<close>)

interpretation mon: alert_service mo_inv mo_lookup
  "\<lambda>t0 t1 ty sev msg. monitor_CreateAlert t0 t1 ty sev msg md" monitor_ResolveAlert monitor_GetAlerts for md
proof
  fix s :: Monitor and t0 t1 t ty sev msg k j a b
  show "mo_inv s \<Longrightarrow> mo_inv (fst (monitor_ResolveAlert t k s))"
    by (cases "map_get (index (mo_alerts s)) k") (simp_all add: monitor_ResolveAlert_found, simp add: monitor_ResolveAlert_def)
  show "mo_inv s \<Longrightarrow> mo_lookup s k = Some a \<Longrightarrow> \<not> al_Resolved a \<Longrightarrow> snd (monitor_ResolveAlert t k s) = None \<and>
      mo_lookup (fst (monitor_ResolveAlert t k s)) j =
        (if j = k then Some (a\<lparr>al_Resolved := True, al_ResolvedAt := uint64 t\<rparr>) else mo_lookup s j)"
    using monitor_ResolveAlert_found [of s k] by (auto simp: store_lookup_def [of "mo_alerts s" k])
  show "mo_inv s \<Longrightarrow> a \<in> set (monitor_GetAlerts sev b s) \<longleftrightarrow> (\<exists>k. mo_lookup s k = Some a \<and> alert_matches sev b a)"
    by (auto simp: monitor_GetAlerts_filter mo_inv_def store_alerts_iff)
qed (simp_all add: monitor_CreateAlert_def monitor_ResolveAlert_def Let_def mo_inv_def store_inv_put store_lookup_put
    store_lookup_None)

section \<open>Properties of the monitor\<close>

lemma processExpiredAlerts_lookup:
  assumes "mo_inv m"
  shows "mo_inv (processExpiredAlerts t m) \<and>
     mo_lookup (processExpiredAlerts t m) k = map_option (\<lambda>a.
       if \<not> al_Resolved a \<and> 86400 < uint64 t - al_Timestamp a
       then a\<lparr>al_Resolved := True, al_ResolvedAt := uint64 t\<rparr> else a) (mo_lookup m k)"
proof -
  let ?c = "\<lambda>a. \<not> al_Resolved a \<and> 86400 < uint64 t - al_Timestamp a"
  let ?g = "\<lambda>a. a\<lparr>al_Resolved := True, al_ResolvedAt := uint64 t\<rparr>"
  have "mo_alerts (processExpiredAlerts t m) = store_sweep ?c ?g (map_vals (index (mo_alerts m))) (mo_alerts m)"
    by (simp add: processExpiredAlerts_def store_sweep_def Let_def)
  from sweep_lookup [OF assms [unfolded mo_inv_def] _ this] show ?thesis by (simp add: mo_inv_def)
qed

text \<open>One tick of \<open>processAlerts\<close> resolves, with the time of the tick, exactly the active alerts older
  than a day, and leaves every other alert as it is; a resolved alert is never touched again. The
  age is computed without sign: an alert stamped after the clock counts as expired. The critical
  alerts it then reports are those that are still active.\<close>

theorem processExpiredAlerts_exact:
  assumes "mo_inv m" and "monitor_processAlerts t m = (reported, m')"
  shows "mo_inv m' \<and>
     mo_lookup m' k = map_option (\<lambda>a.
       if \<not> al_Resolved a \<and> 86400 < uint64 t - al_Timestamp a
       then a\<lparr>al_Resolved := True, al_ResolvedAt := uint64 t\<rparr> else a) (mo_lookup m k) \<and>
     (r \<in> set reported \<longleftrightarrow> (\<exists>k a. mo_lookup m k = Some a \<and> al_Severity a = ''critical'' \<and> \<not> al_Resolved a \<and>
        uint64 t - al_Timestamp a \<le> 86400 \<and> r = (k, al_Message a, al_Timestamp a)))"
proof -
  note lk = processExpiredAlerts_lookup [OF assms(1), of t]
  have m': "m' = processExpiredAlerts t m" and r: "reported = processCriticalAlerts m'"
    using assms(2) by (auto simp: monitor_processAlerts_def Let_def)
  have inv: "mo_inv m'" unfolding m' using lk by blast
  have act: "mo_lookup m' k = Some a \<and> \<not> al_Resolved a \<longleftrightarrow>
      mo_lookup m k = Some a \<and> \<not> al_Resolved a \<and> uint64 t - al_Timestamp a \<le> 86400" for k a
    by (cases "mo_lookup m k") (auto simp: m' lk not_less)
  have "r \<in> set reported \<longleftrightarrow> (\<exists>k a. mo_lookup m' k = Some a \<and> alert_matches ''critical'' False a \<and>
      r = (al_ID a, al_Message a, al_Timestamp a))"
    unfolding r processCriticalAlerts_def Let_def by (simp add: image_iff Bex_def mon.listed_iff [OF inv]) blast
  also have "\<dots> \<longleftrightarrow> (\<exists>k a. mo_lookup m k = Some a \<and> al_Severity a = ''critical'' \<and> \<not> al_Resolved a \<and>
        uint64 t - al_Timestamp a \<le> 86400 \<and> r = (k, al_Message a, al_Timestamp a))"
    using act store_lookup_ID [OF assms(1) [unfolded mo_inv_def]] by (auto simp: alert_matches_def) metis+
  finally show ?thesis using lk inv unfolding m' by blast
qed

text \<open>A failed rebalancing counts as a failure in the exported counter and raises an active alert of
  severity high under a new identifier, listed among the active ones of that severity; all other
  alerts stay as they were.\<close>

theorem RecordRebalancingFailure_alert:
  assumes "mo_inv m"
  shows "mo_rebalancingFailures (RecordRebalancingFailure nanos t p amount e m) = mo_rebalancingFailures m + 1 \<and>
     (\<exists>a. mo_lookup (RecordRebalancingFailure nanos t p amount e m) (alert_id ''rebalancing_failure'' nanos) = Some a \<and>
        a \<in> set (monitor_GetAlerts ''high'' False (RecordRebalancingFailure nanos t p amount e m))) \<and>
     (\<forall>k. k \<noteq> alert_id ''rebalancing_failure'' nanos \<longrightarrow>
        mo_lookup (RecordRebalancingFailure nanos t p amount e m) k = mo_lookup m k)"
proof -
  let ?m = "m\<lparr>mo_rebalancingFailures := mo_rebalancingFailures m + 1,
      mo_performance := (mo_performance m)\<lparr>pt_FailedOps := int64_inc (pt_FailedOps (mo_performance m))\<rparr>\<rparr>"
  have inv: "mo_inv ?m" using assms by (simp add: mo_inv_def)
  show ?thesis
    unfolding RecordRebalancingFailure_def
    using mon.created_listed [OF inv, of "''high''" "''high''"] mon.create_old [OF inv]
    by (auto simp: monitor_CreateAlert_def Let_def)
qed

text \<open>The health report is unhealthy, with its reason, exactly when the last state update is more
  than five minutes old. A monitor that has not yet recorded an update is unhealthy, since its last
  update is the zero time. The reported numbers of active and critical alerts are those of the
  alerts that are not resolved.\<close>

theorem HealthCheck_status:
  assumes "\<bar>now - pt_LastUpdate (mo_performance m)\<bar> < 2 ^ 63"
  shows "(hr_status (HealthCheck now m) = ''unhealthy'' \<longleftrightarrow> 300 * 10 ^ 9 < now - pt_LastUpdate (mo_performance m)) \<and>
     (hr_reason (HealthCheck now m) = None \<longleftrightarrow> hr_status (HealthCheck now m) = ''healthy'') \<and>
     (0 \<le> now' \<longrightarrow> hr_status (HealthCheck now' NewMonitor) = ''unhealthy'') \<and>
     hr_activeAlerts (HealthCheck now m) = length (filter (\<lambda>a. \<not> al_Resolved a) (store_alerts (mo_alerts m))) \<and>
     hr_criticalAlerts (HealthCheck now m) =
       length (filter (\<lambda>a. \<not> al_Resolved a \<and> al_Severity a = ''critical'') (store_alerts (mo_alerts m)))"
proof -
  have sub: "time_Sub now (pt_LastUpdate (mo_performance m)) = now - pt_LastUpdate (mo_performance m)"
    using assms by (simp add: time_Sub_def)
  have "300 * 10 ^ 9 < time_Sub now' zero_time" if "0 \<le> now'"
    using that by (simp add: time_Sub_def zero_time_def)
  moreover have "filter (alert_matches [] False) xs = filter (\<lambda>a. \<not> al_Resolved a) xs"
    "filter (alert_matches ''critical'' False) xs = filter (\<lambda>a. \<not> al_Resolved a \<and> al_Severity a = ''critical'') xs" for xs
    by (auto simp: alert_matches_def intro: filter_cong)
  ultimately show ?thesis
    by (simp add: HealthCheck_def Let_def sub monitor_GetAlerts_filter NewMonitor_def)
qed

section \<open>Witnesses\<close>

definition ex_monitor :: Monitor where
  "ex_monitor = RecordRebalancingFailure 5 7 ''p'' (Some 100) ''timeout'' NewMonitor"

lemma new_monitor_inv [simp]: "mo_inv NewMonitor"
  by (simp add: mo_inv_def NewMonitor_def)

lemma ex_monitor_alerts: "mo_inv ex_monitor"
  "\<exists>a. mo_lookup ex_monitor (alert_id ''rebalancing_failure'' 5) = Some a \<and> al_Timestamp a = 7 \<and> \<not> al_Resolved a"
  by (simp_all add: ex_monitor_def RecordRebalancingFailure_def monitor_CreateAlert_def Let_def mo_inv_def store_inv_put
      NewMonitor_def store_lookup_put go_eval)

theorem processExpiredAlerts_exact_witness:
  "\<exists>a. mo_lookup (snd (monitor_processAlerts 86408 ex_monitor)) (alert_id ''rebalancing_failure'' 5) = Some a \<and> al_Resolved a"
proof -
  let ?i = "alert_id ''rebalancing_failure'' 5"
  obtain a where a: "mo_lookup ex_monitor ?i = Some a" "al_Timestamp a = 7" "\<not> al_Resolved a"
    using ex_monitor_alerts(2) by blast
  have "mo_lookup (snd (monitor_processAlerts 86408 ex_monitor)) ?i = Some (a\<lparr>al_Resolved := True, al_ResolvedAt := uint64 86408\<rparr>)"
    using processExpiredAlerts_exact [OF ex_monitor_alerts(1) surjective_pairing, of 86408 ?i] a by (simp add: go_eval)
  then show ?thesis by simp
qed

theorem RecordRebalancingFailure_alert_witness:
  "mo_rebalancingFailures (RecordRebalancingFailure 5 7 ''p'' (Some 100) ''timeout'' NewMonitor) =
     mo_rebalancingFailures NewMonitor + 1"
  using RecordRebalancingFailure_alert [OF new_monitor_inv, of 5 7 "''p''" "Some 100" "''timeout''"] by blast

theorem HealthCheck_status_witness:
  "hr_status (HealthCheck (10 ^ 9) (RecordStateUpdate 0 5 NewMonitor)) \<noteq> ''unhealthy'' \<and>
   hr_status (HealthCheck 0 NewMonitor) = ''unhealthy''"
  using HealthCheck_status [of "10 ^ 9" "RecordStateUpdate 0 5 NewMonitor" 0]
  by (simp add: RecordStateUpdate_def)

end
