(* ===== verification/Background_Loops.thy ===== *)
theory Background_Loops
  imports Step_Systems
begin

text \<open>
  A component with background loops: \<open>Start(ctx)\<close> launches goroutines, each a loop around a
  \<open>select\<close> that returns on \<open>ctx.Done()\<close>, while clients go on calling methods. The calls of the
  component are a step relation; \<open>owner\<close> names the loop that makes a call, if it is not a client's.
  A loop makes its calls only while it is running, and a cancelled loop may make further ones before
  it returns, since \<open>select\<close> chooses any of the cases that are ready. \<open>Start\<close> may be called again.
\<close>

record ('s, 'r) background =
  bg_state :: 's
  bg_running :: "'r list"
  bg_cancelled :: bool

datatype ('a, 'r, 'e) bg_event = Launch 'a | Act 'e | Cancel | Return 'r

inductive bg_step ::
  "('a \<Rightarrow> 'r list) \<Rightarrow> ('e \<Rightarrow> 'r option) \<Rightarrow> ('s \<Rightarrow> 'e \<Rightarrow> 's \<Rightarrow> bool) \<Rightarrow>
   ('s, 'r) background \<Rightarrow> ('a, 'r, 'e) bg_event \<Rightarrow> ('s, 'r) background \<Rightarrow> bool" for launch owner step where
  launch: "bg_step launch owner step b (Launch x) (b\<lparr>bg_running := bg_running b @ launch x\<rparr>)"
| act_client: "step (bg_state b) e s' \<Longrightarrow> owner e = None \<Longrightarrow> bg_step launch owner step b (Act e) (b\<lparr>bg_state := s'\<rparr>)"
| act_loop: "step (bg_state b) e s' \<Longrightarrow> owner e = Some r \<Longrightarrow> r \<in> set (bg_running b) \<Longrightarrow>
    bg_step launch owner step b (Act e) (b\<lparr>bg_state := s'\<rparr>)"
| cancel: "bg_step launch owner step b Cancel (b\<lparr>bg_cancelled := True\<rparr>)"
| return: "bg_cancelled b \<Longrightarrow> r \<in> set (bg_running b) \<Longrightarrow>
    bg_step launch owner step b (Return r) (b\<lparr>bg_running := remove1 r (bg_running b)\<rparr>)"

inductive_cases bg_stepE: "bg_step launch owner step b e b'"

definition idle :: "'s \<Rightarrow> ('s, 'r) background" where
  "idle s = \<lparr>bg_state = s, bg_running = [], bg_cancelled = False\<rparr>"

text \<open>The calls of an execution, and the loops launched.\<close>

fun act_of :: "('a, 'r, 'e) bg_event \<Rightarrow> 'e list" where
  "act_of (Act e) = [e]"
| "act_of _ = []"

fun launched :: "('a \<Rightarrow> 'r list) \<Rightarrow> ('a, 'r, 'e) bg_event \<Rightarrow> 'r list" where
  "launched l (Launch x) = l x"
| "launched l _ = []"

abbreviation acts :: "('a, 'r, 'e) bg_event list \<Rightarrow> 'e list" where
  "acts es \<equiv> concat (map act_of es)"

lemma no_launch: "(\<And>x. Launch x \<notin> set es) \<Longrightarrow> concat (map (launched l) es) = []"
proof (induction es)
  case (Cons e es)
  then show ?case by (cases e) auto
qed simp

text \<open>An execution with loops is an execution of the calls.\<close>

lemma bg_project: "run (bg_step l ow step) b es b' \<Longrightarrow> run step (bg_state b) (acts es) (bg_state b')"
proof (induction rule: run.induct)
  case (run_cons b e b' es b'')
  from run_cons.hyps(1) run_cons.IH show ?case by cases (auto intro: run.run_cons)
qed (simp add: run_nil)

text \<open>Only loops that were launched run, and only they make their calls.\<close>

lemma bg_owners:
  "run (bg_step l ow step) b es b' \<Longrightarrow>
     set (bg_running b') \<subseteq> set (bg_running b) \<union> set (concat (map (launched l) es)) \<and>
     (\<forall>e \<in> set (acts es). \<forall>r. ow e = Some r \<longrightarrow> r \<in> set (bg_running b) \<union> set (concat (map (launched l) es)))"
proof (induction rule: run.induct)
  case (run_cons b e b' es b'')
  have "set (bg_running b') \<subseteq> set (bg_running b) \<union> set (launched l e)"
    using run_cons.hyps(1) by cases (auto intro: notin_set_remove1 [THEN contrapos_pp])
  moreover have "\<forall>x \<in> set (act_of e). \<forall>r. ow x = Some r \<longrightarrow> r \<in> set (bg_running b)"
    using run_cons.hyps(1) by cases auto
  ultimately show ?case using run_cons.IH by auto blast+
qed simp

text \<open>Once every loop has returned and none is launched again, only clients act.\<close>

lemma bg_quiescent:
  assumes "run (bg_step l ow step) b es b'" and "bg_running b = []" and "concat (map (launched l) es) = []"
  shows "bg_running b' = []" and "\<forall>e \<in> set (acts es). ow e = None"
  using bg_owners [OF assms(1)] assms(2,3) by force+

text \<open>A cancelled component can always get all its loops to return, without another call.\<close>

lemma bg_cancelled_stays: "run (bg_step l ow step) b es b' \<Longrightarrow> bg_cancelled b \<Longrightarrow> bg_cancelled b'"
proof (induction rule: run.induct)
  case (run_cons b e b' es b'')
  from run_cons.hyps(1) run_cons.IH run_cons.prems show ?case by cases auto
qed

interpretation bg: steps_progress "bg_step l ow step" "\<lambda>b. bg_cancelled b \<and> bg_state b = s"
  "\<lambda>b. bg_running b = []" "\<lambda>b. length (bg_running b)"
  for l :: "'a \<Rightarrow> 'r list" and ow :: "'e \<Rightarrow> 'r option" and step :: "'s \<Rightarrow> 'e \<Rightarrow> 's \<Rightarrow> bool" and s
proof
  fix b :: "('s, 'r) background"
  assume b: "bg_cancelled b \<and> bg_state b = s" and ne: "bg_running b \<noteq> []"
  let ?r = "hd (bg_running b)"
  have "bg_step l ow step b (Return ?r) (b\<lparr>bg_running := remove1 ?r (bg_running b)\<rparr>)"
    using b ne by (intro bg_step.return) simp_all
  then show "\<exists>e b'. bg_step l ow step b e b' \<and> (bg_cancelled b' \<and> bg_state b' = s) \<and>
      length (bg_running b') < length (bg_running b)"
    using b ne by (intro exI [of _ "Return ?r"] exI [of _ "b\<lparr>bg_running := remove1 ?r (bg_running b)\<rparr>"])
      (simp add: length_remove1)
qed

lemma bg_shutdown:
  assumes "bg_cancelled b"
  shows "\<exists>es b'. run (bg_step l ow step) b es b' \<and> bg_running b' = [] \<and> bg_state b' = bg_state b \<and>
     length es \<le> length (bg_running b)"
  using bg.reaches_final [of b "bg_state b" l ow step] assms by blast

end
