(* ===== verification/Monitoring_Loops.thy ===== *)
theory Monitoring_Loops
  imports Alert_Stats Health_Monitor Background_Loops
begin

text \<open>
  The loops of \<^verbatim>\<open>pkg/monitoring\<close>: \<open>Start\<close> of the alert manager and of the monitor launch goroutines
  that work beside the clients until their context is cancelled. The theorems read the state off the
  history of the calls: which alerts there are is a fold over the calls, the exported counters count
  them, and the performance tracker counts those since it was last reset.
\<close>

section \<open>The alert manager\<close>

datatype am_loop = AmProcessAlerts | AmCleanupAlerts

definition alerts_Start :: "unit \<Rightarrow> am_loop list" where
  "alerts_Start ctx = [AmProcessAlerts, AmCleanupAlerts]"

text \<open>The cases of the \<open>select\<close> of each loop.\<close>

fun am_owner :: "am_event \<Rightarrow> am_loop option" where
  "am_owner TakeAlert = Some AmProcessAlerts"
| "am_owner TakeResolved = Some AmProcessAlerts"
| "am_owner (Cleanup now) = Some AmCleanupAlerts"
| "am_owner _ = None"

abbreviation alerts_system ::
  "('h AlertManager, am_loop) background \<Rightarrow> (unit, am_loop, am_event) bg_event \<Rightarrow> ('h AlertManager, am_loop) background \<Rightarrow> bool" where
  "alerts_system \<equiv> bg_step alerts_Start am_owner am_step"

section \<open>The monitor\<close>

datatype mon_event =
    is_update: MonStateUpdate gotime int
  | is_request: MonRequest
  | is_success: MonSuccess
  | is_failure: MonFailure int int string bigptr string
  | MonPoolStates int
  | MonCreate int int string string string "(string, iface) gomap"
  | MonResolve int string
  | MonUptime gotime gotime
  | MonAlerts int
  | is_performance: MonPerformance

inductive mon_step :: "Monitor \<Rightarrow> mon_event \<Rightarrow> Monitor \<Rightarrow> bool" where
  update: "mon_step m (MonStateUpdate now latency) (RecordStateUpdate now latency m)"
| request: "mon_step m MonRequest (RecordRebalancingRequest m)"
| success: "mon_step m MonSuccess (RecordRebalancingSuccess m)"
| failure: "mon_step m (MonFailure nanos now poolID amount err) (RecordRebalancingFailure nanos now poolID amount err m)"
| pool_states: "mon_step m (MonPoolStates n) (UpdatePoolStatesCount n m)"
| create: "mon_step m (MonCreate nanos now ty sev msg md) (snd (monitor_CreateAlert nanos now ty sev msg md m))"
| resolve: "mon_step m (MonResolve now k) (fst (monitor_ResolveAlert now k m))"
| uptime: "mon_step m (MonUptime startTime now) (trackUptime startTime now m)"
| alerts: "mon_step m (MonAlerts t) (snd (monitor_processAlerts t m))"
| performance: "mon_step m MonPerformance (calculatePerformanceMetrics m)"

text \<open>\<open>trackUptime\<close> reads its start time when it begins; the loop is named with it.\<close>

datatype mon_loop = MonTrackUptime gotime | MonProcessAlerts | MonMonitorPerformance

definition monitor_Start :: "gotime \<Rightarrow> mon_loop list" where
  "monitor_Start startTime = [MonTrackUptime startTime, MonProcessAlerts, MonMonitorPerformance]"

fun mon_owner :: "mon_event \<Rightarrow> mon_loop option" where
  "mon_owner (MonUptime startTime now) = Some (MonTrackUptime startTime)"
| "mon_owner (MonAlerts t) = Some MonProcessAlerts"
| "mon_owner MonPerformance = Some MonMonitorPerformance"
| "mon_owner _ = None"

abbreviation monitor_system ::
  "(Monitor, mon_loop) background \<Rightarrow> (gotime, mon_loop, mon_event) bg_event \<Rightarrow> (Monitor, mon_loop) background \<Rightarrow> bool" where
  "monitor_system \<equiv> bg_step monitor_Start mon_owner mon_step"

section \<open>The abstract tables of alerts\<close>

type_synonym alert_table = "string \<Rightarrow> Alert option"

definition new_alert ::
  "int \<Rightarrow> int \<Rightarrow> string \<Rightarrow> string \<Rightarrow> string \<Rightarrow> string \<Rightarrow> (string, iface) gomap \<Rightarrow> string list \<Rightarrow> Alert" where
  "new_alert nanos now ty sev msg src md tags =
     \<lparr>al_ID = alert_id ty nanos, al_Type = ty, al_Severity = sev, al_Message = msg, al_Timestamp = uint64 now,
      al_Resolved = False, al_ResolvedAt = 0, al_Metadata = md, al_Source = src, al_Tags = tags\<rparr>"

definition resolved_at :: "int \<Rightarrow> Alert \<Rightarrow> Alert" where
  "resolved_at now a = a\<lparr>al_Resolved := True, al_ResolvedAt := uint64 now\<rparr>"

fun am_table :: "am_event \<Rightarrow> alert_table \<Rightarrow> alert_table" where
  "am_table (Created nanos now ty sev msg src md tags) T =
     T(alert_id ty nanos \<mapsto> new_alert nanos now ty sev msg src md tags)"
| "am_table (Resolved now k) T =
     T(k := map_option (\<lambda>a. if al_Resolved a then a else resolved_at now a) (T k))"
| "am_table (Cleanup now) T =
     (\<lambda>k. Option.bind (T k) (\<lambda>a. if al_Resolved a \<and> al_ResolvedAt a < uint64 now - 604800 then None else Some a))"
| "am_table TakeAlert T = T"
| "am_table TakeResolved T = T"

fun mon_table :: "mon_event \<Rightarrow> alert_table \<Rightarrow> alert_table" where
  "mon_table (MonFailure nanos now poolID amount err) T =
     T(alert_id ''rebalancing_failure'' nanos \<mapsto> new_alert nanos now ''rebalancing_failure'' ''high''
        (''Rebalancing failed for pool '' @ poolID @ '': '' @ err) []
        [(''poolID'', IString poolID), (''amount'', IString (bigptr_String amount)), (''error'', IString err)] [])"
| "mon_table (MonCreate nanos now ty sev msg md) T = T(alert_id ty nanos \<mapsto> new_alert nanos now ty sev msg [] md [])"
| "mon_table (MonResolve now k) T = T(k := map_option (resolved_at now) (T k))"
| "mon_table (MonAlerts t) T =
     (\<lambda>k. map_option (\<lambda>a. if \<not> al_Resolved a \<and> 86400 < uint64 t - al_Timestamp a then resolved_at t a else a) (T k))"
| "mon_table _ T = T"

lemma ResolveAlert_lookup:
  assumes "am_inv am"
  shows "am_lookup (fst (ResolveAlert now k am)) =
     (am_lookup am)(k := map_option (\<lambda>a. if al_Resolved a then a else resolved_at now a) (am_lookup am k))"
proof (cases "am_lookup am k")
  case None
  with am.resolve_missing [OF None] show ?thesis by (simp add: fun_upd_idem)
next
  case (Some a)
  show ?thesis
  proof (cases "al_Resolved a")
    case True
    with Some show ?thesis by (auto simp: ResolveAlert_def store_lookup_def Let_def fun_eq_iff split: option.splits)
  next
    case False
    with ResolveAlert_active [OF assms Some False] Some show ?thesis by (auto simp: resolved_at_def fun_eq_iff)
  qed
qed

interpretation am_history: steps_refine am_step am_inv am_lookup am_table
proof
  fix am am' :: "'h AlertManager" and e
  assume inv: "am_inv am" and "am_step am e am'"
  from this(2) show "am_lookup am' = am_table e (am_lookup am)"
  proof cases
    case (create nanos now ty sev msg src md tags)
    with inv show ?thesis by (auto simp: CreateAlert_def Let_def am_inv_def store_lookup_put new_alert_def fun_eq_iff)
  next
    case (resolve now k)
    with ResolveAlert_lookup [OF inv] show ?thesis by simp
  next
    case (cleanupAlerts now)
    with cleanup_lookup [OF inv, of now] show ?thesis by (auto simp: fun_eq_iff Option.bind_eq_None_conv split: option.splits)
  qed (simp_all add: handleAlert_def handleAlertResolved_def)
qed

lemma expired_lookup:
  "mo_inv m \<Longrightarrow> mo_inv (processExpiredAlerts t m) \<and> mo_lookup (processExpiredAlerts t m) = mon_table (MonAlerts t) (mo_lookup m)"
  using processExpiredAlerts_lookup [of m t] by (simp add: fun_eq_iff resolved_at_def cong: if_cong)

lemma mon_step_refines:
  assumes "mo_inv m" and "mon_step m e m'"
  shows "mo_inv m' \<and> mo_lookup m' = mon_table e (mo_lookup m)"
  using assms(2)
proof cases
  case (resolve now k)
  show ?thesis
  proof (cases "map_get (index (mo_alerts m)) k")
    case None
    with resolve assms(1) show ?thesis by (auto simp: monitor_ResolveAlert_def store_lookup_def fun_eq_iff)
  next
    case (Some p)
    with resolve monitor_ResolveAlert_found [OF assms(1) Some, of now] show ?thesis
      by (auto simp: resolved_at_def fun_eq_iff store_lookup_def [of "mo_alerts m" k])
  qed
next
  case (alerts t)
  with expired_lookup [OF assms(1)] show ?thesis by (simp add: monitor_processAlerts_def Let_def)
qed (use assms(1) in \<open>auto simp: mo_inv_def RecordStateUpdate_def RecordRebalancingRequest_def RecordRebalancingSuccess_def
    RecordRebalancingFailure_def UpdatePoolStatesCount_def monitor_CreateAlert_def trackUptime_def Let_def
    calculatePerformanceMetrics_def store_inv_put store_lookup_put new_alert_def fun_eq_iff\<close>)

interpretation mon_history: steps_refine mon_step mo_inv mo_lookup mon_table
  by unfold_locales (blast dest: mon_step_refines)+

section \<open>The history of the counters\<close>

definition count_of :: "('e \<Rightarrow> bool) \<Rightarrow> 'e list \<Rightarrow> nat" where
  "count_of P xs = length (filter P xs)"

lemma count_of_simps [simp]:
  "count_of P [] = 0" "count_of P (xs @ [x]) = count_of P xs + (if P x then 1 else 0)"
  by (simp_all add: count_of_def)

lemma count_of_le: "count_of P xs \<le> length xs"
  by (simp add: count_of_def)

text \<open>The exported counters against the whole history, the tracker against a part of it.\<close>

definition exported :: "mon_event list \<Rightarrow> Monitor \<Rightarrow> bool" where
  "exported xs m \<longleftrightarrow> mo_rebalancingRequests m = count_of is_request xs \<and> mo_rebalancingSuccess m = count_of is_success xs \<and>
     mo_rebalancingFailures m = count_of is_failure xs \<and> length (mo_stateUpdateLatency m) = count_of is_update xs \<and>
     mo_operatorUptime m = pt_Uptime (mo_performance m) \<and> pt_AverageLatency (mo_performance m) = f_lit 0"

definition tracked :: "mon_event list \<Rightarrow> PerformanceTracker \<Rightarrow> bool" where
  "tracked zs p \<longleftrightarrow> pt_StateUpdates p = int (count_of is_update zs) \<and> pt_RebalancingOps p = int (count_of is_request zs) \<and>
     pt_SuccessfulOps p = int (count_of is_success zs) \<and> pt_FailedOps p = int (count_of is_failure zs)"

lemmas mon_op_defs = RecordStateUpdate_def RecordRebalancingRequest_def RecordRebalancingSuccess_def
  RecordRebalancingFailure_def UpdatePoolStatesCount_def monitor_CreateAlert_def trackUptime_def Let_def
  monitor_processAlerts_def processExpiredAlerts_def monitor_ResolveAlert_def calculatePerformanceMetrics_def

lemma exported_step: "exported xs m \<Longrightarrow> mon_step m e m' \<Longrightarrow> exported (xs @ [e]) m'"
  by (erule mon_step.cases) (auto simp: exported_def mon_op_defs split: option.split)

lemma int64_inc_count: "int n < 2 ^ 63 - 1 \<Longrightarrow> int64_inc (int n) = int n + 1"
  by (simp add: int64_inc_def big_Int64_id)

lemma tracked_step:
  assumes "tracked zs (mo_performance m)" and "int (length zs) < 2 ^ 63 - 1" and "mon_step m e m'"
    and "e = MonPerformance \<Longrightarrow> count_of is_update zs \<le> 1000"
  shows "tracked (zs @ [e]) (mo_performance m')"
proof -
  have "int (count_of P zs) < 2 ^ 63 - 1" for P :: "mon_event \<Rightarrow> bool"
    using count_of_le [of P zs] assms(2) by linarith
  then have inc: "int64_inc (int (count_of P zs)) = int (count_of P zs) + 1" for P :: "mon_event \<Rightarrow> bool"
    by (rule int64_inc_count)
  from assms(3,1,4) show ?thesis
    by cases (auto simp: tracked_def mon_op_defs inc split: option.split)
qed

lemma tracked_reset:
  assumes "tracked zs (mo_performance m)" and "1000 < count_of is_update zs" and "mon_step m MonPerformance m'"
  shows "tracked [] (mo_performance m')"
  using assms(3,1,2) by cases (auto simp: tracked_def mon_op_defs)

text \<open>The tracker counts the calls since its last reset: the tick of \<open>monitorPerformance\<close> that found
  more than 1000 state updates.\<close>

definition since_reset :: "mon_event list \<Rightarrow> mon_event list \<Rightarrow> bool" where
  "since_reset xs zs \<longleftrightarrow> (\<exists>ys. xs = ys @ zs \<and>
     (ys = [] \<or> (\<exists>ws vs. ys = ws @ vs @ [MonPerformance] \<and> 1000 < count_of is_update vs)))"

lemma tracked_run:
  "run mon_step NewMonitor xs m \<Longrightarrow> int (length xs) < 2 ^ 63 \<Longrightarrow> \<exists>zs. since_reset xs zs \<and> tracked zs (mo_performance m)"
proof (induction xs arbitrary: m rule: rev_induct)
  case Nil
  then show ?case by (auto simp: since_reset_def tracked_def NewMonitor_def)
next
  case (snoc e xs)
  then obtain t where t: "run mon_step NewMonitor xs t" "mon_step t e m" by (auto simp: run_snoc_iff)
  with snoc obtain zs where zs: "since_reset xs zs" "tracked zs (mo_performance t)" by fastforce
  then have len: "int (length zs) < 2 ^ 63 - 1" using snoc.prems(2) by (auto simp: since_reset_def)
  show ?case
  proof (cases "e = MonPerformance \<and> 1000 < count_of is_update zs")
    case True
    then have "since_reset (xs @ [e]) []" using zs(1) by (auto simp: since_reset_def)
    with tracked_reset [OF zs(2)] True t(2) show ?thesis by blast
  next
    case False
    have "since_reset (xs @ [e]) (zs @ [e])" using zs(1) by (auto simp: since_reset_def)
    with tracked_step [OF zs(2) len t(2)] False show ?thesis by fastforce
  qed
qed

lemma exported_run: "run mon_step NewMonitor xs m \<Longrightarrow> exported xs m"
proof (induction xs arbitrary: m rule: rev_induct)
  case Nil
  then show ?case by (simp add: exported_def NewMonitor_def)
qed (auto simp: run_snoc_iff intro: exported_step)

section \<open>Properties of the loops\<close>

lemma new_manager_inv: "am_inv (fold AddHandler hs (NewAlertManager th))"
  "am_lookup (fold AddHandler hs (NewAlertManager th)) = (\<lambda>k. None)"
proof -
  have "am_alerts (fold AddHandler hs am) = am_alerts am \<and> am_alertChan (fold AddHandler hs am) = am_alertChan am \<and>
      am_resolveChan (fold AddHandler hs am) = am_resolveChan am" for am
    by (induction hs arbitrary: am) (simp_all add: AddHandler_def)
  then show "am_inv (fold AddHandler hs (NewAlertManager th))"
    "am_lookup (fold AddHandler hs (NewAlertManager th)) = (\<lambda>k. None)"
    by (simp_all add: am_inv_def NewAlertManager_def fun_eq_iff)
qed

text \<open>C14: The alert manager refines a table of alerts. Whatever the interleaving of clients, handler
  goroutine and cleanup, started any number of times or not at all, cancelled or not: the alerts
  are those obtained by applying the calls made, in order, to an empty table, where creating binds
  the identifier, resolving marks an active alert once, and the cleanup forgets what was resolved
  more than seven days ago. Looking up, listing and resolving answer from that table, and the
  pointers and channels are well formed.\<close>

theorem alert_manager_history:
  assumes "run alerts_system (idle (fold AddHandler hs (NewAlertManager th))) es b"
  defines "T \<equiv> fold am_table (acts es) (\<lambda>k. None)"
  shows "am_inv (bg_state b) \<and>
     GetAlert k (bg_state b) = (case T k of None \<Rightarrow> Inl (''alert not found: '' @ k) | Some a \<Rightarrow> Inr a) \<and>
     set (GetAlerts sev r 0 (bg_state b)) = {a. \<exists>k. T k = Some a \<and> (sev = [] \<or> al_Severity a = sev) \<and> al_Resolved a = r} \<and>
     snd (ResolveAlert now k (bg_state b)) =
       (case T k of None \<Rightarrow> Some (''alert not found: '' @ k)
        | Some a \<Rightarrow> if al_Resolved a then Some (''alert already resolved: '' @ k) else None)"
proof -
  let ?am = "bg_state b"
  have rn: "run am_step (fold AddHandler hs (NewAlertManager th)) (acts es) ?am"
    using bg_project [OF assms(1)] by (simp add: idle_def)
  have T: "am_lookup ?am = T"
    unfolding T_def using am_history.refine_run [OF rn new_manager_inv(1)] by (simp add: new_manager_inv(2))
  have inv: "am_inv ?am" using manager.I_run [OF rn new_manager_inv(1)] .
  have "set (GetAlerts sev r 0 ?am) = {a. \<exists>k. T k = Some a \<and> (sev = [] \<or> al_Severity a = sev) \<and> al_Resolved a = r}"
    unfolding T [symmetric] using am.listed_iff [OF inv, of _ sev r] by (auto simp: alert_matches_def)
  moreover have "snd (ResolveAlert now k ?am) =
       (case T k of None \<Rightarrow> Some (''alert not found: '' @ k)
        | Some a \<Rightarrow> if al_Resolved a then Some (''alert already resolved: '' @ k) else None)"
    unfolding T [symmetric] by (auto simp: store_lookup_def ResolveAlert_def Let_def split: option.split)
  ultimately show ?thesis unfolding T [symmetric] using inv by (simp add: GetAlert_def)
qed


text \<open>Client calls do not reach the handlers.\<close>

lemma client_calls:
  "am_step am e am' \<Longrightarrow> am_owner e = None \<Longrightarrow> am_calls am' = am_calls am"
  by (erule am_step.cases) (auto simp: CreateAlert_def ResolveAlert_def Let_def split: option.split)

lemma client_run_calls:
  "run am_step am es am' \<Longrightarrow> \<forall>e \<in> set es. am_owner e = None \<Longrightarrow> am_calls am' = am_calls am"
  by (induction rule: run.induct) (auto dest: client_calls)

lemma client_uptime:
  "run mon_step m es m' \<Longrightarrow> \<forall>e \<in> set es. mon_owner e = None \<Longrightarrow> mo_operatorUptime m' = mo_operatorUptime m"
proof (induction rule: run.induct)
  case (run_cons m e m' es m'')
  from run_cons.hyps(1) run_cons.prems have "mo_operatorUptime m' = mo_operatorUptime m"
    by cases (auto simp: mon_op_defs split: option.split)
  with run_cons show ?case by simp
qed simp


section \<open>Witnesses\<close>

definition ex_calls :: "(unit, am_loop, am_event) bg_event list" where
  "ex_calls = [Launch (), Act (Created 5 7 ''uptime'' ''critical'' ''down'' ''monitoring'' [] []), Act TakeAlert, Cancel]"

lemma ex_calls_run: "\<exists>b. run alerts_system (idle (fold AddHandler [0] (NewAlertManager GetDefaultThresholds :: nat AlertManager))) ex_calls b"
proof -
  let ?am = "fold AddHandler [0] (NewAlertManager GetDefaultThresholds :: nat AlertManager)"
  let ?am1 = "snd (CreateAlert 5 7 ''uptime'' ''critical'' ''down'' ''monitoring'' [] [] ?am)"
  let ?am2 = "handleAlert 0 (?am1\<lparr>am_alertChan := []\<rparr>)"
  let ?r = "alerts_Start ()"
  have "am_step ?am1 TakeAlert ?am2"
    by (rule am_step.processAlerts_alert)
      (simp add: CreateAlert_def Let_def AddHandler_def NewAlertManager_def try_send_def empty_store_def)
  then have take: "alerts_system \<lparr>bg_state = ?am1, bg_running = ?r, bg_cancelled = False\<rparr> (Act TakeAlert)
      \<lparr>bg_state = ?am2, bg_running = ?r, bg_cancelled = False\<rparr>"
    using bg_step.act_loop [of am_step "\<lparr>bg_state = ?am1, bg_running = ?r, bg_cancelled = False\<rparr>" TakeAlert ?am2
        am_owner AmProcessAlerts alerts_Start] by (simp add: alerts_Start_def)
  have "alerts_system \<lparr>bg_state = ?am, bg_running = ?r, bg_cancelled = False\<rparr>
      (Act (Created 5 7 ''uptime'' ''critical'' ''down'' ''monitoring'' [] []))
      \<lparr>bg_state = ?am1, bg_running = ?r, bg_cancelled = False\<rparr>"
    using bg_step.act_client [of am_step "\<lparr>bg_state = ?am, bg_running = ?r, bg_cancelled = False\<rparr>", OF _ _, of _ ?am1 am_owner alerts_Start]
    by (simp add: am_step.create)
  moreover have "alerts_system (idle ?am) (Launch ()) \<lparr>bg_state = ?am, bg_running = ?r, bg_cancelled = False\<rparr>"
    using bg_step.launch [of alerts_Start am_owner am_step "idle ?am" "()"] by (simp add: idle_def)
  ultimately show ?thesis
    unfolding ex_calls_def run_Cons_iff run_Nil_iff using take bg_step.cancel by blast
qed

theorem alert_manager_history_witness:
  "\<exists>b. run alerts_system (idle (fold AddHandler [0] (NewAlertManager GetDefaultThresholds :: nat AlertManager))) ex_calls b \<and>
     GetAlert (alert_id ''uptime'' 5) (bg_state b) = Inr (new_alert 5 7 ''uptime'' ''critical'' ''down'' ''monitoring'' [] [])"
proof -
  obtain b where b: "run alerts_system (idle (fold AddHandler [0] (NewAlertManager GetDefaultThresholds :: nat AlertManager))) ex_calls b"
    using ex_calls_run by blast
  from alert_manager_history [OF b, of "alert_id ''uptime'' 5"] b show ?thesis by (auto simp: ex_calls_def)
qed



end
