(* ===== verification/Int_Sqrt.thy ===== *)
theory Int_Sqrt
  imports Complex_Main Go_Prelude
begin

text \<open>
  The integer square root by binary search. The source holds three copies of it, a method of
  \<open>state.Aggregator\<close>, of \<open>state.Predictor\<close> and of \<open>SyncHookAggregator\<close>, with the same loop.
  The locale \<open>int_sqrt\<close> is what the callers (the standard deviations of prices) rely on: the
  result is the floor of the real square root. Each copy interprets it.
\<close>

function sqrt_loop :: "int \<Rightarrow> int \<Rightarrow> int \<Rightarrow> int \<Rightarrow> int" where
  "sqrt_loop n left right result =
     (if left \<le> right then
        let mid = (left + right) div 2 in
        if mid * mid \<le> n then sqrt_loop n (mid + 1) right mid
        else sqrt_loop n left (mid - 1) result
      else result)"
  by pat_completeness auto
termination
  by (relation "measure (\<lambda>(n, left, right, result). nat (right - left + 1))") auto

declare sqrt_loop.simps [simp del]

definition state_sqrt :: "int \<Rightarrow> int" where
  "state_sqrt n = (if n \<le> 0 then 0 else sqrt_loop n 0 n 0)"

definition predictor_sqrt :: "int \<Rightarrow> int" where
  "predictor_sqrt n = (if n \<le> 0 then 0 else sqrt_loop n 0 n 0)"

definition synchook_sqrt :: "int \<Rightarrow> int" where
  "synchook_sqrt n = (if n \<le> 0 then 0 else sqrt_loop n 0 n 0)"

section \<open>The contract\<close>

lemma square_less_imp: "(a::int) * a < b * b \<Longrightarrow> 0 \<le> b \<Longrightarrow> a < b"
  by (rule power2_less_imp_less) (simp_all add: power2_eq_square)

locale int_sqrt =
  fixes sq :: "int \<Rightarrow> int"
  assumes sq_nonpos: "n \<le> 0 \<Longrightarrow> sq n = 0"
    and sq_nonneg: "0 \<le> sq n"
    and sq_lower: "0 \<le> n \<Longrightarrow> sq n * sq n \<le> n"
    and sq_upper: "0 \<le> n \<Longrightarrow> n < (sq n + 1) * (sq n + 1)"
begin

lemma sq_unique:
  assumes "0 \<le> s" and "s * s \<le> n" and "n < (s + 1) * (s + 1)"
  shows "sq n = s"
proof -
  have n: "0 \<le> n" using assms(1,2) by (meson mult_nonneg_nonneg order_trans)
  have "s * s < (sq n + 1) * (sq n + 1)" "sq n * sq n < (s + 1) * (s + 1)"
    using sq_lower [OF n] sq_upper [OF n] assms by linarith+
  then have "s < sq n + 1" "sq n < s + 1"
    using sq_nonneg [of n] assms(1) by (auto dest: square_less_imp simp del: zless_add1_eq)
  then show ?thesis by simp
qed

lemma sq_square: "0 \<le> s \<Longrightarrow> sq (s * s) = s"
  by (rule sq_unique) (simp_all add: algebra_simps)

lemma sq_mono: "m \<le> n \<Longrightarrow> sq m \<le> sq n"
proof (cases "0 \<le> m")
  case True
  assume le: "m \<le> n"
  have "sq m * sq m < (sq n + 1) * (sq n + 1)"
    using sq_lower [OF True] sq_upper [of n] True le by linarith
  then have "sq m < sq n + 1"
    using sq_nonneg [of n] by (auto dest: square_less_imp simp del: zless_add1_eq)
  then show ?thesis by simp
qed (simp add: sq_nonpos sq_nonneg)

lemma sq_zero_iff: "sq n = 0 \<longleftrightarrow> n \<le> 0"
proof
  assume "sq n = 0"
  then show "n \<le> 0" using sq_upper [of n] by (cases "0 \<le> n") auto
qed (rule sq_nonpos)

lemma sq_less_iff: "0 \<le> t \<Longrightarrow> sq n < t \<longleftrightarrow> 0 < t \<and> n < t * t"
proof -
  assume t: "0 \<le> t"
  have "sq n < t" if "0 < t" "n < t * t"
  proof (rule ccontr)
    assume "\<not> sq n < t"
    with \<open>0 < t\<close> have "0 < n" by (metis linorder_not_le sq_nonpos)
    from \<open>\<not> sq n < t\<close> have "t * t \<le> sq n * sq n" using t by (intro mult_mono) auto
    with that sq_lower [of n] \<open>0 < n\<close> show False by linarith
  qed
  moreover have "n < t * t" if "sq n < t"
  proof (cases "0 \<le> n")
    case True
    have "(sq n + 1) * (sq n + 1) \<le> t * t" using that sq_nonneg [of n] by (intro mult_mono) auto
    with sq_upper [OF True] show ?thesis by linarith
  next
    case False
    then show ?thesis by (meson linorder_not_le order_less_le_trans zero_le_square)
  qed
  ultimately show ?thesis using sq_nonneg [of n] by auto
qed

lemma sq_floor_sqrt: "0 \<le> n \<Longrightarrow> sq n = \<lfloor>sqrt (real_of_int n)\<rfloor>"
proof (rule floor_unique [symmetric])
  assume n: "0 \<le> n"
  have "real_of_int (sq n * sq n) \<le> real_of_int n"
    using sq_lower [OF n] by (simp only: of_int_le_iff)
  then show "real_of_int (sq n) \<le> sqrt (real_of_int n)"
    by (intro real_le_rsqrt) (simp add: power2_eq_square)
  have "real_of_int n < real_of_int ((sq n + 1) * (sq n + 1))"
    using sq_upper [OF n] by (simp only: of_int_less_iff)
  then show "sqrt (real_of_int n) < real_of_int (sq n) + 1"
    using sq_nonneg [of n] by (intro real_less_lsqrt) (simp_all add: power2_eq_square)
qed

end

section \<open>The loop meets it\<close>

text \<open>Invariant of the search: the root is at least \<open>result\<close>, below \<open>right + 1\<close>, and \<open>result\<close>
  trails \<open>left\<close> by one once it has been set.\<close>

lemma sqrt_loop_correct:
  assumes "0 \<le> left" and "0 \<le> result" and "left \<le> right + 1"
    and "result * result \<le> n" and "n < (right + 1) * (right + 1)"
    and "left = result + 1 \<or> left = 0 \<and> result = 0 \<and> left \<le> right"
  shows "0 \<le> sqrt_loop n left right result \<and>
     sqrt_loop n left right result * sqrt_loop n left right result \<le> n \<and>
     n < (sqrt_loop n left right result + 1) * (sqrt_loop n left right result + 1)"
  using assms
proof (induction n left right result rule: sqrt_loop.induct)
  case (1 n left right result)
  let ?mid = "(left + right) div 2"
  show ?case
  proof (cases "left \<le> right")
    case le: True
    then have mid: "left \<le> ?mid" "?mid \<le> right" "0 \<le> ?mid" using "1.prems"(1) by linarith+
    show ?thesis
    proof (cases "?mid * ?mid \<le> n")
      case True
      with "1.IH"(1) [OF le refl] "1.prems" mid le show ?thesis
        by (subst (1 2 3 4 5) sqrt_loop.simps) (simp add: Let_def)
    next
      case False
      have "?mid \<noteq> 0" using False "1.prems"(2,4) by (metis mult_zero_left order_trans zero_le_square)
      with False "1.IH"(2) [OF le refl] "1.prems" mid le show ?thesis
        by (subst (1 2 3 4 5) sqrt_loop.simps) (auto simp: Let_def)
    qed
  next
    case False
    then have "right + 1 = result + 1" using "1.prems"(3,6) by auto
    with False "1.prems" show ?thesis by (subst (1 2 3 4 5) sqrt_loop.simps) simp
  qed
qed

lemma sqrt_loop_start:
  assumes "0 < n"
  shows "0 \<le> sqrt_loop n 0 n 0 \<and> sqrt_loop n 0 n 0 * sqrt_loop n 0 n 0 \<le> n \<and>
     n < (sqrt_loop n 0 n 0 + 1) * (sqrt_loop n 0 n 0 + 1)"
proof (rule sqrt_loop_correct)
  have "n + 1 \<le> (n + 1) * (n + 1)" using assms by (simp add: algebra_simps)
  then show "n < (n + 1) * (n + 1)" by simp
qed (use assms in simp_all)

lemmas sqrt_defs = state_sqrt_def predictor_sqrt_def synchook_sqrt_def

interpretation state_sq: int_sqrt state_sqrt
  by unfold_locales (use sqrt_loop_start in \<open>auto simp: sqrt_defs\<close>)

interpretation predictor_sq: int_sqrt predictor_sqrt
  by unfold_locales (use sqrt_loop_start in \<open>auto simp: sqrt_defs\<close>)

interpretation synchook_sq: int_sqrt synchook_sqrt
  by unfold_locales (use sqrt_loop_start in \<open>auto simp: sqrt_defs\<close>)

end
