(* ===== verification/State_Aggregator.thy ===== *)
theory State_Aggregator
  imports Go_Map Go_Strings Go_Time Int_Sqrt
begin

text \<open>
  The state aggregator of an operator, \<^verbatim>\<open>pkg/state/aggregator.go\<close>: the pool states reported
  per chain, and the global figures (total liquidity, liquidity-weighted average price, standard
  deviation of the prices, latest block) recomputed on every report. Every method runs under the
  aggregator's mutex, so a method is one state transition. A method that returns an error has
  still written what it wrote before: the model returns the state and the error together.
  Readings of the clock are arguments.
\<close>

section \<open>Data\<close>

record PoolState =
  ps_ChainID :: u32
  ps_TotalLiquidity :: bigptr
  ps_Price :: bigptr
  ps_Volume24h :: bigptr
  ps_Fees24h :: bigptr
  ps_Timestamp :: u64
  ps_BlockNumber :: u64
  ps_LastUpdated :: gotime

record GlobalPoolState =
  gps_PoolID :: string
  gps_TotalLiquidity :: bigptr
  gps_AveragePrice :: bigptr
  gps_ImbalanceScore :: bigptr
  gps_LastUpdateBlock :: u64
  gps_ChainStates :: "(u32, PoolState) gomap"
  gps_LastUpdated :: gotime

record AggregatedMetrics =
  am_TotalLiquidity :: bigptr
  am_AveragePrice :: bigptr
  am_PriceVariance :: bigptr
  am_LiquidityImbalance :: bigptr
  am_Volume24h :: bigptr
  am_Fees24h :: bigptr
  am_ActiveChains :: u32

record Aggregator =
  agg_poolStates :: "(string, GlobalPoolState) gomap"

definition NewAggregator :: Aggregator where
  "NewAggregator = \<lparr>agg_poolStates = []\<rparr>"

definition newGlobalPoolState :: "string \<Rightarrow> GlobalPoolState" where
  "newGlobalPoolState poolID = \<lparr>gps_PoolID = poolID, gps_TotalLiquidity = None,
     gps_AveragePrice = None, gps_ImbalanceScore = None, gps_LastUpdateBlock = 0,
     gps_ChainStates = [], gps_LastUpdated = zero_time\<rparr>"

section \<open>Operations\<close>

definition sumTotalLiquidity :: "PoolState list \<Rightarrow> int go" where
  "sumTotalLiquidity states =
     for_range (\<lambda>total s. go_bind (deref (ps_TotalLiquidity s)) (\<lambda>l. Inr (total + l))) 0 states"

definition sumWeightedPrices :: "PoolState list \<Rightarrow> (int \<times> int) go" where
  "sumWeightedPrices states =
     for_range (\<lambda>(totalWeight, weightedPriceSum) s.
         go_bind (deref (ps_TotalLiquidity s)) (\<lambda>weight.
         go_bind (deref (ps_Price s)) (\<lambda>price.
         Inr (totalWeight + weight, weightedPriceSum + price * weight)))) (0, 0) states"

definition sumSquaredDiffs :: "bigptr \<Rightarrow> bigptr list \<Rightarrow> int go" where
  "sumSquaredDiffs mean prices =
     for_range (\<lambda>variance p. go_bind (deref p) (\<lambda>price. go_bind (deref mean) (\<lambda>m.
         Inr (variance + (price - m) * (price - m))))) 0 prices"

definition sumDeviations :: "int \<Rightarrow> PoolState list \<Rightarrow> int go" where
  "sumDeviations expected states =
     for_range (\<lambda>total s. go_bind (deref (ps_TotalLiquidity s)) (\<lambda>l.
         let deviation = l - expected in
         Inr (total + (if deviation < 0 then - deviation else deviation)))) 0 states"

definition latestBlock :: "PoolState list \<Rightarrow> u64" where
  "latestBlock states =
     fold (\<lambda>s latest. if latest < ps_BlockNumber s then ps_BlockNumber s else latest) states 0"

definition calculateWeightedAveragePrice ::
  "(u32, PoolState) gomap \<Rightarrow> GlobalPoolState \<Rightarrow> (GlobalPoolState \<times> error option) go" where
  "calculateWeightedAveragePrice chainStates gs =
     (if chainStates = [] then Inr (gs, Some ''no chain states available'')
      else go_bind (sumWeightedPrices (map_vals chainStates)) (\<lambda>(totalWeight, weightedPriceSum).
        if totalWeight = 0 then Inr (gs, Some ''total weight is zero'')
        else go_bind (big_Div weightedPriceSum totalWeight) (\<lambda>q.
          Inr (gs\<lparr>gps_AveragePrice := Some q\<rparr>, None))))"

definition calculateImbalanceScore ::
  "(u32, PoolState) gomap \<Rightarrow> GlobalPoolState \<Rightarrow> (GlobalPoolState \<times> error option) go" where
  "calculateImbalanceScore chainStates gs =
     (if length chainStates < 2 then Inr (gs\<lparr>gps_ImbalanceScore := Some 0\<rparr>, None)
      else let prices = map ps_Price (map_vals chainStates) in
        go_bind (sumSquaredDiffs (gps_AveragePrice gs) prices) (\<lambda>variance.
        go_bind (big_Div variance (int (length prices))) (\<lambda>v.
          Inr (gs\<lparr>gps_ImbalanceScore := Some (state_sqrt v)\<rparr>, None))))"

definition recalculateGlobalMetrics :: "GlobalPoolState \<Rightarrow> (GlobalPoolState \<times> error option) go" where
  "recalculateGlobalMetrics gs =
     (let chainStates = gps_ChainStates gs in
      if chainStates = [] then Inr (gs, Some ''no chain states available'')
      else go_bind (sumTotalLiquidity (map_vals chainStates)) (\<lambda>totalLiquidity.
        go_bind (calculateWeightedAveragePrice chainStates (gs\<lparr>gps_TotalLiquidity := Some totalLiquidity\<rparr>))
          (\<lambda>(gs1, err). case err of
             Some e \<Rightarrow> Inr (gs1, Some (''failed to calculate weighted average price: '' @ e))
           | None \<Rightarrow> go_bind (calculateImbalanceScore chainStates gs1) (\<lambda>(gs2, err2). case err2 of
               Some e \<Rightarrow> Inr (gs2, Some (''failed to calculate imbalance score: '' @ e))
             | None \<Rightarrow> Inr (gs2\<lparr>gps_LastUpdateBlock := latestBlock (map_vals chainStates)\<rparr>, None)))))"

definition UpdatePoolState ::
  "gotime \<Rightarrow> gotime \<Rightarrow> string \<Rightarrow> u32 \<Rightarrow> PoolState \<Rightarrow> Aggregator \<Rightarrow> (Aggregator \<times> error option) go" where
  "UpdatePoolState now1 now2 poolID chainID state a =
     (let gs = (case map_get (agg_poolStates a) poolID of
                  None \<Rightarrow> newGlobalPoolState poolID | Some g \<Rightarrow> g);
          gs1 = gs\<lparr>gps_ChainStates := map_put chainID (state\<lparr>ps_LastUpdated := now1\<rparr>) (gps_ChainStates gs),
                   gps_LastUpdated := now2\<rparr>
      in go_bind (recalculateGlobalMetrics gs1) (\<lambda>(gs2, err).
        Inr (a\<lparr>agg_poolStates := map_put poolID gs2 (agg_poolStates a)\<rparr>,
             map_option (\<lambda>e. ''failed to recalculate global metrics: '' @ e) err)))"

definition GetGlobalPoolState :: "string \<Rightarrow> Aggregator \<Rightarrow> error + GlobalPoolState" where
  "GetGlobalPoolState poolID a = (case map_get (agg_poolStates a) poolID of
       None \<Rightarrow> Inl (''pool state not found: '' @ poolID)
     | Some g \<Rightarrow> Inr g)"

definition GetAllPoolStates :: "Aggregator \<Rightarrow> (string, GlobalPoolState) gomap" where
  "GetAllPoolStates a = fold (\<lambda>(poolID, state) result. map_put poolID state result) (agg_poolStates a) []"

definition calculatePriceVariance ::
  "GlobalPoolState \<Rightarrow> AggregatedMetrics \<Rightarrow> (AggregatedMetrics \<times> error option) go" where
  "calculatePriceVariance gs m =
     (let chainStates = gps_ChainStates gs in
      if length chainStates < 2 then Inr (m\<lparr>am_PriceVariance := Some 0\<rparr>, None)
      else go_bind (sumSquaredDiffs (gps_AveragePrice gs) (map ps_Price (map_vals chainStates))) (\<lambda>variance.
        go_bind (big_Div variance (int (length chainStates))) (\<lambda>v.
          Inr (m\<lparr>am_PriceVariance := Some v\<rparr>, None))))"

definition calculateLiquidityImbalance ::
  "GlobalPoolState \<Rightarrow> AggregatedMetrics \<Rightarrow> (AggregatedMetrics \<times> error option) go" where
  "calculateLiquidityImbalance gs m =
     (let chainStates = gps_ChainStates gs in
      if length chainStates < 2 then Inr (m\<lparr>am_LiquidityImbalance := Some 0\<rparr>, None)
      else go_bind (deref (gps_TotalLiquidity gs)) (\<lambda>totalLiquidity.
        go_bind (big_Div totalLiquidity (int (length chainStates))) (\<lambda>expectedLiquidityPerChain.
        go_bind (sumDeviations expectedLiquidityPerChain (map_vals chainStates)) (\<lambda>totalDeviation.
        go_bind (big_Div (totalDeviation * 100) totalLiquidity) (\<lambda>imbalance.
          Inr (m\<lparr>am_LiquidityImbalance := Some imbalance\<rparr>, None))))))"

definition calculate24hMetrics ::
  "GlobalPoolState \<Rightarrow> AggregatedMetrics \<Rightarrow> (AggregatedMetrics \<times> error option) go" where
  "calculate24hMetrics gs m =
     go_bind (for_range (\<lambda>(volume, fees) s.
         go_bind (deref (ps_Volume24h s)) (\<lambda>v. go_bind (deref (ps_Fees24h s)) (\<lambda>f.
           Inr (volume + v, fees + f)))) (0, 0) (map_vals (gps_ChainStates gs)))
       (\<lambda>(volume, fees). Inr (m\<lparr>am_Volume24h := Some volume, am_Fees24h := Some fees\<rparr>, None))"

definition CalculateAggregatedMetrics :: "string \<Rightarrow> Aggregator \<Rightarrow> (error + AggregatedMetrics) go" where
  "CalculateAggregatedMetrics poolID a = (case map_get (agg_poolStates a) poolID of
       None \<Rightarrow> Inr (Inl (''pool state not found: '' @ poolID))
     | Some gs \<Rightarrow>
        let m0 = \<lparr>am_TotalLiquidity = gps_TotalLiquidity gs, am_AveragePrice = gps_AveragePrice gs,
                  am_PriceVariance = None, am_LiquidityImbalance = None, am_Volume24h = None,
                  am_Fees24h = None, am_ActiveChains = word_of_nat (length (gps_ChainStates gs))\<rparr>
        in go_bind (calculatePriceVariance gs m0) (\<lambda>(m1, err1). case err1 of
             Some e \<Rightarrow> Inr (Inl (''failed to calculate price variance: '' @ e))
           | None \<Rightarrow> go_bind (calculateLiquidityImbalance gs m1) (\<lambda>(m2, err2). case err2 of
               Some e \<Rightarrow> Inr (Inl (''failed to calculate liquidity imbalance: '' @ e))
             | None \<Rightarrow> go_bind (calculate24hMetrics gs m2) (\<lambda>(m3, err3). case err3 of
                 Some e \<Rightarrow> Inr (Inl (''failed to calculate 24h metrics: '' @ e))
               | None \<Rightarrow> Inr (Inr m3)))))"

section \<open>The figures the loops compute\<close>

text \<open>The reference quantities, on pool states whose numbers are all set.\<close>

definition ps_wf :: "PoolState \<Rightarrow> bool" where
  "ps_wf s \<longleftrightarrow> ps_TotalLiquidity s \<noteq> None \<and> ps_Price s \<noteq> None \<and>
     ps_Volume24h s \<noteq> None \<and> ps_Fees24h s \<noteq> None"

definition liq :: "PoolState \<Rightarrow> int" where
  "liq s = the (ps_TotalLiquidity s)"

definition price :: "PoolState \<Rightarrow> int" where
  "price s = the (ps_Price s)"

definition total_liq :: "PoolState list \<Rightarrow> int" where
  "total_liq ss = sum_list (map liq ss)"

definition total_value :: "PoolState list \<Rightarrow> int" where
  "total_value ss = sum_list (map (\<lambda>s. price s * liq s) ss)"

definition sq_diffs :: "int \<Rightarrow> PoolState list \<Rightarrow> int" where
  "sq_diffs m ss = sum_list (map (\<lambda>s. (price s - m) * (price s - m)) ss)"

definition abs_dev :: "int \<Rightarrow> PoolState list \<Rightarrow> int" where
  "abs_dev e ss = sum_list (map (\<lambda>s. \<bar>liq s - e\<bar>) ss)"

definition avg_price :: "PoolState list \<Rightarrow> int" where
  "avg_price ss = euclid_div (total_value ss) (total_liq ss)"

definition imbalance_score :: "int \<Rightarrow> PoolState list \<Rightarrow> int" where
  "imbalance_score m ss =
     (if length ss < 2 then 0 else state_sqrt (sq_diffs m ss div int (length ss)))"

lemma ps_wf_fields:
  assumes "ps_wf s"
  shows "ps_TotalLiquidity s = Some (liq s)" and "ps_Price s = Some (price s)"
  using assms by (auto simp: ps_wf_def liq_def price_def)

lemma ps_wf_LastUpdated [simp]: "ps_wf (s\<lparr>ps_LastUpdated := t\<rparr>) = ps_wf s"
  and liq_LastUpdated [simp]: "liq (s\<lparr>ps_LastUpdated := t\<rparr>) = liq s"
  and price_LastUpdated [simp]: "price (s\<lparr>ps_LastUpdated := t\<rparr>) = price s"
  by (simp_all add: ps_wf_def liq_def price_def)

lemma sumTotalLiquidity_wf:
  assumes "\<forall>s \<in> set ss. ps_wf s"
  shows "sumTotalLiquidity ss = Inr (total_liq ss)"
proof -
  have "sumTotalLiquidity ss = Inr (fold (\<lambda>s total. total + liq s) ss 0)"
    unfolding sumTotalLiquidity_def by (rule for_range_total) (use assms in \<open>auto simp: ps_wf_fields\<close>)
  then show ?thesis by (simp add: fold_plus_sum total_liq_def)
qed

lemma sumWeightedPrices_wf:
  assumes "\<forall>s \<in> set ss. ps_wf s"
  shows "sumWeightedPrices ss = Inr (total_liq ss, total_value ss)"
proof -
  have "sumWeightedPrices ss = Inr (fold (\<lambda>s (a, b). (a + liq s, b + price s * liq s)) ss (0, 0))"
    unfolding sumWeightedPrices_def by (rule for_range_total) (use assms in \<open>auto simp: ps_wf_fields\<close>)
  then show ?thesis by (simp add: fold_plus2_sum total_liq_def total_value_def)
qed

lemma sumSquaredDiffs_wf:
  assumes "\<forall>s \<in> set ss. ps_wf s"
  shows "sumSquaredDiffs (Some m) (map ps_Price ss) = Inr (sq_diffs m ss)"
proof -
  have prices: "map ps_Price ss = map (\<lambda>s. Some (price s)) ss"
    using assms by (simp add: ps_wf_fields)
  have "sumSquaredDiffs (Some m) (map Some ps) =
      Inr (fold (\<lambda>p v. v + (the p - m) * (the p - m)) (map Some ps) 0)" for ps
    unfolding sumSquaredDiffs_def by (rule for_range_total) auto
  from this [of "map price ss"] show ?thesis
    by (simp add: prices fold_plus_sum sq_diffs_def comp_def)
qed

lemma sumDeviations_wf:
  assumes "\<forall>s \<in> set ss. ps_wf s"
  shows "sumDeviations e ss = Inr (abs_dev e ss)"
proof -
  have "sumDeviations e ss = Inr (fold (\<lambda>s total. total + \<bar>liq s - e\<bar>) ss 0)"
    unfolding sumDeviations_def
    by (rule for_range_total) (use assms in \<open>auto simp: ps_wf_fields Let_def\<close>)
  then show ?thesis by (simp add: fold_plus_sum abs_dev_def)
qed

lemmas loops_wf = sumTotalLiquidity_wf sumWeightedPrices_wf sumSquaredDiffs_wf sumDeviations_wf

lemma latestBlock_ge: "s \<in> set ss \<Longrightarrow> ps_BlockNumber s \<le> latestBlock ss"
  and latestBlock_in: "latestBlock ss = 0 \<or> latestBlock ss \<in> ps_BlockNumber ` set ss"
proof -
  let ?f = "\<lambda>s latest. if latest < ps_BlockNumber s then ps_BlockNumber s else latest"
  have acc: "b \<le> fold ?f xs b" for b xs
    by (induction xs arbitrary: b) (auto intro: order_trans less_imp_le)
  have "s \<in> set xs \<Longrightarrow> ps_BlockNumber s \<le> fold ?f xs b" for b xs
    by (induction xs arbitrary: b) (auto intro: order_trans [OF _ acc] simp: not_less)
  then show "s \<in> set ss \<Longrightarrow> ps_BlockNumber s \<le> latestBlock ss"
    by (simp add: latestBlock_def)
  have "fold ?f xs b = b \<or> fold ?f xs b \<in> ps_BlockNumber ` set xs" for b xs
    by (induction xs arbitrary: b) auto
  then show "latestBlock ss = 0 \<or> latestBlock ss \<in> ps_BlockNumber ` set ss"
    by (simp add: latestBlock_def)
qed

section \<open>Recalculation\<close>

text \<open>What a successful recalculation writes.\<close>

definition recalculated :: "GlobalPoolState \<Rightarrow> GlobalPoolState" where
  "recalculated gs = (let ss = map_vals (gps_ChainStates gs) in
     gs\<lparr>gps_TotalLiquidity := Some (total_liq ss),
        gps_AveragePrice := Some (avg_price ss),
        gps_ImbalanceScore := Some (imbalance_score (avg_price ss) ss),
        gps_LastUpdateBlock := latestBlock ss\<rparr>)"

definition zero_weight_error :: error where
  "zero_weight_error = ''failed to calculate weighted average price: total weight is zero''"

lemma recalculateGlobalMetrics_wf:
  assumes "gps_ChainStates gs \<noteq> []" and wf: "\<forall>s \<in> set (map_vals (gps_ChainStates gs)). ps_wf s"
  shows "recalculateGlobalMetrics gs =
     (if total_liq (map_vals (gps_ChainStates gs)) = 0
      then Inr (gs\<lparr>gps_TotalLiquidity := Some 0\<rparr>, Some zero_weight_error)
      else Inr (recalculated gs, None))"
proof -
  let ?ss = "map_vals (gps_ChainStates gs)"
  have "length (gps_ChainStates gs) = length ?ss" by simp
  then show ?thesis
    using assms
    by (simp add: recalculateGlobalMetrics_def calculateWeightedAveragePrice_def
        calculateImbalanceScore_def loops_wf recalculated_def avg_price_def imbalance_score_def
        zero_weight_error_def Let_def)
qed

text \<open>The reports of a pool, and what holds of its global state between two calls. When the
  liquidities cancel to zero the other figures keep their earlier values.\<close>

definition gps_inv :: "GlobalPoolState \<Rightarrow> bool" where
  "gps_inv gs \<longleftrightarrow> map_ok (gps_ChainStates gs) \<and> gps_ChainStates gs \<noteq> [] \<and>
     (\<forall>s \<in> set (map_vals (gps_ChainStates gs)). ps_wf s) \<and>
     gps_TotalLiquidity gs = Some (total_liq (map_vals (gps_ChainStates gs))) \<and>
     (total_liq (map_vals (gps_ChainStates gs)) \<noteq> 0 \<longrightarrow> recalculated gs = gs)"

definition agg_inv :: "Aggregator \<Rightarrow> bool" where
  "agg_inv a \<longleftrightarrow> map_ok (agg_poolStates a) \<and>
     (\<forall>k g. map_get (agg_poolStates a) k = Some g \<longrightarrow> gps_inv g \<and> gps_PoolID g = k)"

lemma agg_inv_new: "agg_inv NewAggregator"
  by (simp add: agg_inv_def NewAggregator_def)

lemma gps_inv_recalculated:
  assumes "map_ok (gps_ChainStates gs)" "gps_ChainStates gs \<noteq> []"
    and "\<forall>s \<in> set (map_vals (gps_ChainStates gs)). ps_wf s"
  shows "gps_inv (recalculated gs)"
    and "total_liq (map_vals (gps_ChainStates gs)) = 0 \<Longrightarrow> gps_inv (gs\<lparr>gps_TotalLiquidity := Some 0\<rparr>)"
  using assms by (simp_all add: gps_inv_def recalculated_def Let_def)

text \<open>The chain states of a pool after a report, and the pool's state the report acts on.\<close>

definition reported :: "gotime \<Rightarrow> string \<Rightarrow> u32 \<Rightarrow> PoolState \<Rightarrow> Aggregator \<Rightarrow> (u32, PoolState) gomap" where
  "reported now1 poolID chainID state a =
     map_put chainID (state\<lparr>ps_LastUpdated := now1\<rparr>)
       (case map_get (agg_poolStates a) poolID of None \<Rightarrow> [] | Some g \<Rightarrow> gps_ChainStates g)"

definition pool_or_new :: "string \<Rightarrow> Aggregator \<Rightarrow> GlobalPoolState" where
  "pool_or_new poolID a =
     (case map_get (agg_poolStates a) poolID of None \<Rightarrow> newGlobalPoolState poolID | Some g \<Rightarrow> g)"

lemma reported_wf:
  assumes "agg_inv a" and "ps_wf state"
  shows "map_ok (reported now1 poolID chainID state a)"
    and "\<forall>s \<in> set (map_vals (reported now1 poolID chainID state a)). ps_wf s"
proof -
  let ?m = "case map_get (agg_poolStates a) poolID of None \<Rightarrow> [] | Some g \<Rightarrow> gps_ChainStates g"
  have m: "map_ok ?m" "\<forall>s \<in> set (map_vals ?m). ps_wf s"
    using assms(1) by (auto simp: agg_inv_def gps_inv_def split: option.splits)
  then show "map_ok (reported now1 poolID chainID state a)"
    by (simp add: reported_def gm.ok_put)
  show "\<forall>s \<in> set (map_vals (reported now1 poolID chainID state a)). ps_wf s"
    unfolding reported_def by (rule gm.vals_put_all) (use m assms(2) in simp_all)
qed

text \<open>The whole report, on every branch.\<close>

lemma UpdatePoolState_wf:
  fixes now1 now2 :: gotime and poolID :: string and chainID :: u32
  assumes "agg_inv a" and "ps_wf state"
  defines "cs \<equiv> reported now1 poolID chainID state a"
  defines "g \<equiv> (pool_or_new poolID a)\<lparr>gps_ChainStates := cs, gps_LastUpdated := now2\<rparr>"
  shows "UpdatePoolState now1 now2 poolID chainID state a =
     (if total_liq (map_vals cs) = 0
      then Inr (a\<lparr>agg_poolStates := map_put poolID (g\<lparr>gps_TotalLiquidity := Some 0\<rparr>) (agg_poolStates a)\<rparr>,
                Some (''failed to recalculate global metrics: '' @ zero_weight_error))
      else Inr (a\<lparr>agg_poolStates := map_put poolID (recalculated g) (agg_poolStates a)\<rparr>, None))"
proof -
  have cs: "(case map_get (agg_poolStates a) poolID of None \<Rightarrow> newGlobalPoolState poolID | Some g \<Rightarrow> g)
      \<lparr>gps_ChainStates := map_put chainID (state\<lparr>ps_LastUpdated := now1\<rparr>)
        (gps_ChainStates (case map_get (agg_poolStates a) poolID of None \<Rightarrow> newGlobalPoolState poolID | Some g \<Rightarrow> g)),
       gps_LastUpdated := now2\<rparr> = g"
    by (simp add: g_def cs_def reported_def pool_or_new_def newGlobalPoolState_def split: option.split)
  have "gps_ChainStates g \<noteq> []" "\<forall>s \<in> set (map_vals (gps_ChainStates g)). ps_wf s"
    using reported_wf(2) [OF assms(1,2)] by (simp_all add: g_def cs_def reported_def)
  from recalculateGlobalMetrics_wf [OF this] show ?thesis
    unfolding UpdatePoolState_def Let_def cs by (simp add: g_def)
qed

text \<open>A report keeps the invariant and never panics.\<close>

lemma UpdatePoolState_keeps:
  assumes "agg_inv a" and "ps_wf state"
  shows "\<exists>a' err. UpdatePoolState now1 now2 poolID chainID state a = Inr (a', err)"
    and "UpdatePoolState now1 now2 poolID chainID state a = Inr (a', err) \<Longrightarrow> agg_inv a'"
proof -
  let ?cs = "reported now1 poolID chainID state a"
  let ?g = "(pool_or_new poolID a)\<lparr>gps_ChainStates := ?cs, gps_LastUpdated := now2\<rparr>"
  have wf: "map_ok (gps_ChainStates ?g)" "gps_ChainStates ?g \<noteq> []"
    "\<forall>s \<in> set (map_vals (gps_ChainStates ?g)). ps_wf s"
    using reported_wf [OF assms] by (simp_all add: reported_def)
  note inv = gps_inv_recalculated [OF wf]
  have id: "gps_PoolID ?g = poolID"
    using assms(1) by (auto simp: pool_or_new_def newGlobalPoolState_def agg_inv_def split: option.split)
  have put: "agg_inv (a\<lparr>agg_poolStates := map_put poolID g (agg_poolStates a)\<rparr>)"
    if "gps_inv g" "gps_PoolID g = poolID" for g
    using assms(1) that by (auto simp: agg_inv_def gm.ok_put)
  show "\<exists>a' err. UpdatePoolState now1 now2 poolID chainID state a = Inr (a', err)"
    by (simp add: UpdatePoolState_wf [OF assms])
  show "UpdatePoolState now1 now2 poolID chainID state a = Inr (a', err) \<Longrightarrow> agg_inv a'"
    using inv id by (auto simp: UpdatePoolState_wf [OF assms] split: if_splits intro!: put)
      (simp_all add: recalculated_def Let_def)
qed

section \<open>Order of iteration\<close>

lemma sumTotalLiquidity_perm: "mset xs = mset ys \<Longrightarrow> sumTotalLiquidity xs = sumTotalLiquidity ys"
  unfolding sumTotalLiquidity_def
  by (rule for_range_perm) (auto simp: go_bind_def deref_def algebra_simps split: option.split)

lemma sumWeightedPrices_perm: "mset xs = mset ys \<Longrightarrow> sumWeightedPrices xs = sumWeightedPrices ys"
  unfolding sumWeightedPrices_def
  by (rule for_range_perm) (auto simp: go_bind_def deref_def algebra_simps split: option.split)

lemma sumSquaredDiffs_perm: "mset xs = mset ys \<Longrightarrow> sumSquaredDiffs m xs = sumSquaredDiffs m ys"
  unfolding sumSquaredDiffs_def
  by (rule for_range_perm) (auto simp: go_bind_def deref_def algebra_simps split: option.split)

lemma latestBlock_Max: "latestBlock ss = Max (insert 0 (ps_BlockNumber ` set ss))"
proof (rule Max_eqI [symmetric])
  show "latestBlock ss \<in> insert 0 (ps_BlockNumber ` set ss)" using latestBlock_in [of ss] by auto
qed (auto intro: latestBlock_ge)

lemma latestBlock_perm: "mset xs = mset ys \<Longrightarrow> latestBlock xs = latestBlock ys"
  using mset_eq_setD [of xs ys] by (simp add: latestBlock_Max)

section \<open>Arithmetic of the figures\<close>

lemma sum_list_bounds:
  fixes f g :: "'a \<Rightarrow> int"
  shows "(\<And>x. x \<in> set xs \<Longrightarrow> f x \<le> g x) \<Longrightarrow> sum_list (map f xs) \<le> sum_list (map g xs)"
  by (rule sum_list_mono)

lemma sum_list_const_mult: "sum_list (map (\<lambda>x. c * f x) xs) = (c::int) * sum_list (map f xs)"
  by (induction xs) (simp_all add: algebra_simps)

lemma total_value_bounds:
  assumes "\<forall>s \<in> set ss. 0 \<le> liq s" and "\<forall>s \<in> set ss. lo \<le> price s \<and> price s \<le> hi"
  shows "lo * total_liq ss \<le> total_value ss" and "total_value ss \<le> hi * total_liq ss"
  unfolding total_liq_def total_value_def sum_list_const_mult [symmetric]
  using assms by (auto intro!: sum_list_mono mult_right_mono)

lemma avg_price_bounds:
  assumes "\<forall>s \<in> set ss. 0 \<le> liq s" and "0 < total_liq ss"
    and "\<forall>s \<in> set ss. lo \<le> price s \<and> price s \<le> hi"
  shows "lo \<le> avg_price ss \<and> avg_price ss \<le> hi"
proof -
  note b = total_value_bounds [OF assms(1,3)]
  show ?thesis
    using zdiv_mono1 [OF b(1) assms(2)] zdiv_mono1 [OF b(2) assms(2)] assms(2)
    by (simp add: avg_price_def)
qed

lemma sq_diffs_nonneg: "0 \<le> sq_diffs m ss"
  unfolding sq_diffs_def by (rule sum_list_nonneg) auto

lemma sq_diffs_zero: "\<forall>s \<in> set ss. price s = m \<Longrightarrow> sq_diffs m ss = 0"
  unfolding sq_diffs_def by (induction ss) auto

lemma abs_dev_bounds:
  assumes "\<forall>s \<in> set ss. 0 \<le> liq s" and "ss \<noteq> []"
  shows "0 \<le> abs_dev (total_liq ss div int (length ss)) ss"
    and "abs_dev (total_liq ss div int (length ss)) ss \<le> 2 * total_liq ss"
proof -
  let ?e = "total_liq ss div int (length ss)"
  have T: "0 \<le> total_liq ss" unfolding total_liq_def using assms(1) by (intro sum_list_nonneg) auto
  have n: "0 < int (length ss)" using assms(2) by simp
  have e: "0 \<le> ?e" using T n by (simp add: pos_imp_zdiv_nonneg_iff)
  show "0 \<le> abs_dev ?e ss" unfolding abs_dev_def by (rule sum_list_nonneg) auto
  have "abs_dev ?e ss \<le> sum_list (map (\<lambda>s. liq s + ?e) ss)"
    unfolding abs_dev_def using assms(1) e by (intro sum_list_mono) (force simp: abs_le_iff)
  also have "\<dots> = total_liq ss + int (length ss) * ?e"
    by (simp add: sum_list_addf total_liq_def sum_list_triv)
  also have "int (length ss) * ?e \<le> total_liq ss"
    using n pos_mod_sign [of "int (length ss)" "total_liq ss"]
      minus_mod_eq_mult_div [of "total_liq ss" "int (length ss)"] by linarith
  finally show "abs_dev ?e ss \<le> 2 * total_liq ss" by simp
qed

lemma percent_bounds:
  assumes "0 \<le> d" and "d \<le> 2 * t" and "0 < (t::int)"
  shows "0 \<le> d * 100 div t \<and> d * 100 div t \<le> 200"
proof -
  have "d * 100 div t \<le> (200 * t) div t" using assms by (intro zdiv_mono1) auto
  with assms show ?thesis by (simp add: pos_imp_zdiv_nonneg_iff)
qed

section \<open>Properties\<close>

text \<open>C2: A report that leaves a pool with non-zero total liquidity succeeds, and what
  GetGlobalPoolState then returns is exactly the reported chain states with the total liquidity,
  the Euclidean quotient of value by liquidity as average price, the integer standard deviation
  of the prices, the latest block and the time of the report. No other pool changes.\<close>

theorem UpdatePoolState_success:
  assumes "agg_inv a" and "ps_wf state"
    and "total_liq (map_vals (reported now1 poolID chainID state a)) \<noteq> 0"
  shows "\<exists>a' g. UpdatePoolState now1 now2 poolID chainID state a = Inr (a', None) \<and>
     GetGlobalPoolState poolID a' = Inr g \<and>
     gps_ChainStates g = reported now1 poolID chainID state a \<and>
     gps_TotalLiquidity g = Some (total_liq (map_vals (gps_ChainStates g))) \<and>
     gps_AveragePrice g = Some (avg_price (map_vals (gps_ChainStates g))) \<and>
     gps_ImbalanceScore g = Some (imbalance_score (avg_price (map_vals (gps_ChainStates g)))
                                    (map_vals (gps_ChainStates g))) \<and>
     gps_LastUpdateBlock g = latestBlock (map_vals (gps_ChainStates g)) \<and>
     gps_LastUpdated g = now2 \<and>
     (\<forall>p. p \<noteq> poolID \<longrightarrow> GetGlobalPoolState p a' = GetGlobalPoolState p a)"
  using assms
  by (simp add: UpdatePoolState_wf GetGlobalPoolState_def recalculated_def Let_def)

text \<open>C3: The invariant of the aggregator (one entry per pool, its key the pool's own identifier,
  one state per chain, every figure agreeing with the chain states) is preserved by every report
  with its numbers set. Such a report never panics, and it fails exactly when the pool's
  liquidities sum to zero.\<close>

theorem UpdatePoolState_invariant:
  assumes "agg_inv a" and "ps_wf state"
  shows "\<exists>a' err. UpdatePoolState now1 now2 poolID chainID state a = Inr (a', err) \<and> agg_inv a' \<and>
     (err = None \<longleftrightarrow> total_liq (map_vals (reported now1 poolID chainID state a)) \<noteq> 0)"
  using UpdatePoolState_keeps [OF assms, of now1 now2 poolID chainID]
  by (auto simp: UpdatePoolState_wf [OF assms])

text \<open>A report after which the liquidities of the pool sum to zero returns an error, but the
  report itself is stored: the chain state and a total of zero are written, while the average
  price, the imbalance score and the latest block keep the values they had before.\<close>

theorem UpdatePoolState_zero_liquidity:
  assumes "agg_inv a" and "ps_wf state"
    and "total_liq (map_vals (reported now1 poolID chainID state a)) = 0"
  shows "\<exists>a' g. UpdatePoolState now1 now2 poolID chainID state a =
        Inr (a', Some ''failed to recalculate global metrics: failed to calculate weighted average price: total weight is zero'') \<and>
     GetGlobalPoolState poolID a' = Inr g \<and>
     gps_ChainStates g = reported now1 poolID chainID state a \<and>
     gps_TotalLiquidity g = Some 0 \<and>
     gps_AveragePrice g = gps_AveragePrice (pool_or_new poolID a) \<and>
     gps_ImbalanceScore g = gps_ImbalanceScore (pool_or_new poolID a) \<and>
     gps_LastUpdateBlock g = gps_LastUpdateBlock (pool_or_new poolID a)"
  using assms
  by (simp add: UpdatePoolState_wf GetGlobalPoolState_def zero_weight_error_def)

text \<open>The total liquidity moves by exactly the difference between the new report of the chain
  and the report it replaces, if there was one.\<close>

theorem UpdatePoolState_total_delta:
  assumes "agg_inv a" and "ps_wf state"
    and "UpdatePoolState now1 now2 poolID chainID state a = Inr (a', err)"
    and "GetGlobalPoolState poolID a = Inr g" and "GetGlobalPoolState poolID a' = Inr g'"
    and "gps_TotalLiquidity g = Some t"
  shows "gps_TotalLiquidity g' = Some
     (t - (case map_get (gps_ChainStates g) chainID of None \<Rightarrow> 0 | Some s \<Rightarrow> liq s) + liq state)"
proof -
  have g: "map_get (agg_poolStates a) poolID = Some g"
    using assms(4) by (simp add: GetGlobalPoolState_def split: option.splits)
  then have inv: "gps_inv g" using assms(1) by (simp add: agg_inv_def)
  then have t: "t = total_liq (map_vals (gps_ChainStates g))" using assms(6) by (simp add: gps_inv_def)
  have "total_liq (map_vals (reported now1 poolID chainID state a)) =
      t - (case map_get (gps_ChainStates g) chainID of None \<Rightarrow> 0 | Some s \<Rightarrow> liq s) + liq state"
    using inv gm.sum_put [of "gps_ChainStates g" liq chainID "state\<lparr>ps_LastUpdated := now1\<rparr>"]
    by (simp add: reported_def g total_liq_def t gps_inv_def)
  moreover have "gps_TotalLiquidity g' = Some (total_liq (map_vals (reported now1 poolID chainID state a)))"
    using assms(3,5) UpdatePoolState_wf [OF assms(1,2), of now1 now2 poolID chainID]
    by (auto simp: GetGlobalPoolState_def recalculated_def Let_def split: if_splits)
  ultimately show ?thesis by simp
qed

text \<open>The order in which a Go map is ranged over does not matter: two enumerations of the same
  chain states give the same figures, the same error, and the same panic.\<close>

theorem recalculateGlobalMetrics_order:
  assumes "mset cs = mset cs'"
  shows "recalculateGlobalMetrics (gs\<lparr>gps_ChainStates := cs'\<rparr>) =
     go_bind (recalculateGlobalMetrics (gs\<lparr>gps_ChainStates := cs\<rparr>))
       (\<lambda>(g, err). Inr (g\<lparr>gps_ChainStates := cs'\<rparr>, err))"
proof -
  have vals: "mset (map_vals cs') = mset (map_vals cs)" using assms by (simp add: map_vals_def)
  then have prices: "mset (map ps_Price (map_vals cs')) = mset (map ps_Price (map_vals cs))"
    by (simp only: mset_map)
  have len: "length cs' = length cs" using assms mset_eq_length by metis
  have nil: "cs' = [] \<longleftrightarrow> cs = []" using len by (metis length_0_conv)
  note eqs = sumTotalLiquidity_perm [OF vals] sumWeightedPrices_perm [OF vals]
    sumSquaredDiffs_perm [OF prices] latestBlock_perm [OF vals] len nil
  show ?thesis
    by (auto simp: recalculateGlobalMetrics_def calculateWeightedAveragePrice_def Let_def eqs
        calculateImbalanceScore_def go_bind_def split: sum.splits)
qed

text \<open>With no negative liquidity and a positive total, the weighted average price lies between
  the lowest and the highest price reported by a chain.\<close>

theorem calculateWeightedAveragePrice_bounds:
  assumes "\<forall>s \<in> set (map_vals cs). ps_wf s \<and> 0 \<le> liq s \<and> lo \<le> price s \<and> price s \<le> hi"
    and "0 < total_liq (map_vals cs)"
  shows "\<exists>q. calculateWeightedAveragePrice cs gs = Inr (gs\<lparr>gps_AveragePrice := Some q\<rparr>, None) \<and>
     lo \<le> q \<and> q \<le> hi"
proof -
  have "cs \<noteq> []" using assms(2) by (auto simp: total_liq_def)
  moreover have "lo \<le> avg_price (map_vals cs) \<and> avg_price (map_vals cs) \<le> hi"
    using assms by (intro avg_price_bounds) auto
  ultimately show ?thesis
    using assms by (auto simp: calculateWeightedAveragePrice_def sumWeightedPrices_wf avg_price_def)
qed

text \<open>The imbalance score of at least two chains is the floor of the real square root of the
  mean squared distance of the prices from the average price.\<close>

theorem calculateImbalanceScore_stddev:
  assumes "\<forall>s \<in> set (map_vals cs). ps_wf s" and "2 \<le> length cs"
    and "gps_AveragePrice gs = Some m"
  shows "calculateImbalanceScore cs gs = Inr (gs\<lparr>gps_ImbalanceScore :=
     Some \<lfloor>sqrt (real_of_int (sq_diffs m (map_vals cs) div int (length cs)))\<rfloor>\<rparr>, None)"
proof -
  have "0 < int (length cs)" using assms(2) by linarith
  then have n: "int (length cs) \<noteq> 0" "0 \<le> sq_diffs m (map_vals cs) div int (length cs)"
    using sq_diffs_nonneg [of m "map_vals cs"] by (simp_all add: pos_imp_zdiv_nonneg_iff)
  from state_sq.sq_floor_sqrt [OF n(2)] show ?thesis
    using assms n(1) \<open>0 < int (length cs)\<close> by (simp add: calculateImbalanceScore_def sumSquaredDiffs_wf Let_def)
qed

text \<open>Chains that agree on the price give that price as the average and no imbalance.\<close>

theorem UpdatePoolState_price_agreement:
  assumes "agg_inv a" and "ps_wf state"
    and "\<forall>s \<in> set (map_vals (reported now1 poolID chainID state a)). price s = p"
    and "total_liq (map_vals (reported now1 poolID chainID state a)) \<noteq> 0"
  shows "\<exists>a' g. UpdatePoolState now1 now2 poolID chainID state a = Inr (a', None) \<and>
     GetGlobalPoolState poolID a' = Inr g \<and>
     gps_AveragePrice g = Some p \<and> gps_ImbalanceScore g = Some 0"
proof -
  let ?ss = "map_vals (reported now1 poolID chainID state a)"
  have "total_value ?ss = p * total_liq ?ss"
    unfolding total_value_def total_liq_def sum_list_const_mult [symmetric]
    using assms(3) by (intro arg_cong [where f = sum_list] map_cong) auto
  then have avg: "avg_price ?ss = p"
    using assms(4) by (simp add: avg_price_def)
  have "imbalance_score p ?ss = 0"
    using sq_diffs_zero [OF assms(3)] by (simp add: imbalance_score_def state_sq.sq_nonpos)
  with avg assms show ?thesis
    by (simp add: UpdatePoolState_wf GetGlobalPoolState_def recalculated_def Let_def)
qed

text \<open>For a pool that satisfies the invariant, has no negative liquidity and a positive total,
  the aggregated metrics are computed without a panic or an error: the variance is the mean
  squared deviation, the imbalance is a percentage between 0 and 200, the 24 hour figures are
  sums over the chains.\<close>

theorem CalculateAggregatedMetrics_ok:
  assumes "map_get (agg_poolStates a) poolID = Some g" and "gps_inv g"
    and "\<forall>s \<in> set (map_vals (gps_ChainStates g)). 0 \<le> liq s"
    and "0 < total_liq (map_vals (gps_ChainStates g))"
  shows "\<exists>m d. CalculateAggregatedMetrics poolID a = Inr (Inr m) \<and>
     am_TotalLiquidity m = Some (total_liq (map_vals (gps_ChainStates g))) \<and>
     am_AveragePrice m = Some (avg_price (map_vals (gps_ChainStates g))) \<and>
     am_PriceVariance m = Some (if length (gps_ChainStates g) < 2 then 0
        else sq_diffs (avg_price (map_vals (gps_ChainStates g))) (map_vals (gps_ChainStates g))
             div int (length (gps_ChainStates g))) \<and>
     am_LiquidityImbalance m = Some d \<and> 0 \<le> d \<and> d \<le> 200 \<and>
     am_Volume24h m = Some (sum_list (map (\<lambda>s. the (ps_Volume24h s)) (map_vals (gps_ChainStates g)))) \<and>
     am_Fees24h m = Some (sum_list (map (\<lambda>s. the (ps_Fees24h s)) (map_vals (gps_ChainStates g))))"
proof -
  let ?ss = "map_vals (gps_ChainStates g)" and ?n = "int (length (gps_ChainStates g))"
  let ?T = "total_liq ?ss"
  have wf: "\<forall>s \<in> set ?ss. ps_wf s" and T: "gps_TotalLiquidity g = Some ?T" and rec: "recalculated g = g"
    and ne: "?ss \<noteq> []"
    using assms(2,4) by (auto simp: gps_inv_def)
  have avg: "gps_AveragePrice g = Some (avg_price ?ss)"
    using arg_cong [OF rec, of gps_AveragePrice] by (simp add: recalculated_def Let_def)
  have n: "?n \<noteq> 0" "0 < ?n" using ne by simp_all
  have "0 \<le> abs_dev (?T div ?n) ?ss * 100 div ?T \<and> abs_dev (?T div ?n) ?ss * 100 div ?T \<le> 200"
    using abs_dev_bounds [OF assms(3) ne] assms(4) by (intro percent_bounds) simp_all
  moreover have "for_range (\<lambda>(volume, fees) s.
         go_bind (deref (ps_Volume24h s)) (\<lambda>v. go_bind (deref (ps_Fees24h s)) (\<lambda>f.
           Inr (volume + v, fees + f)))) (0, 0) ?ss = Inr (fold (\<lambda>s (volume, fees).
             (volume + the (ps_Volume24h s), fees + the (ps_Fees24h s))) ?ss (0, 0))"
    by (rule for_range_total) (use wf in \<open>auto simp: ps_wf_def\<close>)
  ultimately show ?thesis
    using assms(1,4) n wf
    by (auto simp: CalculateAggregatedMetrics_def calculatePriceVariance_def Let_def T avg loops_wf
        calculateLiquidityImbalance_def calculate24hMetrics_def fold_plus2_sum)
qed

text \<open>When at least two chains of a pool report liquidities that sum to zero, as chains of an
  empty pool do, CalculateAggregatedMetrics panics: it divides by the total liquidity without
  the check that recalculation makes, or it reads an average price that was never set.\<close>

theorem CalculateAggregatedMetrics_zero_panics:
  assumes "map_get (agg_poolStates a) poolID = Some g" and "gps_inv g"
    and "2 \<le> length (gps_ChainStates g)" and "total_liq (map_vals (gps_ChainStates g)) = 0"
  shows "\<exists>p. CalculateAggregatedMetrics poolID a = Inl p"
proof (cases "gps_AveragePrice g")
  case None
  have "sumSquaredDiffs None (map ps_Price (map_vals (gps_ChainStates g))) = Inl NilDeref"
    using assms(2,3) by (cases "map_vals (gps_ChainStates g)") (auto simp: sumSquaredDiffs_def go_bind_def deref_def split: option.split)
  with None assms(1,3) show ?thesis
    by (simp add: CalculateAggregatedMetrics_def calculatePriceVariance_def Let_def)
next
  case (Some m)
  from assms(2) have wf: "\<forall>s \<in> set (map_vals (gps_ChainStates g)). ps_wf s"
    and T: "gps_TotalLiquidity g = Some 0"
    using assms(4) by (auto simp: gps_inv_def)
  have "int (length (gps_ChainStates g)) \<noteq> 0" using assms(3) by linarith
  with Some assms(1,3) wf T show ?thesis
    by (simp add: CalculateAggregatedMetrics_def calculatePriceVariance_def Let_def loops_wf
        calculateLiquidityImbalance_def)
qed

text \<open>GetAllPoolStates copies the map: every pool is found in the copy under its identifier
  with the state GetGlobalPoolState returns, and nothing else is in it.\<close>

theorem GetAllPoolStates_lookup:
  assumes "agg_inv a"
  shows "map_get (GetAllPoolStates a) p =
     (case GetGlobalPoolState p a of Inl e \<Rightarrow> None | Inr g \<Rightarrow> Some g)"
  using assms
  by (simp add: GetAllPoolStates_def GetGlobalPoolState_def agg_inv_def map_get_copy split: option.split)

section \<open>Witnesses\<close>

definition ex_state :: "int \<Rightarrow> int \<Rightarrow> PoolState" where
  "ex_state l p = \<lparr>ps_ChainID = 1, ps_TotalLiquidity = Some l, ps_Price = Some p,
     ps_Volume24h = Some 50, ps_Fees24h = Some 1, ps_Timestamp = 100, ps_BlockNumber = 7,
     ps_LastUpdated = 0\<rparr>"

definition ex_global :: "(u32, PoolState) gomap \<Rightarrow> int \<Rightarrow> bigptr \<Rightarrow> GlobalPoolState" where
  "ex_global cs t avg = \<lparr>gps_PoolID = ''p'', gps_TotalLiquidity = Some t, gps_AveragePrice = avg,
     gps_ImbalanceScore = Some 0, gps_LastUpdateBlock = 7, gps_ChainStates = cs, gps_LastUpdated = 0\<rparr>"

lemma ex_state_facts [simp]:
  "ps_wf (ex_state l p)" "liq (ex_state l p) = l" "price (ex_state l p) = p"
  by (simp_all add: ex_state_def ps_wf_def liq_def price_def)

lemma ex_reported [simp]:
  "reported t ''p'' 1 (ex_state l p) NewAggregator = [(1, (ex_state l p)\<lparr>ps_LastUpdated := t\<rparr>)]"
  by (simp add: reported_def NewAggregator_def go_eval)

lemma total_liq_simps [simp]: "total_liq [] = 0" "total_liq (s # ss) = liq s + total_liq ss"
  by (simp_all add: total_liq_def)

lemma map_vals_Cons [simp]: "map_vals ((k, v) # m) = v # map_vals m"
  by (simp add: map_vals_def)

theorem UpdatePoolState_success_witness:
  "\<exists>a' g. UpdatePoolState 5 6 ''p'' 1 (ex_state 1000 2000) NewAggregator = Inr (a', None) \<and>
     GetGlobalPoolState ''p'' a' = Inr g \<and> gps_TotalLiquidity g = Some 1000"
proof -
  have "total_liq (map_vals (reported 5 ''p'' 1 (ex_state 1000 2000) NewAggregator)) \<noteq> 0" by simp
  from UpdatePoolState_success [OF agg_inv_new _ this, of 6] show ?thesis by fastforce
qed

theorem UpdatePoolState_invariant_witness:
  "\<exists>a' err. UpdatePoolState 5 6 ''p'' 1 (ex_state 0 2000) NewAggregator = Inr (a', err) \<and> agg_inv a' \<and> err \<noteq> None"
  using UpdatePoolState_invariant [OF agg_inv_new, of "ex_state 0 2000" 5 6 "''p''" 1] by auto

theorem UpdatePoolState_zero_liquidity_witness:
  "\<exists>a' g. UpdatePoolState 5 6 ''p'' 1 (ex_state 0 2000) NewAggregator =
        Inr (a', Some ''failed to recalculate global metrics: failed to calculate weighted average price: total weight is zero'') \<and>
     GetGlobalPoolState ''p'' a' = Inr g \<and> gps_TotalLiquidity g = Some 0 \<and> gps_AveragePrice g = None"
proof -
  have "total_liq (map_vals (reported 5 ''p'' 1 (ex_state 0 2000) NewAggregator)) = 0" by simp
  from UpdatePoolState_zero_liquidity [OF agg_inv_new _ this, of 6] show ?thesis
    by (auto simp: pool_or_new_def newGlobalPoolState_def NewAggregator_def)
qed

text \<open>A pool with one report, and the same pool with a second chain.\<close>

definition ex_agg :: "Aggregator" where
  "ex_agg = \<lparr>agg_poolStates = [(''p'', ex_global [(1, ex_state 1000 2000)] 1000 (Some 2000))]\<rparr>"

lemma ex_agg_inv [simp]: "agg_inv ex_agg"
  by (auto simp: agg_inv_def ex_agg_def go_eval ex_global_def gps_inv_def
      recalculated_def avg_price_def imbalance_score_def total_value_def latestBlock_def ex_state_def
      ps_wf_def liq_def price_def)

theorem UpdatePoolState_total_delta_witness:
  "\<exists>a' g'. UpdatePoolState 5 6 ''p'' 1 (ex_state 400 2000) ex_agg = Inr (a', None) \<and>
     GetGlobalPoolState ''p'' a' = Inr g' \<and> gps_TotalLiquidity g' = Some (1000 - 1000 + 400)"
proof -
  have r: "reported 5 ''p'' 1 (ex_state 400 2000) ex_agg = [(1, (ex_state 400 2000)\<lparr>ps_LastUpdated := 5\<rparr>)]"
    by (simp add: reported_def ex_agg_def go_eval ex_global_def)
  obtain a' where u: "UpdatePoolState 5 6 ''p'' 1 (ex_state 400 2000) ex_agg = Inr (a', None)"
    and get: "\<exists>g'. GetGlobalPoolState ''p'' a' = Inr g'"
    using UpdatePoolState_wf [OF ex_agg_inv, where state = "ex_state 400 2000" and ?now1.0 = 5 and
        poolID = "''p''" and chainID = 1 and ?now2.0 = 6]
    by (simp add: r GetGlobalPoolState_def)
  from get obtain g' where g': "GetGlobalPoolState ''p'' a' = Inr g'" ..
  have g: "GetGlobalPoolState ''p'' ex_agg = Inr (ex_global [(1, ex_state 1000 2000)] 1000 (Some 2000))"
    by (simp add: GetGlobalPoolState_def ex_agg_def go_eval)
  from UpdatePoolState_total_delta [OF ex_agg_inv _ u g g', of 1000] u g' show ?thesis
    by (simp add: ex_global_def go_eval)
qed

theorem recalculateGlobalMetrics_order_witness:
  "recalculateGlobalMetrics (ex_global [(2, ex_state 300 11), (1, ex_state 100 10)] 0 None) =
     go_bind (recalculateGlobalMetrics (ex_global [(1, ex_state 100 10), (2, ex_state 300 11)] 0 None))
       (\<lambda>(g, err). Inr (g\<lparr>gps_ChainStates := [(2, ex_state 300 11), (1, ex_state 100 10)]\<rparr>, err))"
  using recalculateGlobalMetrics_order
      [of "[(1, ex_state 100 10), (2, ex_state 300 11)]" "[(2, ex_state 300 11), (1, ex_state 100 10)]"
        "ex_global [] 0 None"]
  by (simp add: ex_global_def)

theorem calculateWeightedAveragePrice_bounds_witness:
  "\<exists>q. calculateWeightedAveragePrice [(1, ex_state 100 10), (2, ex_state 300 20)] (ex_global [] 0 None) =
      Inr ((ex_global [] 0 None)\<lparr>gps_AveragePrice := Some q\<rparr>, None) \<and> 10 \<le> q \<and> q \<le> 20"
  using calculateWeightedAveragePrice_bounds
      [of "[(1, ex_state 100 10), (2, ex_state 300 20)]" 10 20 "ex_global [] 0 None"]
  by simp

theorem calculateImbalanceScore_stddev_witness:
  "calculateImbalanceScore [(1, ex_state 1 10), (2, ex_state 1 20)] (ex_global [] 2 (Some 15)) =
     Inr ((ex_global [] 2 (Some 15))\<lparr>gps_ImbalanceScore := Some \<lfloor>sqrt 25\<rfloor>\<rparr>, None)"
  using calculateImbalanceScore_stddev
      [of "[(1, ex_state 1 10), (2, ex_state 1 20)]" "ex_global [] 2 (Some 15)" 15]
  by (simp add: ex_global_def sq_diffs_def)

theorem UpdatePoolState_price_agreement_witness:
  "\<exists>a' g. UpdatePoolState 5 6 ''p'' 1 (ex_state 1000 2000) NewAggregator = Inr (a', None) \<and>
     GetGlobalPoolState ''p'' a' = Inr g \<and> gps_AveragePrice g = Some 2000 \<and> gps_ImbalanceScore g = Some 0"
  using UpdatePoolState_price_agreement [OF agg_inv_new, of "ex_state 1000 2000" 5 "''p''" 1 2000 6]
  by simp

theorem CalculateAggregatedMetrics_ok_witness:
  "\<exists>m d. CalculateAggregatedMetrics ''p'' ex_agg = Inr (Inr m) \<and>
     am_LiquidityImbalance m = Some d \<and> 0 \<le> d \<and> d \<le> 200"
proof -
  let ?g = "ex_global [(1, ex_state 1000 2000)] 1000 (Some 2000)"
  have g: "map_get (agg_poolStates ex_agg) ''p'' = Some ?g"
    by (simp add: ex_agg_def go_eval)
  moreover have "gps_inv ?g" using ex_agg_inv g by (simp add: agg_inv_def)
  ultimately show ?thesis
    using CalculateAggregatedMetrics_ok [of ex_agg "''p''" ?g] by (auto simp: ex_global_def)
qed

theorem CalculateAggregatedMetrics_zero_panics_witness:
  "\<exists>p. CalculateAggregatedMetrics ''p''
     \<lparr>agg_poolStates = [(''p'', ex_global [(1, ex_state 0 2000), (2, ex_state 0 2000)] 0 None)]\<rparr> = Inl p"
  by (rule CalculateAggregatedMetrics_zero_panics
      [where g = "ex_global [(1, ex_state 0 2000), (2, ex_state 0 2000)] 0 None"])
    (simp_all add: go_eval gps_inv_def ex_global_def)

theorem GetAllPoolStates_lookup_witness:
  "map_get (GetAllPoolStates ex_agg) ''p'' = Some (ex_global [(1, ex_state 1000 2000)] 1000 (Some 2000))"
  using GetAllPoolStates_lookup [OF ex_agg_inv, of "''p''"]
  by (simp add: GetGlobalPoolState_def ex_agg_def go_eval)

end
