(* ===== verification/State_History.thy ===== *)
theory State_History
  imports State_Aggregator Step_Systems
begin

text \<open>
  The state aggregator over time: any sequence of reports to \<open>UpdatePoolState\<close> of
  \<^verbatim>\<open>pkg/state/aggregator.go\<close>, for any pools and chains, in any order, some of them failing. The
  abstract state is the last report of each chain for each pool; every figure a pool shows is a
  function of it, a sum over the chains that reported.
\<close>

section \<open>Reports\<close>

record report =
  rp_now1 :: gotime
  rp_now2 :: gotime
  rp_pool :: string
  rp_chain :: u32
  rp_state :: PoolState

inductive report_step :: "Aggregator \<Rightarrow> report \<Rightarrow> Aggregator \<Rightarrow> bool" where
  reported: "ps_wf (rp_state r) \<Longrightarrow>
    UpdatePoolState (rp_now1 r) (rp_now2 r) (rp_pool r) (rp_chain r) (rp_state r) a = Inr (a', err) \<Longrightarrow> report_step a r a'"

inductive_cases report_stepE: "report_step a r a'"

section \<open>The abstract table\<close>

type_synonym report_table = "string \<Rightarrow> u32 \<Rightarrow> PoolState option"

definition stored :: "report \<Rightarrow> PoolState" where
  "stored r = (rp_state r)\<lparr>ps_LastUpdated := rp_now1 r\<rparr>"

definition enter :: "report \<Rightarrow> report_table \<Rightarrow> report_table" where
  "enter r T = T(rp_pool r := (T (rp_pool r))(rp_chain r \<mapsto> stored r))"

text \<open>The last report of a chain for a pool, as the aggregator keeps it.\<close>

definition last_report :: "report list \<Rightarrow> report_table" where
  "last_report rs p c = map_option stored (find (\<lambda>r. rp_pool r = p \<and> rp_chain r = c) (rev rs))"

definition table_of :: "Aggregator \<Rightarrow> report_table" where
  "table_of a p c = Option.bind (map_get (agg_poolStates a) p) (\<lambda>g. map_get (gps_ChainStates g) c)"

lemma fold_enter: "fold enter rs (\<lambda>p c. None) = last_report rs"
  by (induction rs rule: rev_induct) (auto simp: last_report_def enter_def fun_eq_iff)

lemma last_report_from: "last_report rs p c = Some s \<Longrightarrow> \<exists>r \<in> set rs. s = stored r"
proof -
  assume "last_report rs p c = Some s"
  then obtain i where "i < length (rev rs)" "s = stored (rev rs ! i)" by (auto simp: last_report_def find_Some_iff)
  then show ?thesis using nth_mem [of i "rev rs"] by auto
qed

lemma UpdatePoolState_chains:
  assumes "agg_inv a" and "ps_wf s" and "UpdatePoolState n1 n2 p c s a = Inr (a', err)"
  shows "\<exists>g. map_get (agg_poolStates a') p = Some g \<and> gps_ChainStates g = reported n1 p c s a \<and> gps_LastUpdated g = n2"
    and "q \<noteq> p \<Longrightarrow> map_get (agg_poolStates a') q = map_get (agg_poolStates a) q"
    and "err = None \<longleftrightarrow> total_liq (map_vals (reported n1 p c s a)) \<noteq> 0"
  using assms(3) by (auto simp: UpdatePoolState_wf [OF assms(1,2)] recalculated_def Let_def split: if_splits)

lemma table_of_update:
  assumes "agg_inv a" and "ps_wf (rp_state r)"
    and "UpdatePoolState (rp_now1 r) (rp_now2 r) (rp_pool r) (rp_chain r) (rp_state r) a = Inr (a', err)"
  shows "table_of a' = enter r (table_of a)"
proof (intro ext)
  fix p c
  note u = UpdatePoolState_chains [OF assms]
  show "table_of a' p c = enter r (table_of a) p c"
  proof (cases "p = rp_pool r")
    case True
    then show ?thesis
      using u(1) by (auto simp: table_of_def enter_def reported_def stored_def split: option.split)
  next
    case False
    with u(2) [OF False] show ?thesis by (simp add: table_of_def enter_def)
  qed
qed

interpretation reports: steps_refine report_step agg_inv table_of enter
proof
  fix a a' r
  assume "agg_inv a" and "report_step a r a'"
  then show "agg_inv a'" "table_of a' = enter r (table_of a)"
    by (auto elim!: report_stepE simp: table_of_update dest: UpdatePoolState_keeps)
qed

lemma report_enabled: "agg_inv a \<Longrightarrow> ps_wf (rp_state r) \<Longrightarrow> \<exists>a'. report_step a r a'"
  by (meson UpdatePoolState_keeps report_step.intros)

lemma reports_total:
  "agg_inv a \<Longrightarrow> \<forall>r \<in> set rs. ps_wf (rp_state r) \<Longrightarrow> \<exists>a'. run report_step a rs a'"
proof (induction rs arbitrary: a)
  case (Cons r rs)
  then obtain a1 where a1: "report_step a r a1" using report_enabled by fastforce
  with Cons.IH [OF reports.I_step [OF Cons.prems(1) a1]] Cons.prems(2) obtain a2 where "run report_step a1 rs a2" by auto
  with a1 show ?case by (blast intro: run_cons)
qed (auto intro: run_nil)

section \<open>The figures as functions of the table\<close>

text \<open>Sums over the chains that have reported.\<close>

definition chains_of :: "report_table \<Rightarrow> string \<Rightarrow> u32 set" where
  "chains_of T p = dom (T p)"

definition sum_of :: "(PoolState \<Rightarrow> int) \<Rightarrow> report_table \<Rightarrow> string \<Rightarrow> int" where
  "sum_of f T p = (\<Sum>c \<in> chains_of T p. f (the (T p c)))"

definition liquidity_of :: "report_table \<Rightarrow> string \<Rightarrow> int" where
  "liquidity_of T p = sum_of liq T p"

definition price_of :: "report_table \<Rightarrow> string \<Rightarrow> int" where
  "price_of T p = euclid_div (sum_of (\<lambda>s. price s * liq s) T p) (liquidity_of T p)"

definition deviation_of :: "report_table \<Rightarrow> string \<Rightarrow> int" where
  "deviation_of T p = (if card (chains_of T p) < 2 then 0
     else state_sqrt (sum_of (\<lambda>s. (price s - price_of T p) * (price s - price_of T p)) T p div int (card (chains_of T p))))"

definition block_of :: "report_table \<Rightarrow> string \<Rightarrow> u64" where
  "block_of T p = Max (insert 0 ((\<lambda>c. ps_BlockNumber (the (T p c))) ` chains_of T p))"

lemma table_figures:
  assumes "map_ok cs" and "\<And>c. map_get cs c = T p c"
  shows "total_liq (map_vals cs) = liquidity_of T p"
    and "avg_price (map_vals cs) = price_of T p"
    and "imbalance_score (avg_price (map_vals cs)) (map_vals cs) = deviation_of T p"
    and "latestBlock (map_vals cs) = block_of T p"
proof -
  have get: "map_get cs = T p" using assms(2) by (rule ext)
  have sum: "sum_list (map f (map_vals cs)) = sum_of f T p" for f
    by (simp add: sum_vals_dom [OF assms(1)] sum_of_def chains_of_def get)
  have len: "length (map_vals cs) = card (chains_of T p)"
    using length_map_dom [OF assms(1)] by (simp add: get chains_of_def)
  show "total_liq (map_vals cs) = liquidity_of T p" by (simp add: total_liq_def liquidity_of_def sum)
  moreover from this show avg: "avg_price (map_vals cs) = price_of T p"
    by (simp add: avg_price_def total_value_def price_of_def sum)
  show "imbalance_score (avg_price (map_vals cs)) (map_vals cs) = deviation_of T p"
    by (simp only: imbalance_score_def deviation_of_def sq_diffs_def sum len avg)
  show "latestBlock (map_vals cs) = block_of T p"
    by (simp add: latestBlock_Max block_of_def chains_of_def set_vals_dom [OF assms(1)] get image_image)
qed

lemma pool_of_table:
  assumes "agg_inv a" and "table_of a = T"
  shows "GetGlobalPoolState p a = Inl (''pool state not found: '' @ p) \<longleftrightarrow> chains_of T p = {}"
    and "GetGlobalPoolState p a = Inr g \<Longrightarrow> map_ok (gps_ChainStates g) \<and> (\<forall>c. map_get (gps_ChainStates g) c = T p c) \<and>
       gps_TotalLiquidity g = Some (liquidity_of T p) \<and>
       (liquidity_of T p \<noteq> 0 \<longrightarrow> gps_AveragePrice g = Some (price_of T p) \<and>
          gps_ImbalanceScore g = Some (deviation_of T p) \<and> gps_LastUpdateBlock g = block_of T p)"
proof -
  have inv: "gps_inv g" if "map_get (agg_poolStates a) p = Some g" for g
    using assms(1) that by (simp add: agg_inv_def)
  have ex: "\<exists>c. map_get (gps_ChainStates g) c \<noteq> None" if "gps_inv g" for g
    using that by (cases "gps_ChainStates g") (auto simp: gps_inv_def map_get_def split: if_splits)
  show "GetGlobalPoolState p a = Inl (''pool state not found: '' @ p) \<longleftrightarrow> chains_of T p = {}"
  proof (cases "map_get (agg_poolStates a) p")
    case (Some g)
    with ex [OF inv [OF Some]] show ?thesis
      by (auto simp: GetGlobalPoolState_def chains_of_def assms(2) [symmetric] table_of_def dom_def)
  qed (simp add: GetGlobalPoolState_def chains_of_def assms(2) [symmetric] table_of_def dom_def)
  assume "GetGlobalPoolState p a = Inr g"
  then have g: "map_get (agg_poolStates a) p = Some g" by (simp add: GetGlobalPoolState_def split: option.splits)
  have T: "map_get (gps_ChainStates g) c = T p c" for c by (simp add: assms(2) [symmetric] table_of_def g)
  have ok: "map_ok (gps_ChainStates g)" using inv [OF g] by (simp add: gps_inv_def)
  note fig = table_figures [where T = T and p = p, OF ok T]
  have sel: "gps_AveragePrice (recalculated g) = Some (price_of T p)"
    "gps_ImbalanceScore (recalculated g) = Some (deviation_of T p)" "gps_LastUpdateBlock (recalculated g) = block_of T p"
    by (simp_all add: recalculated_def Let_def fig(2,4) fig(3) [unfolded fig(2)])
  have "recalculated g = g" if "liquidity_of T p \<noteq> 0" using inv [OF g] that by (simp add: gps_inv_def fig)
  with sel have "gps_AveragePrice g = Some (price_of T p) \<and> gps_ImbalanceScore g = Some (deviation_of T p) \<and>
      gps_LastUpdateBlock g = block_of T p" if "liquidity_of T p \<noteq> 0"
    using that by simp
  with T ok inv [OF g] show "map_ok (gps_ChainStates g) \<and> (\<forall>c. map_get (gps_ChainStates g) c = T p c) \<and>
       gps_TotalLiquidity g = Some (liquidity_of T p) \<and>
       (liquidity_of T p \<noteq> 0 \<longrightarrow> gps_AveragePrice g = Some (price_of T p) \<and>
          gps_ImbalanceScore g = Some (deviation_of T p) \<and> gps_LastUpdateBlock g = block_of T p)"
    by (auto simp: gps_inv_def fig)
qed

lemma report_deterministic: "run report_step a rs a' \<Longrightarrow> run report_step a rs a'' \<Longrightarrow> a' = a''"
proof (induction rs arbitrary: a)
  case (Cons r rs)
  then show ?case by (fastforce simp: run_Cons_iff elim!: report_stepE)
qed simp

lemma reports_wf: "run report_step a rs a' \<Longrightarrow> \<forall>r \<in> set rs. ps_wf (rp_state r)"
  by (induction rule: run.induct) (auto elim: report_stepE)

lemma reports_table:
  assumes "run report_step NewAggregator rs a"
  shows "agg_inv a" and "table_of a = last_report rs"
proof -
  show "agg_inv a" using reports.I_run [OF assms agg_inv_new] .
  have "table_of NewAggregator = (\<lambda>p c. None)" by (simp add: table_of_def NewAggregator_def fun_eq_iff)
  then show "table_of a = last_report rs" using reports.refine_run [OF assms agg_inv_new] by (simp add: fold_enter)
qed

text \<open>Every state a chain of a pool has was reported.\<close>

lemma pool_states_reported:
  assumes "run report_step NewAggregator rs a" and "GetGlobalPoolState p a = Inr g" and "s \<in> set (map_vals (gps_ChainStates g))"
  shows "\<exists>r \<in> set rs. s = stored r"
proof -
  note T = reports_table [OF assms(1)]
  note g = pool_of_table(2) [OF T assms(2)]
  from g assms(3) obtain c where "map_get (gps_ChainStates g) c = Some s" by (auto simp: gm.vals_iff)
  with g show ?thesis by (intro last_report_from) auto
qed

section \<open>Properties\<close>

text \<open>C13: The state aggregator refines the table of last reports. Any sequence of reports with their
  numbers set, to any pools and chains, runs through without a panic to exactly one state, errors
  on the way included. In it a pool is known exactly when a chain has reported it; its chain states
  are the last report of each chain; the total liquidity is their sum; and unless that sum is zero
  the average price, the deviation and the block are the figures of these reports, whatever was
  reported before them and in whatever order the chains came. The next report fails exactly when
  it makes the liquidities of its pool sum to zero.\<close>

theorem reports_history:
  assumes "\<forall>r \<in> set rs. ps_wf (rp_state r)"
  shows "\<exists>a. (\<forall>a'. run report_step NewAggregator rs a' \<longleftrightarrow> a' = a) \<and>
     (\<forall>p. GetGlobalPoolState p a = Inl (''pool state not found: '' @ p) \<longleftrightarrow> (\<forall>c. last_report rs p c = None)) \<and>
     (\<forall>p g. GetGlobalPoolState p a = Inr g \<longrightarrow>
        (\<forall>c. map_get (gps_ChainStates g) c = last_report rs p c) \<and>
        gps_TotalLiquidity g = Some (liquidity_of (last_report rs) p) \<and>
        (liquidity_of (last_report rs) p \<noteq> 0 \<longrightarrow> gps_AveragePrice g = Some (price_of (last_report rs) p) \<and>
           gps_ImbalanceScore g = Some (deviation_of (last_report rs) p) \<and>
           gps_LastUpdateBlock g = block_of (last_report rs) p)) \<and>
     (\<forall>r. ps_wf (rp_state r) \<longrightarrow> (\<exists>a' err.
        UpdatePoolState (rp_now1 r) (rp_now2 r) (rp_pool r) (rp_chain r) (rp_state r) a = Inr (a', err) \<and>
        (err = None \<longleftrightarrow> liquidity_of (last_report (rs @ [r])) (rp_pool r) \<noteq> 0)))"
proof -
  obtain a where a: "run report_step NewAggregator rs a" using reports_total [OF agg_inv_new assms] by blast
  note inv = reports_table(1) [OF a] and T = reports_table(2) [OF a]
  have err: "\<exists>a' err. UpdatePoolState (rp_now1 r) (rp_now2 r) (rp_pool r) (rp_chain r) (rp_state r) a = Inr (a', err) \<and>
        (err = None \<longleftrightarrow> liquidity_of (last_report (rs @ [r])) (rp_pool r) \<noteq> 0)" if wf: "ps_wf (rp_state r)" for r
  proof -
    obtain a' err where u: "UpdatePoolState (rp_now1 r) (rp_now2 r) (rp_pool r) (rp_chain r) (rp_state r) a = Inr (a', err)"
      using UpdatePoolState_keeps(1) [OF inv wf] by blast
    let ?cs = "reported (rp_now1 r) (rp_pool r) (rp_chain r) (rp_state r) a"
    have T': "table_of a' = last_report (rs @ [r])" using table_of_update [OF inv wf u] T by (simp add: fold_enter [symmetric])
    obtain g where "map_get (agg_poolStates a') (rp_pool r) = Some g" "gps_ChainStates g = ?cs"
      using UpdatePoolState_chains(1) [OF inv wf u] by blast
    then have "map_get ?cs c = last_report (rs @ [r]) (rp_pool r) c" for c by (simp add: T' [symmetric] table_of_def)
    then have "total_liq (map_vals ?cs) = liquidity_of (last_report (rs @ [r])) (rp_pool r)"
      using reported_wf(1) [OF inv wf] by (intro table_figures(1))
    with u UpdatePoolState_chains(3) [OF inv wf u] show ?thesis by auto
  qed
  have "\<forall>a'. run report_step NewAggregator rs a' \<longleftrightarrow> a' = a" using a report_deterministic by blast
  then show ?thesis
    using pool_of_table [OF inv T] err by (intro exI [of _ a]) (auto simp: chains_of_def)
qed

section \<open>Witnesses\<close>

definition ex_report :: "string \<Rightarrow> u32 \<Rightarrow> int \<Rightarrow> int \<Rightarrow> report" where
  "ex_report p c l q = \<lparr>rp_now1 = 1, rp_now2 = 2, rp_pool = p, rp_chain = c,
     rp_state = \<lparr>ps_ChainID = c, ps_TotalLiquidity = Some l, ps_Price = Some q, ps_Volume24h = Some 0,
       ps_Fees24h = Some 0, ps_Timestamp = 0, ps_BlockNumber = 7, ps_LastUpdated = 0\<rparr>\<rparr>"

definition ex_reports :: "report list" where
  "ex_reports = [ex_report ''P'' 1 5 9, ex_report ''Q'' 1 8 8, ex_report ''P'' 2 30 20, ex_report ''P'' 1 10 8]"

lemma ex_chains: "chains_of (last_report ex_reports) ''P'' = {1, 2}"
  by (auto simp: chains_of_def dom_def last_report_def ex_reports_def ex_report_def split: if_splits)

theorem reports_history_witness:
  "\<exists>a g. run report_step NewAggregator ex_reports a \<and> GetGlobalPoolState ''P'' a = Inr g \<and>
     gps_TotalLiquidity g = Some 40 \<and> gps_AveragePrice g = Some 17 \<and> gps_LastUpdateBlock g = 7"
proof -
  let ?T = "last_report ex_reports"
  have wf: "\<forall>r \<in> set ex_reports. ps_wf (rp_state r)" by (simp add: ex_reports_def ex_report_def ps_wf_def)
  have l: "liquidity_of ?T ''P'' = 40" "price_of ?T ''P'' = 17" "block_of ?T ''P'' = 7"
    by (simp_all add: price_of_def liquidity_of_def sum_of_def block_of_def ex_chains)
      (simp_all add: last_report_def ex_reports_def ex_report_def stored_def liq_def price_def)
  from reports_history [OF wf] obtain a where a: "run report_step NewAggregator ex_reports a"
    and none: "GetGlobalPoolState ''P'' a = Inl (''pool state not found: '' @ ''P'') \<longleftrightarrow> (\<forall>c. ?T ''P'' c = None)"
    and fig: "\<And>g. GetGlobalPoolState ''P'' a = Inr g \<Longrightarrow> gps_TotalLiquidity g = Some (liquidity_of ?T ''P'') \<and>
        (liquidity_of ?T ''P'' \<noteq> 0 \<longrightarrow> gps_AveragePrice g = Some (price_of ?T ''P'') \<and> gps_LastUpdateBlock g = block_of ?T ''P'')"
    by blast
  have "\<not> (\<forall>c. ?T ''P'' c = None)" using ex_chains unfolding chains_of_def by (metis dom_eq_empty_conv insert_not_empty)
  with none obtain g where "GetGlobalPoolState ''P'' a = Inr g" by (auto simp: GetGlobalPoolState_def split: option.splits)
  with fig [of g] a l show ?thesis by auto
qed

end
