(* ===== verification/Go_Sha256.thy ===== *)
theory Go_Sha256
  imports Go_Strings
begin

text \<open>
  \<^verbatim>\<open>sha256.Sum256\<close> of Go's standard library, after FIPS 180-4: padding, the message schedule and the
  64 rounds on 32-bit words. Used for the hash of a task response.
\<close>

unbundle bit_operations_syntax

definition sha256_init :: "u32 list" where
  "sha256_init = [
      0x6a09e667, 0xbb67ae85, 0x3c6ef372, 0xa54ff53a,
      0x510e527f, 0x9b05688c, 0x1f83d9ab, 0x5be0cd19]"

definition sha256_K :: "u32 list" where
  "sha256_K = [
      0x428a2f98, 0x71374491, 0xb5c0fbcf, 0xe9b5dba5, 0x3956c25b, 0x59f111f1,
      0x923f82a4, 0xab1c5ed5, 0xd807aa98, 0x12835b01, 0x243185be, 0x550c7dc3,
      0x72be5d74, 0x80deb1fe, 0x9bdc06a7, 0xc19bf174, 0xe49b69c1, 0xefbe4786,
      0x0fc19dc6, 0x240ca1cc, 0x2de92c6f, 0x4a7484aa, 0x5cb0a9dc, 0x76f988da,
      0x983e5152, 0xa831c66d, 0xb00327c8, 0xbf597fc7, 0xc6e00bf3, 0xd5a79147,
      0x06ca6351, 0x14292967, 0x27b70a85, 0x2e1b2138, 0x4d2c6dfc, 0x53380d13,
      0x650a7354, 0x766a0abb, 0x81c2c92e, 0x92722c85, 0xa2bfe8a1, 0xa81a664b,
      0xc24b8b70, 0xc76c51a3, 0xd192e819, 0xd6990624, 0xf40e3585, 0x106aa070,
      0x19a4c116, 0x1e376c08, 0x2748774c, 0x34b0bcb5, 0x391c0cb3, 0x4ed8aa4a,
      0x5b9cca4f, 0x682e6ff3, 0x748f82ee, 0x78a5636f, 0x84c87814, 0x8cc70208,
      0x90befffa, 0xa4506ceb, 0xbef9a3f7, 0xc67178f2]"

section \<open>Padding\<close>

definition be_bytes64 :: "u64 \<Rightarrow> bytes" where
  "be_bytes64 w = map (\<lambda>i. ucast (drop_bit (56 - 8 * i) w)) [0..<8]"

definition be_bytes32 :: "u32 \<Rightarrow> bytes" where
  "be_bytes32 w = map (\<lambda>i. ucast (drop_bit (24 - 8 * i) w)) [0..<4]"

definition sha256_pad :: "bytes \<Rightarrow> bytes" where
  "sha256_pad m = m @ [0x80] @ replicate ((119 - length m mod 64) mod 64) 0 @ be_bytes64 (word_of_nat (8 * length m))"

fun be_words :: "bytes \<Rightarrow> u32 list" where
  "be_words (a # b # c # d # rest) =
     (push_bit 24 (ucast a) OR push_bit 16 (ucast b) OR push_bit 8 (ucast c) OR ucast d) # be_words rest"
| "be_words _ = []"

section \<open>One block\<close>

definition schedule_word :: "u32 list \<Rightarrow> u32" where
  "schedule_word w =
     (let v1 = w ! (length w - 2); v2 = w ! (length w - 15);
          t1 = word_rotr 17 v1 XOR word_rotr 19 v1 XOR drop_bit 10 v1;
          t2 = word_rotr 7 v2 XOR word_rotr 18 v2 XOR drop_bit 3 v2
      in t1 + w ! (length w - 7) + t2 + w ! (length w - 16))"

definition schedule :: "u32 list \<Rightarrow> u32 list" where
  "schedule w = ((\<lambda>w. w @ [schedule_word w]) ^^ 48) w"

type_synonym sha_state = "u32 \<times> u32 \<times> u32 \<times> u32 \<times> u32 \<times> u32 \<times> u32 \<times> u32"

definition sha256_round :: "u32 \<times> u32 \<Rightarrow> sha_state \<Rightarrow> sha_state" where
  "sha256_round kw s = (case kw of (k, w) \<Rightarrow> case s of (a, b, c, d, e, f, g, h) \<Rightarrow>
     let t1 = h + (word_rotr 6 e XOR word_rotr 11 e XOR word_rotr 25 e) + ((e AND f) XOR (NOT e AND g)) + k + w;
         t2 = (word_rotr 2 a XOR word_rotr 13 a XOR word_rotr 22 a) + ((a AND b) XOR (a AND c) XOR (b AND c))
     in (t1 + t2, a, b, c, d + t1, e, f, g))"

definition state_list :: "sha_state \<Rightarrow> u32 list" where
  "state_list s = (case s of (a, b, c, d, e, f, g, h) \<Rightarrow> [a, b, c, d, e, f, g, h])"

definition sha256_block :: "u32 list \<Rightarrow> u32 list \<Rightarrow> u32 list" where
  "sha256_block hs w =
     map2 (+) hs (state_list (fold sha256_round (zip sha256_K (schedule w))
       (hs ! 0, hs ! 1, hs ! 2, hs ! 3, hs ! 4, hs ! 5, hs ! 6, hs ! 7)))"

fun blocks :: "u32 list \<Rightarrow> u32 list list" where
  "blocks [] = []"
| "blocks ws = take 16 ws # blocks (drop 16 ws)"

definition Sum256 :: "bytes \<Rightarrow> bytes" where
  "Sum256 m = concat (map be_bytes32 (fold (\<lambda>w hs. sha256_block hs w) (blocks (be_words (sha256_pad m))) sha256_init))"

section \<open>Shape\<close>

text \<open>The padded message fills whole blocks, and a digest has 32 bytes.\<close>

lemma sha256_pad_length: "64 dvd length (sha256_pad m)"
proof -
  define q r where "q = length m div 64" and "r = length m mod 64"
  then have m: "length m = 64 * q + r" and r: "r < 64" by simp_all
  have "length (sha256_pad m) = 64 * q + (r + (119 - r) mod 64 + 9)"
    unfolding sha256_pad_def be_bytes64_def r_def [symmetric] by (simp add: m)
  moreover have "r + (119 - r) mod 64 + 9 = (if r \<le> 55 then 64 else 128)"
    using r by (simp add: mod_if; arith)
  ultimately show ?thesis by simp
qed

lemma sha256_block_length: "length hs = 8 \<Longrightarrow> length (sha256_block hs w) = 8"
  by (simp add: sha256_block_def state_list_def split: prod.split)

lemma Sum256_length: "length (Sum256 m) = 32"
proof -
  have "length (fold (\<lambda>w hs. sha256_block hs w) ws hs) = 8" if "length hs = 8" for ws hs
    using that by (induction ws arbitrary: hs) (auto simp: sha256_block_length)
  moreover have "length (concat (map be_bytes32 hs)) = 4 * length hs" for hs
    by (induction hs) (auto simp: be_bytes32_def)
  ultimately show ?thesis by (simp add: Sum256_def sha256_init_def)
qed

end
