(* ===== verification/State_Validator.thy ===== *)
theory State_Validator
  imports State_Aggregator Go_Float Go_Sha256
begin

text \<open>
  The validator of pool states and task responses, \<^verbatim>\<open>pkg/state/validator.go\<close>. It has no
  state. Each validation returns a result beside the error, as the Go functions do. A function
  that reads the clock takes the reading (Unix seconds) as an argument, one argument per reading.
  The secp256k1 operations of go-ethereum are a parameter, the record \<open>crypto\<close>; SHA-256, of Go's
  standard library, is defined in \<open>Go_Sha256\<close>.
\<close>

section \<open>Data\<close>

record ValidationResult =
  vr_IsValid :: bool
  vr_Confidence :: float64
  vr_Reason :: string
  vr_Timestamp :: u64

record ValidationCriteria =
  vc_MaxPriceDeviation :: bigptr
  vc_MaxLiquidityChange :: bigptr
  vc_MaxTimeGap :: u64
  vc_MinimumConfirmations :: u32

type_synonym address = bytes
type_synonym hash = bytes

text \<open>\<open>crypto.SigToPub\<close> (with \<open>None\<close> for an error), \<open>crypto.PubkeyToAddress\<close>,
  \<open>crypto.CompressPubkey\<close>, \<open>crypto.VerifySignature\<close>, \<open>crypto.Sign\<close> and \<open>common.BytesToHash\<close>.\<close>

record ('pk, 'sk) crypto =
  SigToPub :: "hash \<Rightarrow> bytes \<Rightarrow> 'pk option"
  PubkeyToAddress :: "'pk \<Rightarrow> address"
  CompressPubkey :: "'pk \<Rightarrow> bytes"
  VerifySignature :: "bytes \<Rightarrow> hash \<Rightarrow> bytes \<Rightarrow> bool"
  Sign :: "hash \<Rightarrow> 'sk \<Rightarrow> error + bytes"
  BytesToHash :: "bytes \<Rightarrow> hash"

section \<open>Operations\<close>

definition abs_big :: "int \<Rightarrow> int" where
  "abs_big d = (if d < 0 then - d else d)"

lemma abs_big [simp]: "abs_big d = \<bar>d\<bar>"
  by (simp add: abs_big_def)

definition validatePriceDeviation ::
  "PoolState \<Rightarrow> GlobalPoolState \<Rightarrow> ValidationCriteria \<Rightarrow> ValidationResult \<Rightarrow> (ValidationResult \<times> error option) go" where
  "validatePriceDeviation ps gs criteria result =
     go_bind (deref (gps_AveragePrice gs)) (\<lambda>avg.
       if avg = 0 then Inr (result, None)
       else go_bind (deref (ps_Price ps)) (\<lambda>p.
         let priceDiff = abs_big (p - avg) in
         go_bind (deref (vc_MaxPriceDeviation criteria)) (\<lambda>maxDev.
           if maxDev < priceDiff then
             Inr (result\<lparr>vr_IsValid := False,
                    vr_Reason := ''Price deviation too high: '' @ big_String priceDiff @ '' > '' @ big_String maxDev\<rparr>,
                  Some ''price deviation validation failed'')
           else Inr (result, None))))"

definition validateLiquidityChange ::
  "PoolState \<Rightarrow> GlobalPoolState \<Rightarrow> ValidationCriteria \<Rightarrow> ValidationResult \<Rightarrow> (ValidationResult \<times> error option) go" where
  "validateLiquidityChange ps gs criteria result =
     (case map_get (gps_ChainStates gs) (ps_ChainID ps) of
        None \<Rightarrow> Inr (result, None)
      | Some prevState \<Rightarrow>
         go_bind (deref (ps_TotalLiquidity ps)) (\<lambda>l. go_bind (deref (ps_TotalLiquidity prevState)) (\<lambda>l0.
           let liquidityChange = abs_big (l - l0) in
           go_bind (deref (vc_MaxLiquidityChange criteria)) (\<lambda>maxChange.
             if maxChange < liquidityChange then
               Inr (result\<lparr>vr_IsValid := False,
                      vr_Reason := ''Liquidity change too high: '' @ big_String liquidityChange @ '' > '' @ big_String maxChange\<rparr>,
                    Some ''liquidity change validation failed'')
             else Inr (result, None)))))"

definition validateTimestamp ::
  "int \<Rightarrow> PoolState \<Rightarrow> ValidationCriteria \<Rightarrow> ValidationResult \<Rightarrow> ValidationResult \<times> error option" where
  "validateTimestamp now ps criteria result =
     (let timeDiff = uint64 now - ps_Timestamp ps in
      if vc_MaxTimeGap criteria < timeDiff then
        (result\<lparr>vr_IsValid := False,
           vr_Reason := ''Timestamp too old: '' @ big_String (uint timeDiff) @ '' seconds > '' @
             big_String (uint (vc_MaxTimeGap criteria)) @ '' seconds''\<rparr>,
         Some ''timestamp validation failed'')
      else (result, None))"

definition penalize :: "bool \<Rightarrow> float64 \<Rightarrow> float64 \<Rightarrow> float64" where
  "penalize b k confidence = (if b then f_mul confidence k else confidence)"

definition calculateConfidence ::
  "int \<Rightarrow> PoolState \<Rightarrow> GlobalPoolState \<Rightarrow> ValidationResult \<Rightarrow> ValidationResult go" where
  "calculateConfidence now ps gs result =
     go_bind (deref (gps_AveragePrice gs)) (\<lambda>avg.
       go_bind (if avg = 0 then Inr (f_lit 1)
                else go_bind (deref (ps_Price ps)) (\<lambda>p.
                  go_bind (big_Div (abs_big (p - avg) * 100) avg) (\<lambda>deviationPercent.
                    Inr (penalize (10 < deviationPercent) (f_lit (3/5))
                          (penalize (5 < deviationPercent) (f_lit (4/5))
                            (penalize (1 < deviationPercent) (f_lit (9/10)) (f_lit 1)))))))
         (\<lambda>confidence.
            let age = uint64 now - ps_Timestamp ps in
            Inr (result\<lparr>vr_Confidence :=
                   penalize (1800 < age) (f_lit (3/5))
                     (penalize (600 < age) (f_lit (4/5))
                       (penalize (300 < age) (f_lit (9/10)) confidence))\<rparr>)))"

definition ValidatePoolState ::
  "int \<Rightarrow> int \<Rightarrow> int \<Rightarrow> PoolState \<Rightarrow> GlobalPoolState \<Rightarrow> ValidationCriteria \<Rightarrow> (ValidationResult \<times> error option) go" where
  "ValidatePoolState t0 t1 t2 ps gs criteria =
     (let result = \<lparr>vr_IsValid = True, vr_Confidence = f_lit 0, vr_Reason = [], vr_Timestamp = uint64 t0\<rparr> in
      go_bind (validatePriceDeviation ps gs criteria result) (\<lambda>(r1, err1).
        if err1 \<noteq> None then Inr (r1, err1)
        else go_bind (validateLiquidityChange ps gs criteria r1) (\<lambda>(r2, err2).
          if err2 \<noteq> None then Inr (r2, err2)
          else case validateTimestamp t1 ps criteria r2 of (r3, err3) \<Rightarrow>
            if err3 \<noteq> None then Inr (r3, err3)
            else go_bind (calculateConfidence t2 ps gs r3) (\<lambda>r4. Inr (r4, None)))))"

text \<open>\<open>s[:n]\<close> on a slice whose capacity is its length.\<close>

definition slice_to :: "nat \<Rightarrow> bytes \<Rightarrow> bytes go" where
  "slice_to n s = (if n \<le> length s then Inr (take n s) else Inl SliceBounds)"

definition ValidateOperatorSignature ::
  "('pk, 'sk) crypto \<Rightarrow> int \<Rightarrow> address \<Rightarrow> hash \<Rightarrow> bytes \<Rightarrow> (ValidationResult \<times> error option) go" where
  "ValidateOperatorSignature C now operatorAddr messageHash signature =
     (let result = \<lparr>vr_IsValid = False, vr_Confidence = f_lit 0, vr_Reason = [], vr_Timestamp = uint64 now\<rparr> in
      case SigToPub C messageHash signature of
        None \<Rightarrow> Inr (result\<lparr>vr_Reason := ''Failed to recover public key from signature''\<rparr>, None)
      | Some pubKey \<Rightarrow>
         if PubkeyToAddress C pubKey \<noteq> operatorAddr then
           Inr (result\<lparr>vr_Reason := ''Signature does not match operator address''\<rparr>, None)
         else go_bind (slice_to 64 signature) (\<lambda>sig64.
           if \<not> VerifySignature C (CompressPubkey C pubKey) messageHash sig64 then
             Inr (result\<lparr>vr_Reason := ''Signature verification failed''\<rparr>, None)
           else Inr (result\<lparr>vr_IsValid := True, vr_Confidence := f_lit 1,
                       vr_Reason := ''Signature validation successful''\<rparr>, None)))"

definition validateResponseFormat :: "bytes \<Rightarrow> error option" where
  "validateResponseFormat response = (if length response = 0 then Some ''empty response'' else None)"

definition createTaskResponseHash :: "('pk, 'sk) crypto \<Rightarrow> u32 \<Rightarrow> bytes \<Rightarrow> hash" where
  "createTaskResponseHash C taskIndex response =
     (let data = big_Bytes (uint taskIndex) @ response in BytesToHash C (Sum256 data))"

definition ValidateTaskResponse ::
  "('pk, 'sk) crypto \<Rightarrow> int \<Rightarrow> int \<Rightarrow> u32 \<Rightarrow> bytes \<Rightarrow> bytes \<Rightarrow> address \<Rightarrow> (ValidationResult \<times> error option) go" where
  "ValidateTaskResponse C t0 t1 taskIndex response signature operatorAddr =
     (let result = \<lparr>vr_IsValid = False, vr_Confidence = f_lit 0, vr_Reason = [], vr_Timestamp = uint64 t0\<rparr>;
          messageHash = createTaskResponseHash C taskIndex response
      in go_bind (ValidateOperatorSignature C t1 operatorAddr messageHash signature) (\<lambda>(sigResult, err).
        case err of
          Some e \<Rightarrow> Inr (result, Some (''failed to validate signature: '' @ e))
        | None \<Rightarrow>
           if \<not> vr_IsValid sigResult then
             Inr (result\<lparr>vr_Reason := ''Invalid signature for task response''\<rparr>, None)
           else case validateResponseFormat response of
             Some e \<Rightarrow> Inr (result\<lparr>vr_Reason := ''Invalid response format: '' @ e\<rparr>, None)
           | None \<Rightarrow> Inr (result\<lparr>vr_IsValid := True, vr_Confidence := vr_Confidence sigResult,
                           vr_Reason := ''Task response validation successful''\<rparr>, None)))"

definition SignMessage :: "('pk, 'sk) crypto \<Rightarrow> 'sk \<Rightarrow> hash \<Rightarrow> (error + bytes) go" where
  "SignMessage C privateKey messageHash = (case Sign C messageHash privateKey of
       Inl e \<Rightarrow> Inr (Inl (''failed to sign message: '' @ e))
     | Inr signature \<Rightarrow> go_bind (slice_to 64 signature) (\<lambda>s. Inr (Inr s)))"

definition GetDefaultValidationCriteria :: "ValidationCriteria go" where
  "GetDefaultValidationCriteria =
     go_bind (MustSetString ''1000000000000000000'') (\<lambda>p.
     go_bind (MustSetString ''1000000000000000000000'') (\<lambda>l.
       Inr \<lparr>vc_MaxPriceDeviation = Some p, vc_MaxLiquidityChange = Some l,
            vc_MaxTimeGap = 300, vc_MinimumConfirmations = 1\<rparr>))"

section \<open>Confidence\<close>

lemma rnd_bounds [simp]:
  "rnd (7/8) = 7/8" "rnd (15/16) = 15/16" "rnd (3/4) = 3/4" "rnd (9/16) = 9/16"
  using rnd_dyadic [of 7 3] rnd_dyadic [of 15 4] rnd_dyadic [of 3 2] rnd_dyadic [of 9 4] by simp_all

lemma penalty_literals:
  "\<exists>c. f_lit (9/10) = Fin c \<and> rnd c = c \<and> 7/8 \<le> c \<and> c \<le> 15/16"
  "\<exists>c. f_lit (4/5) = Fin c \<and> rnd c = c \<and> 3/4 \<le> c \<and> c \<le> 15/16"
  "\<exists>c. f_lit (3/5) = Fin c \<and> rnd c = c \<and> 9/16 \<le> c \<and> c \<le> 15/16"
  by (rule f_lit_between; simp)+

text \<open>A confidence: representable, at least \<open>lo\<close>, at most one.\<close>

definition conf_ge :: "rat \<Rightarrow> float64 \<Rightarrow> bool" where
  "conf_ge lo x \<longleftrightarrow> (\<exists>c. x = Fin c \<and> rnd c = c \<and> lo \<le> c \<and> c \<le> 1)"

lemma f_lit_1 [simp]: "f_lit 1 = Fin 1"
  by (simp add: f_lit_def round64_def)

lemma f_lit_0 [simp]: "f_lit 0 = Fin 0"
  by (simp add: f_lit_def round64_def)

lemma penalize_conf:
  assumes "conf_ge lo x" and "0 \<le> lo" and "\<exists>k. y = Fin k \<and> rnd k = k \<and> l \<le> k \<and> k \<le> 15/16"
    and "0 \<le> l" and "rnd (lo * l) = lo * l"
  shows "conf_ge (lo * l) (penalize b y x)" and "penalize b y x = Fin 1 \<longleftrightarrow> \<not> b \<and> x = Fin 1"
proof -
  obtain c k where c: "x = Fin c" "rnd c = c" "lo \<le> c" "c \<le> 1"
    and k: "y = Fin k" "rnd k = k" "l \<le> k" "k \<le> 15/16"
    using assms(1,3) by (auto simp: conf_ge_def)
  have u: "unit_f (Fin c)" "unit_f (Fin k)" using c k assms(2,4) by (auto simp: unit_f_def)
  note m = f_mul_unit_Fin [OF u] and m' = f_mul_unit_Fin [OF u(2,1)]
  have lol: "lo * l \<le> c * k" using c k assms by (intro mult_mono) auto
  have "lo * l \<le> rnd (c * k)"
    using rnd_mono [OF _ lol] assms(2,4,5) by simp
  moreover have le: "rnd (c * k) \<le> k" using m'(3) by (simp add: mult.commute)
  moreover have "rnd (rnd (c * k)) = rnd (c * k)"
    using c k assms(2,4) by (intro rnd_idem) (simp add: mult_nonneg_nonneg)
  moreover have "lo * l \<le> lo" using k assms(2,4) by (intro mult_left_le) auto
  ultimately show "conf_ge (lo * l) (penalize b y x)"
    using c k m(1) by (auto simp: penalize_def conf_ge_def)
  show "penalize b y x = Fin 1 \<longleftrightarrow> \<not> b \<and> x = Fin 1"
    using c k m(1) le by (auto simp: penalize_def)
qed

definition triple_penalty :: "bool \<Rightarrow> bool \<Rightarrow> bool \<Rightarrow> float64 \<Rightarrow> float64" where
  "triple_penalty b1 b2 b3 x =
     penalize b3 (f_lit (3/5)) (penalize b2 (f_lit (4/5)) (penalize b1 (f_lit (9/10)) x))"

lemma triple_penalty:
  assumes "conf_ge lo x" and "0 \<le> lo" and "rnd (lo * (7/8)) = lo * (7/8)"
    and "rnd (lo * (7/8) * (3/4)) = lo * (7/8) * (3/4)"
    and "rnd (lo * (7/8) * (3/4) * (9/16)) = lo * (7/8) * (3/4) * (9/16)"
  shows "conf_ge (lo * (7/8) * (3/4) * (9/16)) (triple_penalty b1 b2 b3 x)"
    and "triple_penalty b1 b2 b3 x = Fin 1 \<longleftrightarrow> \<not> b1 \<and> \<not> b2 \<and> \<not> b3 \<and> x = Fin 1"
proof -
  note p1 = penalize_conf [OF assms(1,2) penalty_literals(1) _ assms(3)]
  note p2 = penalize_conf [OF p1(1) _ penalty_literals(2) _ assms(4)]
  note p3 = penalize_conf [OF p2(1) _ penalty_literals(3) _ assms(5)]
  show "conf_ge (lo * (7/8) * (3/4) * (9/16)) (triple_penalty b1 b2 b3 x)"
    unfolding triple_penalty_def by (rule p3(1)) (simp_all add: assms(2))
  show "triple_penalty b1 b2 b3 x = Fin 1 \<longleftrightarrow> \<not> b1 \<and> \<not> b2 \<and> \<not> b3 \<and> x = Fin 1"
    unfolding triple_penalty_def
    by (subst p3(2), simp_all add: assms(2)) (subst p2(2), simp_all add: assms(2), subst p1(2), auto)
qed

text \<open>The deviation in percent that the confidence looks at.\<close>

definition deviation_percent :: "int \<Rightarrow> int \<Rightarrow> int" where
  "deviation_percent avg p = euclid_div (\<bar>p - avg\<bar> * 100) avg"

definition price_confidence :: "int \<Rightarrow> int \<Rightarrow> float64" where
  "price_confidence avg p = (if avg = 0 then Fin 1 else
     let d = deviation_percent avg p in triple_penalty (1 < d) (5 < d) (10 < d) (Fin 1))"

lemma calculateConfidence_wf:
  assumes "ps_wf ps" and "gps_AveragePrice gs = Some avg"
  shows "calculateConfidence now ps gs r = Inr (r\<lparr>vr_Confidence :=
     (let age = uint64 now - ps_Timestamp ps in
      triple_penalty (300 < age) (600 < age) (1800 < age) (price_confidence avg (price ps)))\<rparr>)"
  using assms
  by (simp add: calculateConfidence_def ps_wf_fields triple_penalty_def price_confidence_def
      deviation_percent_def Let_def)

lemma price_confidence:
  shows "conf_ge (189/512) (price_confidence avg p)"
    and "price_confidence avg p = Fin 1 \<longleftrightarrow> avg = 0 \<or> deviation_percent avg p \<le> 1"
proof -
  have 1: "conf_ge 1 (Fin 1)" "conf_ge (189/512) (Fin 1)" by (simp_all add: conf_ge_def)
  have r: "rnd (1 * (7/8)) = 1 * (7/8)" "rnd (1 * (7/8) * (3/4)) = 1 * (7/8) * (3/4)"
    "rnd (1 * (7/8) * (3/4) * (9/16)) = 1 * (7/8) * (3/4) * (9/16)"
    using rnd_dyadic [of 21 5] rnd_dyadic [of 189 9] by simp_all
  note t = triple_penalty [OF 1(1) _ r]
  show "conf_ge (189/512) (price_confidence avg p)"
    using t(1) 1(2) by (auto simp: price_confidence_def Let_def)
  show "price_confidence avg p = Fin 1 \<longleftrightarrow> avg = 0 \<or> deviation_percent avg p \<le> 1"
    using t(2) by (auto simp: price_confidence_def Let_def)
qed

lemma age_confidence:
  assumes "conf_ge (189/512) x"
  shows "conf_ge (35721/262144) (triple_penalty b1 b2 b3 x)"
    and "triple_penalty b1 b2 b3 x = Fin 1 \<longleftrightarrow> \<not> b1 \<and> \<not> b2 \<and> \<not> b3 \<and> x = Fin 1"
proof -
  have r: "rnd (189/512 * (7/8)) = 189/512 * (7/8)"
    "rnd (189/512 * (7/8) * (3/4)) = 189/512 * (7/8) * (3/4)"
    "rnd (189/512 * (7/8) * (3/4) * (9/16)) = 189/512 * (7/8) * (3/4) * (9/16)"
    using rnd_dyadic [of 1323 12] rnd_dyadic [of 3969 14] rnd_dyadic [of 35721 18] by simp_all
  from triple_penalty [OF assms _ r]
  show "conf_ge (35721/262144) (triple_penalty b1 b2 b3 x)"
    and "triple_penalty b1 b2 b3 x = Fin 1 \<longleftrightarrow> \<not> b1 \<and> \<not> b2 \<and> \<not> b3 \<and> x = Fin 1"
    by simp_all
qed

text \<open>The checks on complete data: each either passes the result on or rejects it.\<close>

lemma validatePriceDeviation_wf:
  assumes "ps_wf ps" and "gps_AveragePrice gs = Some avg" and "vc_MaxPriceDeviation criteria = Some maxDev"
  shows "\<exists>reason. validatePriceDeviation ps gs criteria r =
     (if avg = 0 \<or> \<bar>price ps - avg\<bar> \<le> maxDev then Inr (r, None)
      else Inr (r\<lparr>vr_IsValid := False, vr_Reason := reason\<rparr>, Some ''price deviation validation failed''))"
  by (rule exI [where x = "''Price deviation too high: '' @ big_String \<bar>price ps - avg\<bar> @ '' > '' @ big_String maxDev"])
    (use assms in \<open>auto simp: validatePriceDeviation_def ps_wf_fields Let_def\<close>)

lemma validateLiquidityChange_wf:
  assumes "ps_wf ps" and "vc_MaxLiquidityChange criteria = Some maxChange"
    and "\<forall>q. map_get (gps_ChainStates gs) (ps_ChainID ps) = Some q \<longrightarrow> ps_wf q"
  shows "\<exists>reason. validateLiquidityChange ps gs criteria r =
     (if \<forall>q. map_get (gps_ChainStates gs) (ps_ChainID ps) = Some q \<longrightarrow> \<bar>liq ps - liq q\<bar> \<le> maxChange
      then Inr (r, None)
      else Inr (r\<lparr>vr_IsValid := False, vr_Reason := reason\<rparr>, Some ''liquidity change validation failed''))"
proof (cases "map_get (gps_ChainStates gs) (ps_ChainID ps)")
  case (Some q)
  with assms show ?thesis
    by (intro exI [where x = "''Liquidity change too high: '' @ big_String \<bar>liq ps - liq q\<bar> @ '' > '' @
          big_String maxChange"]) (auto simp: validateLiquidityChange_def ps_wf_fields Let_def)
qed (simp add: validateLiquidityChange_def)

lemma validateTimestamp_cases:
  "\<exists>reason. validateTimestamp now ps criteria r =
     (if uint64 now - ps_Timestamp ps \<le> vc_MaxTimeGap criteria then (r, None)
      else (r\<lparr>vr_IsValid := False, vr_Reason := reason\<rparr>, Some ''timestamp validation failed''))"
  by (rule exI [where x = "''Timestamp too old: '' @ big_String (uint (uint64 now - ps_Timestamp ps)) @
        '' seconds > '' @ big_String (uint (vc_MaxTimeGap criteria)) @ '' seconds''"])
    (simp add: validateTimestamp_def Let_def linorder_not_less [symmetric] del: linorder_not_less)

lemma ValidatePoolState_accepted:
  assumes "ps_wf ps" and "gps_AveragePrice gs = Some avg"
    and "ValidatePoolState t0 t1 t2 ps gs criteria = Inr (r, None)"
  shows "\<exists>r3. r = r3\<lparr>vr_Confidence := (let age = uint64 t2 - ps_Timestamp ps in
      triple_penalty (300 < age) (600 < age) (1800 < age) (price_confidence avg (price ps)))\<rparr>"
proof -
  from assms(3) obtain r3 where "calculateConfidence t2 ps gs r3 = Inr r"
    by (auto simp: ValidatePoolState_def go_bind_Inr_iff Let_def case_prod_unfold split: if_splits)
  then show ?thesis by (auto simp: calculateConfidence_wf [OF assms(1,2)])
qed

section \<open>Properties of state validation\<close>

lemma ValidatePoolState_decides:
  assumes "ps_wf ps" and "gps_AveragePrice gs = Some avg"
    and "\<forall>q. map_get (gps_ChainStates gs) (ps_ChainID ps) = Some q \<longrightarrow> ps_wf q"
    and "vc_MaxPriceDeviation criteria = Some maxDev" and "vc_MaxLiquidityChange criteria = Some maxChange"
  shows "\<exists>r err. ValidatePoolState t0 t1 t2 ps gs criteria = Inr (r, err) \<and>
     (vr_IsValid r \<longleftrightarrow> err = None) \<and>
     (err = None \<longleftrightarrow> (avg = 0 \<or> \<bar>price ps - avg\<bar> \<le> maxDev) \<and>
        (\<forall>q. map_get (gps_ChainStates gs) (ps_ChainID ps) = Some q \<longrightarrow> \<bar>liq ps - liq q\<bar> \<le> maxChange) \<and>
        uint64 t1 - ps_Timestamp ps \<le> vc_MaxTimeGap criteria)"
proof -
  let ?r = "\<lparr>vr_IsValid = True, vr_Confidence = f_lit 0, vr_Reason = [], vr_Timestamp = uint64 t0\<rparr>"
  obtain reason1 where p: "validatePriceDeviation ps gs criteria ?r =
      (if avg = 0 \<or> \<bar>price ps - avg\<bar> \<le> maxDev then Inr (?r, None)
       else Inr (?r\<lparr>vr_IsValid := False, vr_Reason := reason1\<rparr>, Some ''price deviation validation failed''))"
    using validatePriceDeviation_wf [OF assms(1,2,4)] by blast
  obtain reason2 where l: "validateLiquidityChange ps gs criteria ?r =
      (if \<forall>q. map_get (gps_ChainStates gs) (ps_ChainID ps) = Some q \<longrightarrow> \<bar>liq ps - liq q\<bar> \<le> maxChange
       then Inr (?r, None)
       else Inr (?r\<lparr>vr_IsValid := False, vr_Reason := reason2\<rparr>, Some ''liquidity change validation failed''))"
    using validateLiquidityChange_wf [OF assms(1,5,3)] by blast
  obtain reason3 where t: "validateTimestamp t1 ps criteria ?r =
      (if uint64 t1 - ps_Timestamp ps \<le> vc_MaxTimeGap criteria then (?r, None)
       else (?r\<lparr>vr_IsValid := False, vr_Reason := reason3\<rparr>, Some ''timestamp validation failed''))"
    using validateTimestamp_cases by blast
  show ?thesis
    unfolding ValidatePoolState_def Let_def p
    by (cases "avg = 0 \<or> \<bar>price ps - avg\<bar> \<le> maxDev";
        cases "\<forall>q. map_get (gps_ChainStates gs) (ps_ChainID ps) = Some q \<longrightarrow> \<bar>liq ps - liq q\<bar> \<le> maxChange";
        cases "uint64 t1 - ps_Timestamp ps \<le> vc_MaxTimeGap criteria")
      (simp_all add: l [unfolded f_lit_0] t [unfolded f_lit_0] calculateConfidence_wf [OF assms(1,2)])
qed

text \<open>C7: Validation of a complete report against a pool with a known average price never panics,
  marks the result valid exactly when it returns no error, and accepts exactly when the price is
  within the allowed distance of a non-zero average, the liquidity within the allowed change of
  the chain's previous report, and the wrapped-around age within the allowed gap.\<close>

theorem ValidatePoolState_accepts:
  assumes "ps_wf ps" and "gps_AveragePrice gs = Some avg"
    and "\<forall>q. map_get (gps_ChainStates gs) (ps_ChainID ps) = Some q \<longrightarrow> ps_wf q"
    and "vc_MaxPriceDeviation criteria = Some maxDev" and "vc_MaxLiquidityChange criteria = Some maxChange"
  shows "\<exists>r err. ValidatePoolState t0 t1 t2 ps gs criteria = Inr (r, err) \<and>
     (vr_IsValid r \<longleftrightarrow> err = None) \<and>
     (err = None \<longleftrightarrow> (avg = 0 \<or> \<bar>price ps - avg\<bar> \<le> maxDev) \<and>
        (\<forall>q. map_get (gps_ChainStates gs) (ps_ChainID ps) = Some q \<longrightarrow> \<bar>liq ps - liq q\<bar> \<le> maxChange) \<and>
        uint64 t1 - ps_Timestamp ps \<le> vc_MaxTimeGap criteria)"
  by (rule ValidatePoolState_decides [OF assms])

text \<open>An accepted report gets a confidence between 35721/262144 and 1, and it is 1 exactly when
  no penalty applies: the price is at most 1 percent off a non-zero average and the report at
  most 300 seconds old.\<close>

theorem ValidatePoolState_confidence:
  assumes "ps_wf ps" and "gps_AveragePrice gs = Some avg"
    and "ValidatePoolState t0 t1 t2 ps gs criteria = Inr (r, None)"
  shows "\<exists>c. vr_Confidence r = Fin c \<and> 35721/262144 \<le> c \<and> c \<le> 1 \<and>
     (c = 1 \<longleftrightarrow> (avg = 0 \<or> deviation_percent avg (price ps) \<le> 1) \<and> uint64 t2 - ps_Timestamp ps \<le> 300)"
proof -
  let ?age = "uint64 t2 - ps_Timestamp ps"
  have conf: "vr_Confidence r =
      triple_penalty (300 < ?age) (600 < ?age) (1800 < ?age) (price_confidence avg (price ps))"
    using ValidatePoolState_accepted [OF assms] by (auto simp: Let_def)
  have "(600 < ?age \<longrightarrow> 300 < ?age)" "(1800 < ?age \<longrightarrow> 300 < ?age)"
    by (simp_all add: word_less_def)
  with age_confidence(2) [OF price_confidence(1) [of avg "price ps"],
      of "300 < ?age" "600 < ?age" "1800 < ?age"] conf
  have "vr_Confidence r = Fin 1 \<longleftrightarrow> (avg = 0 \<or> deviation_percent avg (price ps) \<le> 1) \<and> ?age \<le> 300"
    by (auto simp: price_confidence(2) not_less)
  with age_confidence(1) [OF price_confidence(1) [of avg "price ps"],
      of "300 < ?age" "600 < ?age" "1800 < ?age"] show ?thesis
    by (auto simp: conf_ge_def conf)
qed

text \<open>A report stamped later than the validator's clock is rejected as too old, however small
  the skew: the unsigned difference wraps around to a huge age.\<close>

theorem validateTimestamp_future_rejected:
  assumes "0 \<le> now" and "now < uint (ps_Timestamp ps)"
    and "uint (ps_Timestamp ps) - now \<le> 2 ^ 63" and "uint (vc_MaxTimeGap criteria) < 2 ^ 63"
  shows "\<not> vr_IsValid (fst (validateTimestamp now ps criteria r)) \<and>
     snd (validateTimestamp now ps criteria r) = Some ''timestamp validation failed''"
proof -
  have "uint (ps_Timestamp ps) < 2 ^ 64" using uint_lt2p [of "ps_Timestamp ps"] by simp
  with assms(1,2) have now: "uint (uint64 now) = now" by (simp add: uint_uint64)
  have "uint64 now < ps_Timestamp ps" using assms(2) by (simp add: word_less_def now)
  from uint_sub_wrap [OF this] have "uint (uint64 now - ps_Timestamp ps) \<ge> 2 ^ 63"
    using assms(3) by (simp add: now)
  with assms(4) have "vc_MaxTimeGap criteria < uint64 now - ps_Timestamp ps"
    by (simp add: word_less_def)
  then show ?thesis by (simp add: validateTimestamp_def Let_def)
qed

text \<open>The default criteria are one token of price deviation, 1000 tokens of liquidity change
  (18 decimals) and five minutes of age; building them does not panic.\<close>

theorem GetDefaultValidationCriteria_value:
  "GetDefaultValidationCriteria = Inr \<lparr>vc_MaxPriceDeviation = Some (10 ^ 18),
     vc_MaxLiquidityChange = Some (10 ^ 21), vc_MaxTimeGap = 300, vc_MinimumConfirmations = 1\<rparr>"
  by (simp add: GetDefaultValidationCriteria_def MustSetString_def SetString10_def parse_nat_def
      digit_value_def)

section \<open>Properties of signatures and task responses\<close>

text \<open>C23: A task response is accepted, with confidence 1, exactly when the public key recovered
  from its signature over the hash of task index and response has the operator's address, the
  signature verifies under that key, and the response is not empty. Validation returns no error.\<close>

theorem ValidateTaskResponse_accepts:
  assumes "\<forall>h s k. SigToPub C h s = Some k \<longrightarrow> 64 \<le> length s"
  shows "\<exists>r. ValidateTaskResponse C t0 t1 taskIndex response signature operatorAddr = Inr (r, None) \<and>
     (vr_IsValid r \<longleftrightarrow>
        response \<noteq> [] \<and>
        (\<exists>k. SigToPub C (createTaskResponseHash C taskIndex response) signature = Some k \<and>
             PubkeyToAddress C k = operatorAddr \<and>
             VerifySignature C (CompressPubkey C k) (createTaskResponseHash C taskIndex response)
               (take 64 signature))) \<and>
     (vr_IsValid r \<longrightarrow> vr_Confidence r = Fin 1)"
proof (cases "SigToPub C (createTaskResponseHash C taskIndex response) signature")
  case (Some k)
  then have "slice_to 64 signature = Inr (take 64 signature)"
    using assms unfolding slice_to_def by force
  with Some show ?thesis
    by (auto simp: ValidateTaskResponse_def ValidateOperatorSignature_def validateResponseFormat_def Let_def)
qed (simp add: ValidateTaskResponse_def ValidateOperatorSignature_def Let_def)

text \<open>A signature made by SignMessage is never accepted by ValidateOperatorSignature. SignMessage
  drops the recovery byte, and go-ethereum recovers a key from 65-byte signatures only.\<close>

theorem SignMessage_rejected:
  assumes "\<forall>h s k. SigToPub C h s = Some k \<longrightarrow> length s = 65"
    and "SignMessage C key h = Inr (Inr s)"
  shows "\<exists>r. ValidateOperatorSignature C now addr h s = Inr (r, None) \<and> \<not> vr_IsValid r \<and>
     vr_Reason r = ''Failed to recover public key from signature''"
proof -
  have "length s = 64"
    using assms(2) by (auto simp: SignMessage_def slice_to_def go_bind_Inr_iff split: sum.splits if_splits)
  then have "SigToPub C h s = None" using assms(1) by fastforce
  then show ?thesis by (simp add: ValidateOperatorSignature_def)
qed

text \<open>The signed message of a task response does not determine the task: moving the first byte
  of a response into the index gives the same hashed bytes, so one signature
  answers two different tasks.\<close>

theorem createTaskResponseHash_collision:
  assumes "0 < unat i" and "unat i < 2 ^ 24"
  shows "createTaskResponseHash C i (b # response) =
     createTaskResponseHash C (word_of_nat (256 * unat i + unat b)) response \<and>
     i \<noteq> word_of_nat (256 * unat i + unat b)"
proof -
  define n where "n = 256 * unat i + unat b"
  have b: "unat b < 256" using unsigned_less [of b, where ?'a = nat] by simp
  with assms(2) have small: "n < 2 ^ 32" by (simp add: n_def)
  then have n: "unat (word_of_nat n :: u32) = n" by (simp add: unsigned_of_nat take_bit_nat_eq_self)
  have bytes_word: "big_Bytes (uint w) = nat_Bytes (unat w)" for w :: u32 by (simp add: big_Bytes_def)
  have "nat_Bytes n = nat_Bytes (unat i) @ [b]"
    using assms(1) b by (simp add: n_def nat_Bytes_pos [of "256 * unat i + unat b"])
  then have "big_Bytes (uint (word_of_nat n :: u32)) = big_Bytes (uint i) @ [b]"
    by (simp only: bytes_word n)
  moreover have "unat i \<noteq> n" using assms(1) by (simp add: n_def)
  then have "i \<noteq> word_of_nat n" using n by metis
  ultimately show ?thesis by (simp only: createTaskResponseHash_def Let_def append.assoc append_Cons append_Nil flip: n_def) simp
qed

section \<open>Witnesses\<close>

definition ex_criteria :: ValidationCriteria where
  "ex_criteria = \<lparr>vc_MaxPriceDeviation = Some 50, vc_MaxLiquidityChange = Some 100,
     vc_MaxTimeGap = 300, vc_MinimumConfirmations = 1\<rparr>"

text \<open>A scheme whose public key is the last byte of a 65-byte signature: enough to run the code.\<close>

definition ex_crypto :: "(u8, u8) crypto" where
  "ex_crypto = \<lparr>SigToPub = (\<lambda>h s. if length s = 65 then Some (last s) else None),
     PubkeyToAddress = (\<lambda>k. [k]), CompressPubkey = (\<lambda>k. [k]),
     VerifySignature = (\<lambda>k h s. length s = 64), Sign = (\<lambda>h k. Inr (replicate 64 0 @ [k])),
     BytesToHash = (\<lambda>b. b)\<rparr>"

theorem ValidatePoolState_accepts_witness:
  "(\<exists>r. ValidatePoolState 105 105 105 (ex_state 1050 2040) (ex_global [(1, ex_state 1000 2000)] 1000 (Some 2000))
     ex_criteria = Inr (r, None) \<and> vr_IsValid r) \<and>
   (\<exists>r err. ValidatePoolState 105 105 105 (ex_state 1050 2051) (ex_global [(1, ex_state 1000 2000)] 1000 (Some 2000))
     ex_criteria = Inr (r, err) \<and> err \<noteq> None \<and> \<not> vr_IsValid r)"
proof -
  let ?g = "ex_global [(1, ex_state 1000 2000)] 1000 (Some 2000)"
  have g: "gps_AveragePrice ?g = Some 2000"
    "map_get (gps_ChainStates ?g) (ps_ChainID (ex_state l p)) = Some (ex_state 1000 2000)" for l p
    by (simp_all add: ex_global_def ex_state_def go_eval)
  have c: "vc_MaxPriceDeviation ex_criteria = Some 50" "vc_MaxLiquidityChange ex_criteria = Some 100"
    by (simp_all add: ex_criteria_def)
  have t: "uint64 105 - ps_Timestamp (ex_state l p) \<le> vc_MaxTimeGap ex_criteria" for l p
    by (simp add: go_eval ex_state_def ex_criteria_def)
  have w: "\<forall>q. map_get (gps_ChainStates ?g) (ps_ChainID (ex_state l p)) = Some q \<longrightarrow> ps_wf q" for l p
    by (simp add: g)
  note A = ValidatePoolState_accepts [OF ex_state_facts(1) g(1) w c, of 105 105 105]
  from A [of 1050 2040] A [of 1050 2051] show ?thesis by (auto simp: g t)
qed

theorem ValidatePoolState_confidence_witness:
  "\<exists>r. ValidatePoolState 105 105 105 (ex_state 1050 2040) (ex_global [] 1000 (Some 2000)) ex_criteria = Inr (r, None) \<and>
     (\<exists>c. vr_Confidence r = Fin c \<and> 35721/262144 \<le> c \<and> c < 1)"
proof -
  let ?g = "ex_global [] 1000 (Some 2000)"
  have g: "gps_AveragePrice ?g = Some 2000" by (simp add: ex_global_def)
  obtain r where r: "ValidatePoolState 105 105 105 (ex_state 1050 2040) ?g ex_criteria = Inr (r, None)"
    by (simp add: ValidatePoolState_def validatePriceDeviation_def validateLiquidityChange_def
        validateTimestamp_def calculateConfidence_def ex_global_def ex_state_def ex_criteria_def
        go_eval)
  have "deviation_percent 2000 (price (ex_state 1050 2040)) = 2" by (simp add: deviation_percent_def)
  with ValidatePoolState_confidence [OF ex_state_facts(1) g r] r show ?thesis by force
qed

theorem validateTimestamp_future_rejected_witness:
  "\<not> vr_IsValid (fst (validateTimestamp 4 ((ex_state 1000 2000)\<lparr>ps_Timestamp := 5\<rparr>) ex_criteria
       \<lparr>vr_IsValid = True, vr_Confidence = f_lit 0, vr_Reason = [], vr_Timestamp = 4\<rparr>))"
  using validateTimestamp_future_rejected [of 4 "(ex_state 1000 2000)\<lparr>ps_Timestamp := 5\<rparr>" ex_criteria
      "\<lparr>vr_IsValid = True, vr_Confidence = f_lit 0, vr_Reason = [], vr_Timestamp = 4\<rparr>"]
  by (simp add: ex_criteria_def)

theorem ValidateTaskResponse_accepts_witness:
  "\<exists>r. ValidateTaskResponse ex_crypto 0 0 7 [1] (replicate 64 0 @ [9]) [9] = Inr (r, None) \<and>
     vr_IsValid r \<and> vr_Confidence r = Fin 1"
proof -
  have "\<forall>h s k. SigToPub ex_crypto h s = Some k \<longrightarrow> 64 \<le> length s" by (simp add: ex_crypto_def)
  from ValidateTaskResponse_accepts [where C = ex_crypto and ?t0.0 = 0 and ?t1.0 = 0 and taskIndex = 7
      and response = "[1]" and signature = "replicate 64 0 @ [9]" and operatorAddr = "[9]", OF this]
  show ?thesis by (auto simp: ex_crypto_def)
qed

theorem SignMessage_rejected_witness:
  "\<exists>s r. SignMessage ex_crypto 9 [1] = Inr (Inr s) \<and>
     ValidateOperatorSignature ex_crypto 0 [9] [1] s = Inr (r, None) \<and> \<not> vr_IsValid r"
proof -
  have 1: "\<forall>h s k. SigToPub ex_crypto h s = Some k \<longrightarrow> length s = 65" by (simp add: ex_crypto_def)
  have 2: "SignMessage ex_crypto 9 [1] = Inr (Inr (replicate 64 0))"
    by (simp add: SignMessage_def ex_crypto_def slice_to_def)
  from SignMessage_rejected [OF 1 2, of 0 "[9]"] 2 show ?thesis by blast
qed

theorem createTaskResponseHash_collision_witness:
  "createTaskResponseHash ex_crypto 1 [2, 3] = createTaskResponseHash ex_crypto 258 [3]"
  using createTaskResponseHash_collision [of 1 ex_crypto 2 "[3]"] by simp

end
