(* ===== verification/State_Predictor.thy ===== *)
theory State_Predictor
  imports State_Validator
begin

text \<open>
  The predictor, \<^verbatim>\<open>pkg/state/predictor.go\<close>. It keeps no state: every method reads a global
  pool state. Where the Go code converts a float to \<open>int64\<close>, the value of an out-of-range
  conversion is the implementation's and is the parameter \<open>impl\<close>; readings of the clock (Unix
  seconds) are arguments. The squared distances to a mean are summed by the same loop body as in
  the aggregator, \<open>sumSquaredDiffs\<close>.
\<close>

section \<open>Data\<close>

record PredictionResult =
  pr_PredictedPrice :: bigptr
  pr_PredictedLiquidity :: bigptr
  pr_Confidence :: float64
  pr_TimeHorizon :: u64
  pr_Timestamp :: u64

record MarketTrend =
  mt_Direction :: string
  mt_Strength :: float64
  mt_Confidence :: float64
  mt_Duration :: u64

section \<open>Operations\<close>

definition sumBig :: "bigptr list \<Rightarrow> int go" where
  "sumBig values = for_range (\<lambda>total v. go_bind (deref v) (\<lambda>x. Inr (total + x))) 0 values"

definition countAbove :: "int \<Rightarrow> bigptr list \<Rightarrow> int go" where
  "countAbove avgPrice prices =
     for_range (\<lambda>aboveAvg p. go_bind (deref p) (\<lambda>price.
         Inr (if avgPrice < price then aboveAvg + 1 else aboveAvg))) 0 prices"

definition calculateTrendDirection :: "bigptr list \<Rightarrow> (string \<times> float64 \<times> error option) go" where
  "calculateTrendDirection prices =
     (if length prices < 2 then Inr (''sideways'', f_lit 0, None)
      else go_bind (sumBig prices) (\<lambda>total.
        go_bind (big_Div total (int (length prices))) (\<lambda>avgPrice.
        go_bind (sumSquaredDiffs (Some avgPrice) prices) (\<lambda>variance.
        go_bind (big_Div variance (int (length prices))) (\<lambda>v.
        let stdDev = predictor_sqrt v in
        go_bind (big_Div avgPrice 100) (\<lambda>threshold.
          if stdDev < threshold then Inr (''sideways'', f_lit 0, None)
          else go_bind (countAbove avgPrice prices) (\<lambda>aboveAvg.
            let strength = f_div (f_of_int aboveAvg) (f_of_int (int (length prices))) in
            if f_greater strength (f_lit (3/5)) then Inr (''up'', strength, None)
            else if f_less strength (f_lit (2/5)) then Inr (''down'', f_sub (f_lit 1) strength, None)
            else Inr (''sideways'', f_lit 0, None))))))))"

definition calculateAverage :: "bigptr list \<Rightarrow> int go" where
  "calculateAverage values =
     (if length values = 0 then Inr 0
      else go_bind (sumBig values) (\<lambda>total. big_Div total (int (length values))))"

definition calculateStandardDeviation :: "bigptr list \<Rightarrow> int \<Rightarrow> int go" where
  "calculateStandardDeviation values mean =
     (if length values = 0 then Inr 0
      else go_bind (sumSquaredDiffs (Some mean) values) (\<lambda>variance.
        go_bind (big_Div variance (int (length values))) (\<lambda>v. Inr (predictor_sqrt v))))"

definition calculateTrendConfidence :: "(u32, PoolState) gomap \<Rightarrow> float64 go" where
  "calculateTrendConfidence chainStates =
     (if length chainStates < 2 then Inr (f_lit 0)
      else let prices = map ps_Price (map_vals chainStates) in
        go_bind (calculateAverage prices) (\<lambda>avg.
          if avg = 0 then Inr (f_lit 0)
          else go_bind (calculateStandardDeviation prices avg) (\<lambda>stdDev.
            go_bind (big_Div (stdDev * 100) avg) (\<lambda>cv.
              let cvFloat = f_of_int (big_Int64 cv) in
              if f_greater cvFloat (f_lit 10) then Inr (f_lit 0)
              else if f_greater cvFloat (f_lit 5) then Inr (f_lit (1/2))
              else if f_greater cvFloat (f_lit 2) then Inr (f_lit (4/5))
              else Inr (f_lit 1)))))"

definition analyzeTrend :: "GlobalPoolState \<Rightarrow> (error + MarketTrend) go" where
  "analyzeTrend gs =
     (let chainStates = gps_ChainStates gs in
      if length chainStates < 2 then
        Inr (Inr \<lparr>mt_Direction = ''sideways'', mt_Strength = f_lit 0, mt_Confidence = f_lit 0, mt_Duration = 0\<rparr>)
      else let prices = map ps_Price (map_vals chainStates) in
        go_bind (calculateTrendDirection prices) (\<lambda>(direction, strength, err). case err of
            Some e \<Rightarrow> Inr (Inl (''failed to calculate trend direction: '' @ e))
          | None \<Rightarrow> go_bind (calculateTrendConfidence chainStates) (\<lambda>confidence.
              Inr (Inr \<lparr>mt_Direction = direction, mt_Strength = strength, mt_Confidence = confidence,
                        mt_Duration = 300\<rparr>))))"

definition calculatePriceChangePercent :: "(float64 \<Rightarrow> int) \<Rightarrow> MarketTrend \<Rightarrow> u64 \<Rightarrow> int" where
  "calculatePriceChangePercent impl trend timeHorizon =
     (let baseChange = go_int64 impl (f_mul (mt_Strength trend) (f_lit 100));
          timeMultiplier = f_div (f_of_int (uint timeHorizon)) (f_lit 300);
          change = f_mul (f_mul (f_of_int baseChange) timeMultiplier) (mt_Confidence trend);
          change = (if f_greater change (f_lit 10) then f_lit 10 else change);
          change = (if f_less change (f_lit (-10)) then f_lit (-10) else change)
      in go_int64 impl change)"

definition predictPrice ::
  "(float64 \<Rightarrow> int) \<Rightarrow> GlobalPoolState \<Rightarrow> MarketTrend \<Rightarrow> u64 \<Rightarrow> (int \<times> error option) go" where
  "predictPrice impl gs trend timeHorizon =
     go_bind (deref (gps_AveragePrice gs)) (\<lambda>currentPrice.
       if currentPrice = 0 then Inr (0, Some ''no current price available'')
       else let changePercent = calculatePriceChangePercent impl trend timeHorizon in
         go_bind (big_Div (currentPrice * changePercent) 100) (\<lambda>change.
           let predictedPrice =
             (if mt_Direction trend = ''up'' then currentPrice + change
              else if mt_Direction trend = ''down'' then currentPrice - change
              else currentPrice)
           in Inr (if predictedPrice < 0 then 1 else predictedPrice, None)))"

definition predictLiquidity ::
  "GlobalPoolState \<Rightarrow> int \<Rightarrow> u64 \<Rightarrow> (int \<times> error option) go" where
  "predictLiquidity gs predictedPrice timeHorizon =
     go_bind (deref (gps_TotalLiquidity gs)) (\<lambda>currentLiquidity.
       if currentLiquidity = 0 then Inr (0, Some ''no current liquidity available'')
       else go_bind (deref (gps_AveragePrice gs)) (\<lambda>currentPrice.
         if currentPrice = 0 then Inr (currentLiquidity, None)
         else go_bind (big_Div ((predictedPrice - currentPrice) * 100) currentPrice) (\<lambda>priceChangePercent.
           go_bind (big_Div (currentLiquidity * priceChangePercent) 200) (\<lambda>liquidityChange.
             let predictedLiquidity = currentLiquidity + liquidityChange in
             Inr (if predictedLiquidity < 0 then 1 else predictedLiquidity, None)))))"

definition predictor_calculateImbalance :: "GlobalPoolState \<Rightarrow> int go" where
  "predictor_calculateImbalance gs =
     (let chainStates = gps_ChainStates gs in
      if length chainStates < 2 then Inr 0
      else go_bind (deref (gps_TotalLiquidity gs)) (\<lambda>totalLiquidity.
        go_bind (big_Div totalLiquidity (int (length chainStates))) (\<lambda>expectedPerChain.
          sumDeviations expectedPerChain (map_vals chainStates))))"

definition predictImbalance :: "GlobalPoolState \<Rightarrow> u64 \<Rightarrow> (int \<times> error option) go" where
  "predictImbalance gs timeHorizon = go_bind (predictor_calculateImbalance gs) (\<lambda>i. Inr (i, None))"

definition predictor_calculateImbalancePercent :: "int \<Rightarrow> bigptr \<Rightarrow> float64 go" where
  "predictor_calculateImbalancePercent imbalance totalLiquidity =
     go_bind (deref totalLiquidity) (\<lambda>t.
       if t = 0 then Inr (f_lit 0)
       else go_bind (big_Div (imbalance * 100) t) (\<lambda>percent. Inr (f_of_int (big_Int64 percent))))"

definition calculateRebalancingAmount :: "GlobalPoolState \<Rightarrow> int \<Rightarrow> int go" where
  "calculateRebalancingAmount gs imbalance =
     go_bind (big_Div imbalance 2) (\<lambda>half.
     go_bind (deref (gps_TotalLiquidity gs)) (\<lambda>t.
     go_bind (big_Div t 10) (\<lambda>maxAmount.
       let minAmount = 1000000000000000000;
           amount = (if half < minAmount then minAmount else half)
       in Inr (if maxAmount < amount then maxAmount else amount))))"

definition PredictRebalancingNeed ::
  "GlobalPoolState \<Rightarrow> float64 \<Rightarrow> (bool \<times> bigptr \<times> error option) go" where
  "PredictRebalancingNeed gs threshold =
     go_bind (predictor_calculateImbalance gs) (\<lambda>currentImbalance.
     go_bind (predictImbalance gs 300) (\<lambda>(futureImbalance, err). case err of
         Some e \<Rightarrow> Inr (False, None, Some (''failed to predict imbalance: '' @ e))
       | None \<Rightarrow>
          go_bind (predictor_calculateImbalancePercent futureImbalance (gps_TotalLiquidity gs)) (\<lambda>imbalancePercent.
            if f_greater imbalancePercent threshold
            then go_bind (calculateRebalancingAmount gs futureImbalance) (\<lambda>a. Inr (True, Some a, None))
            else Inr (False, None, None))))"

definition predictor_calculateConfidence :: "int \<Rightarrow> GlobalPoolState \<Rightarrow> MarketTrend \<Rightarrow> float64" where
  "predictor_calculateConfidence now gs trend =
     (let chainCount = length (gps_ChainStates gs);
          baseConfidence = f_mul (mt_Confidence trend)
            (if 3 \<le> chainCount then f_lit 1 else if chainCount = 2 then f_lit (4/5) else f_lit (1/2));
          age = uint64 now - gps_LastUpdateBlock gs
      in f_mul baseConfidence
           (if age < 60 then f_lit 1 else if age < 300 then f_lit (9/10)
            else if age < 600 then f_lit (4/5) else f_lit (3/5)))"

definition PredictPoolState ::
  "(float64 \<Rightarrow> int) \<Rightarrow> int \<Rightarrow> int \<Rightarrow> GlobalPoolState \<Rightarrow> u64 \<Rightarrow> (error + PredictionResult) go" where
  "PredictPoolState impl t0 t1 gs timeHorizon =
     go_bind (analyzeTrend gs) (\<lambda>tr. case tr of
         Inl e \<Rightarrow> Inr (Inl (''failed to analyze trend: '' @ e))
       | Inr trend \<Rightarrow> go_bind (predictPrice impl gs trend timeHorizon) (\<lambda>(predictedPrice, err1). case err1 of
           Some e \<Rightarrow> Inr (Inl (''failed to predict price: '' @ e))
         | None \<Rightarrow> go_bind (predictLiquidity gs predictedPrice timeHorizon) (\<lambda>(predictedLiquidity, err2). case err2 of
             Some e \<Rightarrow> Inr (Inl (''failed to predict liquidity: '' @ e))
           | None \<Rightarrow> Inr (Inr \<lparr>pr_PredictedPrice = Some predictedPrice,
                 pr_PredictedLiquidity = Some predictedLiquidity,
                 pr_Confidence = predictor_calculateConfidence t0 gs trend,
                 pr_TimeHorizon = timeHorizon, pr_Timestamp = uint64 t1\<rparr>))))"

section \<open>The trend\<close>

definition mean_price :: "PoolState list \<Rightarrow> int" where
  "mean_price ss = sum_list (map price ss) div int (length ss)"

definition above_mean :: "PoolState list \<Rightarrow> int" where
  "above_mean ss = int (length (filter (\<lambda>s. mean_price ss < price s) ss))"

text \<open>The standard deviation reaches one percent of the mean.\<close>

definition dispersed :: "PoolState list \<Rightarrow> bool" where
  "dispersed ss \<longleftrightarrow> mean_price ss div 100 \<le> predictor_sqrt (sq_diffs (mean_price ss) ss div int (length ss))"

lemma prices_wf: "\<forall>s \<in> set ss. ps_wf s \<Longrightarrow> map ps_Price ss = map (\<lambda>s. Some (price s)) ss"
  by (simp add: ps_wf_fields)

lemma sumBig_wf:
  assumes "\<forall>s \<in> set ss. ps_wf s"
  shows "sumBig (map ps_Price ss) = Inr (sum_list (map price ss))"
proof -
  have "sumBig (map (\<lambda>s. Some (price s)) ss) = Inr (fold (\<lambda>p t. t + the p) (map (\<lambda>s. Some (price s)) ss) 0)"
    unfolding sumBig_def by (rule for_range_total) auto
  then show ?thesis by (simp add: prices_wf [OF assms] fold_plus_sum comp_def)
qed

lemma countAbove_wf:
  assumes "\<forall>s \<in> set ss. ps_wf s"
  shows "countAbove m (map ps_Price ss) = Inr (int (length (filter (\<lambda>s. m < price s) ss)))"
proof -
  have "countAbove m (map (\<lambda>s. Some (price s)) ss) =
      Inr (fold (\<lambda>p c. c + (if m < the p then 1 else 0)) (map (\<lambda>s. Some (price s)) ss) 0)"
    unfolding countAbove_def by (rule for_range_total) auto
  moreover have "sum_list (map (\<lambda>s. if m < price s then 1 else 0) ss) = int (length (filter (\<lambda>s. m < price s) ss))"
    by (induction ss) auto
  ultimately show ?thesis by (simp add: prices_wf [OF assms] fold_plus_sum comp_def)
qed

lemma length_u32_map: "map_ok (m :: (u32, 'v) gomap) \<Longrightarrow> length m \<le> 2 ^ 32"
proof -
  assume "map_ok m"
  then have "length m = card (set (map fst m))" by (metis distinct_card length_map map_ok_def)
  also have "\<dots> \<le> card (UNIV :: u32 set)" by (rule card_mono) auto
  also have "\<dots> = 2 ^ 32" by (simp add: card_word)
  finally show ?thesis .
qed

text \<open>The float comparison of the fraction of chains above the mean is the exact one.\<close>

lemma strength_cmp:
  fixes a n :: int
  assumes "0 \<le> a" "a \<le> n" "0 < n" "n \<le> 2 ^ 32"
  shows "f_div (f_of_int a) (f_of_int n) = Fin (rnd (of_int a / of_int n))"
    and "f_less (f_lit (3/5)) (f_div (f_of_int a) (f_of_int n)) \<longleftrightarrow> 3 * n < 5 * a"
    and "f_less (f_div (f_of_int a) (f_of_int n)) (f_lit (2/5)) \<longleftrightarrow> 5 * a < 2 * n"
proof -
  let ?q = "of_int a / of_int n :: rat"
  have q: "0 \<le> ?q" "?q \<le> 1" using assms by simp_all
  have ex: "f_of_int a = Fin (of_int a)" "f_of_int n = Fin (of_int n)"
    using assms by (simp_all add: f_of_int_exact)
  show d: "f_div (f_of_int a) (f_of_int n) = Fin (rnd ?q)"
    using assms q by (simp add: ex f_div_def round64_unit)
  have lit: "f_lit (3/5) = Fin (rnd (3/5))" "f_lit (2/5) = Fin (rnd (2/5))"
    by (simp_all add: f_lit_def round64_unit)
  have rat: "(of_int c * of_int n < of_int e * (of_int a :: rat)) = (c * n < e * a)"
    "(of_int e * of_int a < of_int c * (of_int n :: rat)) = (e * a < c * n)" for c e
    by (simp_all only: of_int_mult [symmetric] of_int_less_iff)
  have gap1: "1 / 2 ^ 51 \<le> 2/5 - ?q" if "?q < 2/5"
    using frac_gap [of n 5 a 2] assms that by simp
  have "3/5 < ?q \<Longrightarrow> of_int (- a) / of_int n < (of_int (- 3) / of_int 5 :: rat)" by simp
  from frac_gap [OF _ _ _ _ this] assms
  have gap2: "3/5 < ?q \<Longrightarrow> 1 / 2 ^ 51 \<le> ?q - 3/5" by simp
  have "rnd (3/5) < rnd ?q \<longleftrightarrow> 3/5 < ?q" by (rule rnd_less_iff) (use q gap2 in auto)
  also have "\<dots> \<longleftrightarrow> 3 * n < 5 * a"
    using assms(3) rat(1) [of 3 5] by (simp add: less_divide_eq divide_less_eq mult.commute)
  finally show "f_less (f_lit (3/5)) (f_div (f_of_int a) (f_of_int n)) \<longleftrightarrow> 3 * n < 5 * a"
    by (simp add: d lit)
  have "rnd ?q < rnd (2/5) \<longleftrightarrow> ?q < 2/5" by (rule rnd_less_iff) (use q gap1 in auto)
  also have "\<dots> \<longleftrightarrow> 5 * a < 2 * n"
    using assms(3) rat(2) [of 5 2] by (simp add: less_divide_eq divide_less_eq mult.commute)
  finally show "f_less (f_div (f_of_int a) (f_of_int n)) (f_lit (2/5)) \<longleftrightarrow> 5 * a < 2 * n"
    by (simp add: d lit)
qed

text \<open>The trend that the code computes, as a function of exact quantities.\<close>

definition trend_direction :: "PoolState list \<Rightarrow> string" where
  "trend_direction ss =
     (if \<not> dispersed ss then ''sideways''
      else if 3 * int (length ss) < 5 * above_mean ss then ''up''
      else if 5 * above_mean ss < 2 * int (length ss) then ''down'' else ''sideways'')"

lemma above_mean_bounds: "0 \<le> above_mean ss" "above_mean ss \<le> int (length ss)"
  by (simp_all add: above_mean_def)

lemma calculateTrendDirection_wf:
  assumes wf: "\<forall>s \<in> set ss. ps_wf s" and n: "2 \<le> length ss" "length ss \<le> 2 ^ 32"
  shows "\<exists>strength. calculateTrendDirection (map ps_Price ss) = Inr (trend_direction ss, strength, None) \<and>
     unit_f strength"
proof -
  have len: "0 < int (length ss)" "int (length ss) \<le> 2 ^ 32" using n by auto
  note cmp = strength_cmp [OF above_mean_bounds [of ss] len]
  define st where "st = f_div (f_of_int (above_mean ss)) (f_of_int (int (length ss)))"
  let ?q = "of_int (above_mean ss) / of_int (int (length ss)) :: rat"
  have "0 \<le> ?q" "?q \<le> 1" using above_mean_bounds [of ss] len by simp_all
  then have "0 \<le> rnd ?q" "rnd ?q \<le> 1" "rnd (rnd ?q) = rnd ?q" using round64_unit [of ?q] rnd_idem [of ?q] by auto
  moreover from this have "unit_f (round64 (1 - rnd ?q))" by (intro unit_f_round) auto
  ultimately have u: "unit_f st" "unit_f (f_sub (Fin 1) st)"
    unfolding st_def cmp(1) f_sub_def f_neg.simps f_add_def by (simp_all add: unit_f_def [of "Fin _"])
  have c: "f_less (f_lit (3/5)) st \<longleftrightarrow> 3 * int (length ss) < 5 * above_mean ss"
    "f_less st (f_lit (2/5)) \<longleftrightarrow> 5 * above_mean ss < 2 * int (length ss)"
    using cmp(2,3) by (simp_all add: st_def)
  have m: "sum_list (map price ss) div int (length ss) = mean_price ss"
    "int (length (filter (\<lambda>s. mean_price ss < price s) ss)) = above_mean ss"
    by (simp_all add: mean_price_def above_mean_def)
  have "ss \<noteq> []" "\<not> length ss < 2" using n by auto
  then show ?thesis
    using u
    by (simp add: calculateTrendDirection_def sumBig_wf [OF wf] m sumSquaredDiffs_wf [OF wf]
        countAbove_wf [OF wf] c trend_direction_def dispersed_def Let_def flip: st_def)
qed

lemma calculateTrendConfidence_wf:
  assumes wf: "\<forall>s \<in> set (map_vals m). ps_wf s"
  shows "\<exists>c. calculateTrendConfidence m = Inr c \<and> unit_f c"
proof -
  have lits: "unit_f (f_lit 0)" "unit_f (f_lit (1/2))" "unit_f (f_lit (4/5))" "unit_f (f_lit 1)"
    by (rule unit_f_lit; simp)+
  show ?thesis
    using lits
    by (auto simp: calculateTrendConfidence_def calculateAverage_def calculateStandardDeviation_def
        sumBig_wf [OF wf] sumSquaredDiffs_wf [OF wf] Let_def simp del: f_lit_0 f_lit_1)
qed

text \<open>A well-formed trend: what analyzeTrend produces on complete reports.\<close>

definition trend_ok :: "MarketTrend \<Rightarrow> bool" where
  "trend_ok t \<longleftrightarrow> mt_Direction t \<in> {''up'', ''down'', ''sideways''} \<and>
     unit_f (mt_Strength t) \<and> unit_f (mt_Confidence t)"

lemma analyzeTrend_wf:
  assumes "map_ok (gps_ChainStates gs)" and "\<forall>s \<in> set (map_vals (gps_ChainStates gs)). ps_wf s"
  shows "\<exists>t. analyzeTrend gs = Inr (Inr t) \<and> trend_ok t \<and>
     mt_Direction t = (if length (gps_ChainStates gs) < 2 then ''sideways''
       else trend_direction (map_vals (gps_ChainStates gs)))"
proof (cases "length (gps_ChainStates gs) < 2")
  case False
  from calculateTrendDirection_wf [OF assms(2)] length_u32_map [OF assms(1)] False
  obtain s where s: "calculateTrendDirection (map ps_Price (map_vals (gps_ChainStates gs))) =
      Inr (trend_direction (map_vals (gps_ChainStates gs)), s, None)" "unit_f s" by auto
  from calculateTrendConfidence_wf [OF assms(2)] obtain c where
    c: "calculateTrendConfidence (gps_ChainStates gs) = Inr c" "unit_f c" by blast
  from False s c show ?thesis
    by (simp add: analyzeTrend_def trend_ok_def trend_direction_def)
qed (simp add: analyzeTrend_def trend_ok_def)

section \<open>Predicted price and liquidity\<close>

lemma go_int64_range:
  assumes "f_range k x" and "k < 63"
  shows "0 \<le> go_int64 impl x \<and> go_int64 impl x \<le> 2 ^ k"
proof -
  obtain c where c: "x = Fin c" "0 \<le> c" "c \<le> 2 ^ k" using assms(1) by (auto simp: f_range_def)
  have fl: "\<lfloor>c\<rfloor> \<le> 2 ^ k" using floor_mono [OF c(3)] by (simp add: floor_power)
  have "(2::int) ^ k < 2 ^ 63" using assms(2) by (intro power_strict_increasing) auto
  with fl have "\<lfloor>c\<rfloor> < 2 ^ 63" by linarith
  then have "f_to_int64 x = Some \<lfloor>c\<rfloor>" using c(1,2) by (simp add: trunc_rat_def Let_def)
  with c fl show ?thesis by (simp add: go_int64_def)
qed

text \<open>Whatever the horizon, the change is a percentage between 0 and 10: all intermediate floats are
  finite, so the truncations are in range.\<close>

lemma calculatePriceChangePercent_bounds:
  assumes "trend_ok t"
  shows "0 \<le> calculatePriceChangePercent impl t h \<and> calculatePriceChangePercent impl t h \<le> 10"
proof -
  have lits: "f_lit 100 = Fin 100" "f_lit 300 = Fin 300" "f_lit 10 = Fin 10" "f_lit (-10) = Fin (-10)"
    using f_lit_int [of 100] f_lit_int [of 300] f_lit_int [of 10] f_lit_int [of "-10"] by simp_all
  have "f_range 0 (mt_Strength t)" "f_range 7 (f_lit 100)"
    using assms unit_f_range by (auto simp: trend_ok_def lits f_range_def [of 7])
  then have "f_range 7 (f_mul (mt_Strength t) (f_lit 100))" using f_mul_range by force
  then have base: "f_range 7 (f_of_int (go_int64 impl (f_mul (mt_Strength t) (f_lit 100))))"
    using go_int64_range [of 7 _ impl] by (intro f_of_int_range) simp_all
  have "uint h \<le> 2 ^ 64" using uint_lt2p [of h] by simp
  then have "f_range 64 (f_div (f_of_int (uint h)) (f_lit 300))"
    unfolding lits by (intro f_div_range f_of_int_range) simp_all
  with base have "f_range 71 (f_mul (f_of_int (go_int64 impl (f_mul (mt_Strength t) (f_lit 100))))
      (f_div (f_of_int (uint h)) (f_lit 300)))" using f_mul_range by force
  moreover have "f_range 0 (mt_Confidence t)" using assms by (simp add: trend_ok_def unit_f_range)
  ultimately have "f_range 71 (f_mul (f_mul (f_of_int (go_int64 impl (f_mul (mt_Strength t) (f_lit 100))))
      (f_div (f_of_int (uint h)) (f_lit 300))) (mt_Confidence t))" using f_mul_range by force
  then obtain c where c: "f_mul (f_mul (f_of_int (go_int64 impl (f_mul (mt_Strength t) (f_lit 100))))
      (f_div (f_of_int (uint h)) (f_lit 300))) (mt_Confidence t) = Fin c" "0 \<le> c"
    by (auto simp: f_range_def)
  have "go_int64 impl (Fin (min c 10)) = \<lfloor>min c 10\<rfloor>" "0 \<le> \<lfloor>min c 10\<rfloor>" "\<lfloor>min c 10\<rfloor> \<le> 10"
    using c(2) by (auto simp: go_int64_def trunc_rat_def Let_def min_def floor_le_iff)
  moreover have "calculatePriceChangePercent impl t h = go_int64 impl (Fin (min c 10))"
    using c by (simp add: calculatePriceChangePercent_def Let_def lits(3,4) min_def)
  ultimately show ?thesis by simp
qed

lemma predictPrice_bounds:
  assumes "gps_AveragePrice gs = Some p" and "0 < p" and "trend_ok t"
  shows "\<exists>q. predictPrice impl gs t h = Inr (q, None) \<and> 0 < q \<and> 10 * \<bar>q - p\<bar> \<le> p \<and>
     (q < p \<longrightarrow> mt_Direction t = ''down'') \<and> (p < q \<longrightarrow> mt_Direction t = ''up'')"
proof -
  define c where "c = p * calculatePriceChangePercent impl t h div 100"
  have "p * calculatePriceChangePercent impl t h \<le> p * 10"
    using calculatePriceChangePercent_bounds [OF assms(3)] assms(2) by (intro mult_left_mono) auto
  then have c: "0 \<le> c" "10 * c \<le> p"
    using calculatePriceChangePercent_bounds [OF assms(3)] assms(2)
    unfolding c_def by (simp add: pos_imp_zdiv_nonneg_iff, linarith)
  let ?q = "if mt_Direction t = ''up'' then p + c else if mt_Direction t = ''down'' then p - c else p"
  have "predictPrice impl gs t h = Inr (?q, None)"
    using assms(1,2) c by (auto simp: predictPrice_def Let_def simp flip: c_def)
  with c assms(2) show ?thesis by (intro exI [of _ ?q]) auto
qed

lemma predictLiquidity_bounds:
  assumes "gps_TotalLiquidity gs = Some l" and "0 < l" and "gps_AveragePrice gs = Some p" and "0 < p"
    and "10 * \<bar>q - p\<bar> \<le> p"
  shows "\<exists>m. predictLiquidity gs q h = Inr (m, None) \<and> 0 \<le> m \<and> 19 * l - 20 < 20 * m \<and> 20 * m \<le> 21 * l"
proof -
  define r where "r = (q - p) * 100 div p"
  have "(q - p) * 100 \<le> 10 * p" "- 10 * p \<le> (q - p) * 100"
    using assms(5) by (auto simp: abs_if split: if_splits)
  then have "r \<le> (10 * p) div p" "(- 10 * p) div p \<le> r"
    unfolding r_def using assms(4) by (simp_all only: zdiv_mono1)
  then have r: "- 10 \<le> r" "r \<le> 10"
    using assms(4) nonzero_mult_div_cancel_right [of p "- 10"] nonzero_mult_div_cancel_right [of p 10] by simp_all
  define d where "d = l * r div 200"
  have "l * r \<le> l * 10" "l * (- 10) \<le> l * r"
    using r assms(2) by (intro mult_left_mono; simp)+
  then have d: "20 * d \<le> l" "- l - 20 < 20 * d" unfolding d_def by linarith+
  then have "0 \<le> l + d" using assms(2) by linarith
  then have "predictLiquidity gs q h = Inr (l + d, None)"
    using assms(1-4) by (simp add: predictLiquidity_def Let_def r_def d_def)
  with d \<open>0 \<le> l + d\<close> show ?thesis by auto
qed

section \<open>Imbalance\<close>

text \<open>The imbalance of a pool whose total is the sum of its chains' liquidities.\<close>

definition pool_imbalance :: "PoolState list \<Rightarrow> int" where
  "pool_imbalance ss = (if length ss < 2 then 0 else abs_dev (total_liq ss div int (length ss)) ss)"

lemma predictor_calculateImbalance_wf:
  assumes "\<forall>s \<in> set (map_vals (gps_ChainStates gs)). ps_wf s"
    and "gps_TotalLiquidity gs = Some (total_liq (map_vals (gps_ChainStates gs)))"
  shows "predictor_calculateImbalance gs = Inr (pool_imbalance (map_vals (gps_ChainStates gs)))"
proof (cases "length (gps_ChainStates gs) < 2")
  case False
  then have "gps_ChainStates gs \<noteq> []" by auto
  with False assms show ?thesis
    by (simp add: predictor_calculateImbalance_def pool_imbalance_def sumDeviations_wf Let_def)
qed (simp add: predictor_calculateImbalance_def pool_imbalance_def)

lemma pool_imbalance_bounds:
  assumes "\<forall>s \<in> set ss. 0 \<le> liq s"
  shows "0 \<le> pool_imbalance ss" and "pool_imbalance ss \<le> 2 * total_liq ss"
proof -
  have T: "0 \<le> total_liq ss" unfolding total_liq_def using assms by (intro sum_list_nonneg) auto
  show "0 \<le> pool_imbalance ss" "pool_imbalance ss \<le> 2 * total_liq ss"
    using abs_dev_bounds [OF assms] T by (cases "ss = []"; simp add: pool_imbalance_def)+
qed

lemma imbalance_percent_exact:
  assumes "0 \<le> d" and "d \<le> 2 * t" and "0 < t"
  shows "f_of_int (big_Int64 (d * 100 div t)) = Fin (of_int (d * 100 div t))"
proof -
  have "0 \<le> d * 100 div t \<and> d * 100 div t \<le> 200" using assms by (rule percent_bounds)
  then show ?thesis by (simp add: big_Int64_id f_of_int_exact)
qed

section \<open>Properties of prediction\<close>

text \<open>C22: On complete reports of at least two chains the trend analysis neither panics nor fails, and
  the trend is up exactly when the standard deviation of the prices reaches 1 percent of their
  mean and more than 60 percent of the chains are above the mean, down exactly when it does and
  fewer than 40 percent are, although the code compares rounded floats. Strength and confidence
  lie between 0 and 1.\<close>

theorem analyzeTrend_exact:
  assumes "gps_inv gs" and "2 \<le> length (gps_ChainStates gs)"
  defines "ss \<equiv> map_vals (gps_ChainStates gs)"
  shows "\<exists>t. analyzeTrend gs = Inr (Inr t) \<and> unit_f (mt_Strength t) \<and> unit_f (mt_Confidence t) \<and>
     (mt_Direction t = ''up'' \<longleftrightarrow> dispersed ss \<and> 3 * int (length ss) < 5 * above_mean ss) \<and>
     (mt_Direction t = ''down'' \<longleftrightarrow> dispersed ss \<and> 5 * above_mean ss < 2 * int (length ss)) \<and>
     mt_Direction t \<in> {''up'', ''down'', ''sideways''}"
proof -
  have gs: "map_ok (gps_ChainStates gs)" "\<forall>s \<in> set (map_vals (gps_ChainStates gs)). ps_wf s"
    using assms(1) by (simp_all add: gps_inv_def)
  from analyzeTrend_wf [OF gs] assms(2) obtain t where
    t: "analyzeTrend gs = Inr (Inr t)" "trend_ok t" "mt_Direction t = trend_direction ss"
    by (auto simp: ss_def)
  have "\<not> (3 * int (length ss) < 5 * above_mean ss \<and> 5 * above_mean ss < 2 * int (length ss))" by auto
  with t show ?thesis by (auto simp: trend_ok_def trend_direction_def)
qed

text \<open>C11: For a pool with complete reports, positive average price and positive liquidity, a
  prediction never panics and never fails, whatever the horizon: the predicted price is positive
  and within 10 percent of the current one, the predicted liquidity is within 5 percent of the
  current one up to rounding and not negative, and the confidence lies between 0 and 1.\<close>

theorem PredictPoolState_bounds:
  assumes "gps_inv gs" and "gps_AveragePrice gs = Some p" and "0 < p"
    and "gps_TotalLiquidity gs = Some l" and "0 < l"
  shows "\<exists>r q m. PredictPoolState impl t0 t1 gs h = Inr (Inr r) \<and>
     pr_PredictedPrice r = Some q \<and> 0 < q \<and> 10 * \<bar>q - p\<bar> \<le> p \<and>
     pr_PredictedLiquidity r = Some m \<and> 0 \<le> m \<and> 19 * l - 20 < 20 * m \<and> 20 * m \<le> 21 * l \<and>
     unit_f (pr_Confidence r) \<and> pr_TimeHorizon r = h"
proof -
  from assms(1) analyzeTrend_wf [of gs] obtain t where
    t: "analyzeTrend gs = Inr (Inr t)" "trend_ok t" by (auto simp: gps_inv_def)
  from predictPrice_bounds [OF assms(2,3) t(2)] obtain q where
    q: "predictPrice impl gs t h = Inr (q, None)" "0 < q" "10 * \<bar>q - p\<bar> \<le> p" by blast
  from predictLiquidity_bounds [OF assms(4,5,2,3) q(3)] obtain m where
    m: "predictLiquidity gs q h = Inr (m, None)" "0 \<le> m" "19 * l - 20 < 20 * m" "20 * m \<le> 21 * l" by blast
  have "unit_f (mt_Confidence t)" using t(2) by (simp add: trend_ok_def)
  then have "unit_f (predictor_calculateConfidence t0 gs t)"
    unfolding predictor_calculateConfidence_def Let_def by (intro f_mul_unit) (auto intro!: unit_f_lit)
  with t q m show ?thesis by (simp add: PredictPoolState_def)
qed

text \<open>A prediction for a pool without a price fails: with an average of zero by an error, and
  before the first successful recalculation, when the average is still nil, by a panic.\<close>

theorem PredictPoolState_no_price:
  assumes "gps_inv gs"
  shows "(gps_AveragePrice gs = Some 0 \<longrightarrow> PredictPoolState impl t0 t1 gs h =
       Inr (Inl ''failed to predict price: no current price available'')) \<and>
     (gps_AveragePrice gs = None \<longrightarrow> PredictPoolState impl t0 t1 gs h = Inl NilDeref)"
proof -
  from assms analyzeTrend_wf [of gs] obtain t where
    "analyzeTrend gs = Inr (Inr t)" by (auto simp: gps_inv_def)
  then show ?thesis by (simp add: PredictPoolState_def predictPrice_def)
qed

text \<open>For non-negative liquidities the rebalancing decision is exact: it is taken when the
  imbalance in whole percent of the total exceeds the threshold, and an amount is returned
  exactly when it is. The amount is half the imbalance raised to one token (18 decimals) and
  then cut to a tenth of the total liquidity.\<close>

theorem PredictRebalancingNeed_exact:
  assumes "gps_inv gs" and "\<forall>s \<in> set (map_vals (gps_ChainStates gs)). 0 \<le> liq s"
    and "gps_TotalLiquidity gs = Some l" and "0 < l"
  defines "d \<equiv> pool_imbalance (map_vals (gps_ChainStates gs))"
  shows "PredictRebalancingNeed gs (Fin th) =
     Inr (if th < of_int (d * 100 div l)
          then (True, Some (min (max (d div 2) (10 ^ 18)) (l div 10)), None) else (False, None, None))"
proof -
  have l: "l = total_liq (map_vals (gps_ChainStates gs))" using assms(1,3) by (simp add: gps_inv_def)
  have d: "0 \<le> d" "d \<le> 2 * l" unfolding d_def l using pool_imbalance_bounds [OF assms(2)] by auto
  have imb: "predictor_calculateImbalance gs = Inr d"
    using assms(1) unfolding d_def by (intro predictor_calculateImbalance_wf) (auto simp: gps_inv_def)
  show ?thesis
    using assms(4) imbalance_percent_exact [OF d assms(4)]
    by (auto simp: PredictRebalancingNeed_def imb predictImbalance_def assms(3)
        predictor_calculateImbalancePercent_def calculateRebalancingAmount_def Let_def max_def min_def)
qed

text \<open>The confidence takes the block number of the last update for a Unix time: for any block
  number at least 600 below the clock, as those of the supported chains are, every prediction is
  treated as ten minutes old and its confidence multiplied by 0.6, however fresh the data.\<close>

theorem predictor_calculateConfidence_block_number:
  assumes "uint (gps_LastUpdateBlock gs) + 600 \<le> now" and "now < 2 ^ 64"
  shows "predictor_calculateConfidence now gs t = f_mul (f_mul (mt_Confidence t)
     (if 3 \<le> length (gps_ChainStates gs) then f_lit 1
      else if length (gps_ChainStates gs) = 2 then f_lit (4/5) else f_lit (1/2))) (f_lit (3/5))"
proof -
  let ?age = "uint64 now - gps_LastUpdateBlock gs"
  have now: "uint (uint64 now) = now"
    using assms uint_ge_0 [of "gps_LastUpdateBlock gs"] by (intro uint_uint64) linarith+
  then have "gps_LastUpdateBlock gs \<le> uint64 now" using assms(1) by (simp add: word_le_def)
  from uint_sub_le [OF this] have "600 \<le> uint ?age" using now assms(1) by simp
  then have "\<not> ?age < 60" "\<not> ?age < 300" "\<not> ?age < 600" by (simp_all add: word_less_def)
  then show ?thesis by (simp add: predictor_calculateConfidence_def Let_def)
qed

section \<open>Witnesses\<close>

text \<open>Three chains, two of them above the mean price.\<close>

definition ex_pool :: GlobalPoolState where
  "ex_pool = recalculated (ex_global [(1, ex_state 6000 2000), (10, ex_state 2000 3100), (137, ex_state 1000 3000)]
     0 None)"

lemma ex_pool_inv [simp]: "gps_inv ex_pool"
  unfolding ex_pool_def by (rule gps_inv_recalculated) (simp_all add: ex_global_def go_eval)

lemma ex_pool_chains [simp]:
  "gps_ChainStates ex_pool = [(1, ex_state 6000 2000), (10, ex_state 2000 3100), (137, ex_state 1000 3000)]"
  "gps_TotalLiquidity ex_pool = Some 9000" "gps_AveragePrice ex_pool = Some 2355"
  by (simp_all add: ex_pool_def recalculated_def ex_global_def Let_def avg_price_def total_value_def)

theorem analyzeTrend_exact_witness:
  "\<exists>t. analyzeTrend ex_pool = Inr (Inr t) \<and> mt_Direction t = ''up''"
proof -
  let ?ss = "map_vals (gps_ChainStates ex_pool)"
  have m: "mean_price ?ss = 2700" by (simp add: mean_price_def)
  have "\<not> predictor_sqrt (sq_diffs 2700 ?ss div int (length ?ss)) < 27"
    using predictor_sq.sq_less_iff [of 27 "sq_diffs 2700 ?ss div int (length ?ss)"]
    by (simp add: sq_diffs_def)
  then have "dispersed ?ss" "above_mean ?ss = 2"
    unfolding dispersed_def m above_mean_def by simp_all
  with analyzeTrend_exact [of ex_pool] show ?thesis by auto
qed

theorem PredictPoolState_bounds_witness:
  "\<exists>r q m. PredictPoolState (\<lambda>_. 0) 1700000000 1700000000 ex_pool 300 = Inr (Inr r) \<and>
     pr_PredictedPrice r = Some q \<and> 10 * \<bar>q - 2355\<bar> \<le> 2355 \<and> pr_PredictedLiquidity r = Some m \<and> 20 * m \<le> 189000"
  using PredictPoolState_bounds [of ex_pool 2355 9000 "\<lambda>_. 0" 1700000000 1700000000 300] by force

theorem PredictPoolState_no_price_witness:
  "PredictPoolState (\<lambda>_. 0) 0 0 (ex_global [(1, ex_state 0 2000)] 0 None) 300 = Inl NilDeref \<and>
   PredictPoolState (\<lambda>_. 0) 0 0 (ex_global [(1, ex_state 0 2000)] 0 (Some 0)) 300 =
     Inr (Inl ''failed to predict price: no current price available'')"
proof -
  have "gps_inv (ex_global [(1, ex_state 0 2000)] 0 a)" for a
    by (simp add: gps_inv_def ex_global_def go_eval)
  from PredictPoolState_no_price [OF this, of _ "\<lambda>_. 0" 0 0 300] show ?thesis by (simp add: ex_global_def)
qed

theorem PredictRebalancingNeed_exact_witness:
  "PredictRebalancingNeed ex_pool (Fin 5) = Inr (True, Some 900, None)"
  using PredictRebalancingNeed_exact [of ex_pool 9000 5]
  by (simp add: pool_imbalance_def abs_dev_def)

theorem predictor_calculateConfidence_block_number_witness:
  "predictor_calculateConfidence 1700000000 ex_pool
     \<lparr>mt_Direction = ''up'', mt_Strength = f_lit 1, mt_Confidence = f_lit 1, mt_Duration = 300\<rparr> =
   f_mul (f_mul (f_lit 1) (f_lit 1)) (f_lit (3/5))"
  using predictor_calculateConfidence_block_number [of ex_pool 1700000000
      "\<lparr>mt_Direction = ''up'', mt_Strength = f_lit 1, mt_Confidence = f_lit 1, mt_Duration = 300\<rparr>"]
  by (simp add: ex_pool_def recalculated_def Let_def latestBlock_def ex_global_def ex_state_def)

end
