(* ===== verification/Task_Aggregator.thy ===== *)
theory Task_Aggregator
  imports State_Predictor Step_Systems
begin

text \<open>
  The AVS aggregator, \<^verbatim>\<open>aggregator/aggregator.go\<close>: a map of tasks with the operators'
  responses, a map of global pool states, five Prometheus counters, and the loops that Start
  launches, each calling one method per tick. A counter is the number of its \<open>Inc\<close> calls. The
  per-chain \<open>PoolState\<close> is field for field that of \<^verbatim>\<open>pkg/state\<close>; the global one has one
  field more. Every method holds the mutex of the map it works on, and no two methods of
  different loops touch the same fields, so an execution is a sequence of whole method calls:
  the step relation \<open>agg_step\<close>. A panic of a loop ends the process: such a call is no step.
\<close>

section \<open>Data\<close>

record SHConfig =
  ac_ServerIpPortAddress :: string
  ac_EnableGrpc :: bool
  ac_EnableHttp :: bool
  ac_HttpPort :: int
  ac_RegistryCoordinatorAddress :: string
  ac_OperatorStateRetrieverAddress :: string
  ac_EthRpcUrl :: string
  ac_EthWsUrl :: string
  ac_SyncAVSAddress :: string
  ac_AcrossAddress :: string
  ac_TaskTimeout :: int
  ac_MaxConcurrentTasks :: int
  ac_TaskRetryAttempts :: int
  ac_TaskRetryDelay :: int
  ac_StateUpdateInterval :: int
  ac_StateValidationThreshold :: float64
  ac_MaxStateAge :: int
  ac_RebalancingEnabled :: bool
  ac_RebalancingThreshold :: float64
  ac_MaxRebalancingAmount :: string
  ac_MinRebalancingAmount :: string
  ac_RebalancingTimeout :: int
  ac_EnableMetrics :: bool
  ac_MetricsPort :: int
  ac_EnableHealthCheck :: bool
  ac_HealthCheckInterval :: int
  ac_LogLevel :: string
  ac_LogFormat :: string

record SyncHookTaskResponse =
  tr_OperatorAddress :: address
  tr_Response :: bytes
  tr_Signature :: bytes
  tr_Timestamp :: u64
  tr_Valid :: bool

record SyncHookTask =
  tk_TaskID :: u32
  tk_TaskType :: u32
  tk_ChainID :: u32
  tk_PoolID :: hash
  tk_Payload :: bytes
  tk_Deadline :: u64
  tk_Status :: u32
  tk_CreatedAt :: u64
  tk_QuorumNumbers :: "u8 list"
  tk_QuorumThresholdPercentage :: u32
  tk_Responses :: "(string, SyncHookTaskResponse) gomap"
  tk_ConsensusReached :: bool
  tk_Result :: bytes

record SHGlobalPoolState = GlobalPoolState +
  gps_ConsensusReached :: bool

record SyncHookAggregator =
  sa_config :: SHConfig
  sa_tasksTotal :: nat
  sa_tasksCompleted :: nat
  sa_tasksFailed :: nat
  sa_stateUpdates :: nat
  sa_rebalancingOps :: nat
  sa_poolStates :: "(string, SHGlobalPoolState) gomap"
  sa_tasks :: "(u32, SyncHookTask) gomap"

definition NewSyncHookAggregator :: "SHConfig \<Rightarrow> SyncHookAggregator \<times> error option" where
  "NewSyncHookAggregator config =
     (\<lparr>sa_config = config, sa_tasksTotal = 0, sa_tasksCompleted = 0, sa_tasksFailed = 0,
       sa_stateUpdates = 0, sa_rebalancingOps = 0, sa_poolStates = [], sa_tasks = []\<rparr>, None)"

section \<open>Tasks and consensus\<close>

text \<open>The consensus step on a task, with the number of increments of \<open>tasksCompleted\<close>.\<close>

definition processConsensus :: "SyncHookTask \<Rightarrow> SyncHookTask \<times> nat" where
  "processConsensus task =
     (if tk_ConsensusReached task then (task, 0)
      else let validResponses =
             fold (\<lambda>response n. if tr_Valid response then n + 1 else n) (map_vals (tk_Responses task)) (0::nat)
        in if unat (tk_QuorumThresholdPercentage task) \<le> validResponses
           then (task\<lparr>tk_ConsensusReached := True, tk_Status := 3\<rparr>, 1)
           else (task, 0))"

text \<open>The body of the loop of processTasks: the task, the increments of \<open>tasksCompleted\<close> and of
  \<open>tasksFailed\<close>.\<close>

definition processTask :: "u64 \<Rightarrow> SyncHookTask \<Rightarrow> SyncHookTask \<times> nat \<times> nat" where
  "processTask now task =
     (if tk_Deadline task < now then (task\<lparr>tk_Status := 4\<rparr>, 0, 1)
      else if unat (tk_QuorumThresholdPercentage task) \<le> length (tk_Responses task)
      then case processConsensus task of (task', completed) \<Rightarrow> (task', completed, 0)
      else (task, 0, 0))"

definition processTasks :: "int \<Rightarrow> SyncHookAggregator \<Rightarrow> SyncHookAggregator" where
  "processTasks t a =
     (let now = uint64 t in
      a\<lparr>sa_tasks := map_each (\<lambda>task. fst (processTask now task)) (sa_tasks a),
        sa_tasksCompleted := fold (\<lambda>task n. n + fst (snd (processTask now task))) (map_vals (sa_tasks a))
          (sa_tasksCompleted a),
        sa_tasksFailed := fold (\<lambda>task n. n + snd (snd (processTask now task))) (map_vals (sa_tasks a))
          (sa_tasksFailed a)\<rparr>)"

section \<open>Aggregation of pool states\<close>

definition sh_calculateWeightedAveragePrice ::
  "(u32, PoolState) gomap \<Rightarrow> SHGlobalPoolState \<Rightarrow> (SHGlobalPoolState \<times> error option) go" where
  "sh_calculateWeightedAveragePrice chainStates gs =
     (if chainStates = [] then Inr (gs, Some ''no chain states available'')
      else go_bind (for_range (\<lambda>(totalWeight, weightedPriceSum) s.
             go_bind (deref (ps_TotalLiquidity s)) (\<lambda>weight.
             go_bind (deref (ps_Price s)) (\<lambda>price.
             Inr (totalWeight + weight, weightedPriceSum + price * weight)))) (0, 0) (map_vals chainStates))
        (\<lambda>(totalWeight, weightedPriceSum).
          if totalWeight = 0 then Inr (gs, Some ''total weight is zero'')
          else go_bind (big_Div weightedPriceSum totalWeight) (\<lambda>q.
            Inr (gs\<lparr>gps_AveragePrice := Some q\<rparr>, None))))"

definition sh_calculateImbalanceScore ::
  "(u32, PoolState) gomap \<Rightarrow> SHGlobalPoolState \<Rightarrow> (SHGlobalPoolState \<times> error option) go" where
  "sh_calculateImbalanceScore chainStates gs =
     (if length chainStates < 2 then Inr (gs\<lparr>gps_ImbalanceScore := Some 0\<rparr>, None)
      else let prices = map ps_Price (map_vals chainStates); mean = gps_AveragePrice gs in
        go_bind (for_range (\<lambda>variance p. go_bind (deref p) (\<lambda>price. go_bind (deref mean) (\<lambda>m.
             Inr (variance + (price - m) * (price - m))))) 0 prices) (\<lambda>variance.
        go_bind (big_Div variance (int (length prices))) (\<lambda>v.
          Inr (gs\<lparr>gps_ImbalanceScore := Some (synchook_sqrt v)\<rparr>, None))))"

definition sh_aggregateChainStates ::
  "gotime \<Rightarrow> SHGlobalPoolState \<Rightarrow> (SHGlobalPoolState \<times> error option) go" where
  "sh_aggregateChainStates now gs =
     (let chainStates = gps_ChainStates gs in
      if chainStates = [] then Inr (gs, Some ''no chain states available'')
      else go_bind (for_range (\<lambda>total s. go_bind (deref (ps_TotalLiquidity s)) (\<lambda>l. Inr (total + l))) 0
                     (map_vals chainStates)) (\<lambda>totalLiquidity.
        go_bind (sh_calculateWeightedAveragePrice chainStates (gs\<lparr>gps_TotalLiquidity := Some totalLiquidity\<rparr>))
          (\<lambda>(gs1, err). case err of
             Some e \<Rightarrow> Inr (gs1, Some (''failed to calculate weighted average price: '' @ e))
           | None \<Rightarrow> go_bind (sh_calculateImbalanceScore chainStates gs1) (\<lambda>(gs2, err2). case err2 of
               Some e \<Rightarrow> Inr (gs2, Some (''failed to calculate imbalance score: '' @ e))
             | None \<Rightarrow>
                let latestBlock = fold (\<lambda>s latest. if latest < ps_BlockNumber s then ps_BlockNumber s else latest)
                      (map_vals chainStates) 0
                in Inr (gs2\<lparr>gps_LastUpdateBlock := latestBlock, gps_LastUpdated := now\<rparr>, None)))))"

text \<open>\<open>now\<close> is the reading at entry, \<open>clk\<close> the readings taken at the end of each aggregation.\<close>

definition aggregateStates ::
  "gotime \<Rightarrow> (string \<Rightarrow> gotime) \<Rightarrow> SyncHookAggregator \<Rightarrow> SyncHookAggregator go" where
  "aggregateStates now clk a =
     go_bind (for_range (\<lambda>(pools, updates) (poolID, gs).
         if f_greater (Seconds (time_Sub now (gps_LastUpdated gs))) (f_of_int (ac_MaxStateAge (sa_config a)))
         then Inr (map_del poolID pools, updates)
         else go_bind (sh_aggregateChainStates (clk poolID) gs) (\<lambda>(gs', err).
           Inr (map_put poolID gs' pools, if err = None then updates + 1 else updates)))
       (sa_poolStates a, sa_stateUpdates a) (sa_poolStates a))
     (\<lambda>(pools, updates). Inr (a\<lparr>sa_poolStates := pools, sa_stateUpdates := updates\<rparr>))"

section \<open>Rebalancing\<close>

definition sh_calculateImbalance :: "SHGlobalPoolState \<Rightarrow> int go" where
  "sh_calculateImbalance gs =
     (let chainStates = gps_ChainStates gs in
      if length chainStates < 2 then Inr 0
      else go_bind (deref (gps_TotalLiquidity gs)) (\<lambda>totalLiquidity.
        go_bind (big_Div totalLiquidity (int (length chainStates))) (\<lambda>expectedPerChain.
          for_range (\<lambda>total s. go_bind (deref (ps_TotalLiquidity s)) (\<lambda>l.
            let deviation = l - expectedPerChain in
            Inr (total + (if deviation < 0 then - deviation else deviation)))) 0 (map_vals chainStates))))"

definition sh_calculateImbalancePercent :: "int \<Rightarrow> bigptr \<Rightarrow> float64 go" where
  "sh_calculateImbalancePercent imbalance totalLiquidity =
     go_bind (deref totalLiquidity) (\<lambda>t.
       if t = 0 then Inr (f_lit 0)
       else go_bind (big_Div (imbalance * 100) t) (\<lambda>percent. Inr (f_of_int (big_Int64 percent))))"

definition checkRebalancingNeeds :: "SyncHookAggregator \<Rightarrow> SyncHookAggregator go" where
  "checkRebalancingNeeds a =
     go_bind (for_range (\<lambda>ops gs.
         go_bind (sh_calculateImbalance gs) (\<lambda>imbalance.
         go_bind (sh_calculateImbalancePercent imbalance (gps_TotalLiquidity gs)) (\<lambda>imbalancePercent.
           Inr (if f_greater imbalancePercent (ac_RebalancingThreshold (sa_config a)) then ops + 1 else ops))))
       (sa_rebalancingOps a) (map_vals (sa_poolStates a)))
     (\<lambda>ops. Inr (a\<lparr>sa_rebalancingOps := ops\<rparr>))"

definition performHealthCheck :: "SyncHookAggregator \<Rightarrow> SyncHookAggregator" where
  "performHealthCheck a = a"

section \<open>Start, Stop and the loops\<close>

datatype loop = TaskLoop | StateLoop | RebalancingLoop | HealthLoop

text \<open>The running process: the aggregator, whether the context is cancelled, the live loops.\<close>

record runtime =
  rt_agg :: SyncHookAggregator
  rt_cancelled :: bool
  rt_loops :: "loop list"

definition interval :: "SHConfig \<Rightarrow> loop \<Rightarrow> int" where
  "interval c l = (case l of
       TaskLoop \<Rightarrow> seconds (ac_TaskTimeout c)
     | StateLoop \<Rightarrow> seconds (ac_StateUpdateInterval c)
     | RebalancingLoop \<Rightarrow> seconds 60
     | HealthLoop \<Rightarrow> seconds (ac_HealthCheckInterval c))"

definition Start :: "SyncHookAggregator \<Rightarrow> runtime go" where
  "Start a =
     (let c = sa_config a;
          loops = [TaskLoop, StateLoop] @ (if ac_RebalancingEnabled c then [RebalancingLoop] else []) @
            (if ac_EnableHealthCheck c then [HealthLoop] else [])
      in for_range (\<lambda>r l. go_bind (NewTicker (interval c l)) (\<lambda>_. Inr (r\<lparr>rt_loops := rt_loops r @ [l]\<rparr>)))
           \<lparr>rt_agg = a, rt_cancelled = False, rt_loops = []\<rparr> loops)"

definition Stop :: "runtime \<Rightarrow> runtime" where
  "Stop r = r\<lparr>rt_cancelled := True\<rparr>"

text \<open>One turn of a loop: a tick runs its method, and once the context is cancelled the loop may
  return instead (\<open>select\<close> picks either ready case).\<close>

datatype event =
    ProcessTasks int
  | AggregateStates gotime "string \<Rightarrow> gotime"
  | CheckRebalancing
  | PerformHealthCheck
  | Return loop
  | StopCalled

inductive agg_step :: "runtime \<Rightarrow> event \<Rightarrow> runtime \<Rightarrow> bool" where
  taskProcessingLoop: "TaskLoop \<in> set (rt_loops r) \<Longrightarrow>
    agg_step r (ProcessTasks now) (r\<lparr>rt_agg := processTasks now (rt_agg r)\<rparr>)"
| stateAggregationLoop: "StateLoop \<in> set (rt_loops r) \<Longrightarrow> aggregateStates now clk (rt_agg r) = Inr a' \<Longrightarrow>
    agg_step r (AggregateStates now clk) (r\<lparr>rt_agg := a'\<rparr>)"
| rebalancingLoop: "RebalancingLoop \<in> set (rt_loops r) \<Longrightarrow> checkRebalancingNeeds (rt_agg r) = Inr a' \<Longrightarrow>
    agg_step r CheckRebalancing (r\<lparr>rt_agg := a'\<rparr>)"
| healthCheckLoop: "HealthLoop \<in> set (rt_loops r) \<Longrightarrow>
    agg_step r PerformHealthCheck (r\<lparr>rt_agg := performHealthCheck (rt_agg r)\<rparr>)"
| loop_return: "l \<in> set (rt_loops r) \<Longrightarrow> rt_cancelled r \<Longrightarrow>
    agg_step r (Return l) (r\<lparr>rt_loops := removeAll l (rt_loops r)\<rparr>)"
| stop: "agg_step r StopCalled (Stop r)"

inductive_cases agg_stepE: "agg_step r e r'"

section \<open>Consensus\<close>

definition valid_responses :: "SyncHookTask \<Rightarrow> nat" where
  "valid_responses task = length (filter tr_Valid (map_vals (tk_Responses task)))"

definition quorum :: "SyncHookTask \<Rightarrow> bool" where
  "quorum task \<longleftrightarrow> unat (tk_QuorumThresholdPercentage task) \<le> valid_responses task"

definition reached_count :: "SyncHookAggregator \<Rightarrow> nat" where
  "reached_count a = length (filter tk_ConsensusReached (map_vals (sa_tasks a)))"

lemma fold_count: "fold (\<lambda>x n. if P x then n + 1 else n) xs (k::nat) = k + length (filter P xs)"
  by (induction xs arbitrary: k) auto

text \<open>The guard on the number of responses is implied by the one on the valid ones.\<close>

lemma processTask_cases:
  "processTask now task =
     (if tk_Deadline task < now then (task\<lparr>tk_Status := 4\<rparr>, 0, 1)
      else if \<not> tk_ConsensusReached task \<and> quorum task
      then (task\<lparr>tk_ConsensusReached := True, tk_Status := 3\<rparr>, 1, 0)
      else (task, 0, 0))"
proof -
  have "valid_responses task \<le> length (tk_Responses task)"
    by (metis length_filter_le length_map_vals valid_responses_def)
  then show ?thesis
    by (auto simp: processTask_def processConsensus_def quorum_def fold_count valid_responses_def Let_def)
qed

lemma processTasks_counters:
  fixes a t
  defines "now \<equiv> uint64 t" and "ts \<equiv> map_vals (sa_tasks a)"
  shows "sa_tasksFailed (processTasks t a) =
       sa_tasksFailed a + length (filter (\<lambda>task. tk_Deadline task < now) ts)"
    and "sa_tasksCompleted (processTasks t a) + reached_count a =
       sa_tasksCompleted a + reached_count (processTasks t a)"
proof -
  have sum: "sum_list (map (\<lambda>task. snd (snd (processTask now task))) xs) =
      length (filter (\<lambda>task. tk_Deadline task < now) xs)" for xs
    by (induction xs) (simp_all add: processTask_cases)
  show "sa_tasksFailed (processTasks t a) =
       sa_tasksFailed a + length (filter (\<lambda>task. tk_Deadline task < now) ts)"
    by (simp add: processTasks_def Let_def fold_plus_sum sum ts_def flip: now_def)
  have "sum_list (map (\<lambda>task. fst (snd (processTask now task))) xs) + length (filter tk_ConsensusReached xs) =
      length (filter (\<lambda>task. tk_ConsensusReached (fst (processTask now task))) xs)" for xs
    by (induction xs) (auto simp: processTask_cases)
  from this [of ts] show "sa_tasksCompleted (processTasks t a) + reached_count a =
       sa_tasksCompleted a + reached_count (processTasks t a)"
    by (simp add: processTasks_def Let_def fold_plus_sum reached_count_def filter_map comp_def ts_def flip: now_def)
qed

text \<open>What holds between the tasks at two moments of an execution.\<close>

definition task_later :: "SyncHookTask \<Rightarrow> SyncHookTask \<Rightarrow> bool" where
  "task_later task task' \<longleftrightarrow>
     task' = task\<lparr>tk_Status := tk_Status task', tk_ConsensusReached := tk_ConsensusReached task'\<rparr> \<and>
     (tk_ConsensusReached task \<longrightarrow> tk_ConsensusReached task') \<and>
     (tk_ConsensusReached task' \<longrightarrow> tk_ConsensusReached task \<or> quorum task)"

definition tasks_later :: "SyncHookAggregator \<Rightarrow> SyncHookAggregator \<Rightarrow> bool" where
  "tasks_later a a' \<longleftrightarrow> sa_config a' = sa_config a \<and>
     rel_fun (=) (rel_option task_later) (map_get (sa_tasks a)) (map_get (sa_tasks a')) \<and>
     sa_tasksCompleted a' + reached_count a = sa_tasksCompleted a + reached_count a'"

lemma quorum_update [simp]:
  "quorum (task\<lparr>tk_Status := s\<rparr>) = quorum task" "quorum (task\<lparr>tk_ConsensusReached := b\<rparr>) = quorum task"
  by (simp_all add: quorum_def valid_responses_def)

lemma task_later_refl: "task_later task task"
  by (simp add: task_later_def)

lemma task_later_trans:
  assumes "task_later t t'" and "task_later t' t''"
  shows "task_later t t''"
proof -
  from assms have "quorum t' = quorum t" unfolding task_later_def by (metis quorum_update)
  moreover from assms have "t'' = t\<lparr>tk_Status := tk_Status t'', tk_ConsensusReached := tk_ConsensusReached t''\<rparr>"
    unfolding task_later_def by (cases t; cases t'; cases t'') simp
  ultimately show ?thesis using assms by (auto simp: task_later_def)
qed

lemma task_later_processTask: "task_later task (fst (processTask now task))"
  by (simp add: processTask_cases task_later_def)

lemma aggregateStates_frame:
  "aggregateStates now clk a = Inr a' \<Longrightarrow> \<exists>p u. a' = a\<lparr>sa_poolStates := p, sa_stateUpdates := u\<rparr>"
  by (auto simp: aggregateStates_def go_bind_Inr_iff)

lemma checkRebalancingNeeds_frame:
  "checkRebalancingNeeds a = Inr a' \<Longrightarrow> \<exists>n. a' = a\<lparr>sa_rebalancingOps := n\<rparr>"
  by (auto simp: checkRebalancingNeeds_def go_bind_Inr_iff)

lemma rel_option_refl_on: "(\<And>x. R x x) \<Longrightarrow> rel_option R x x"
  by (cases x) auto

lemma tasks_later_unchanged:
  "sa_tasks a' = sa_tasks a \<Longrightarrow> sa_config a' = sa_config a \<Longrightarrow> sa_tasksCompleted a' = sa_tasksCompleted a \<Longrightarrow>
    tasks_later a a'"
  by (simp add: tasks_later_def reached_count_def rel_fun_def rel_option_refl_on task_later_refl)

lemma tasks_later_processTasks: "tasks_later a (processTasks t a)"
proof -
  have "rel_option task_later x (map_option (\<lambda>task. fst (processTask now task)) x)" for x now
    by (cases x) (auto simp: task_later_processTask)
  then have "rel_fun (=) (rel_option task_later) (map_get (sa_tasks a)) (map_get (sa_tasks (processTasks t a)))"
    by (simp add: processTasks_def Let_def rel_fun_def)
  with processTasks_counters(2) show ?thesis
    by (simp add: tasks_later_def) (simp add: processTasks_def Let_def)
qed

interpretation consensus: steps_related agg_step "\<lambda>r r'. tasks_later (rt_agg r) (rt_agg r')"
proof
  fix r r' r'' :: runtime and e
  show "tasks_later (rt_agg r) (rt_agg r)" by (rule tasks_later_unchanged) simp_all
  show "tasks_later (rt_agg r) (rt_agg r')" if "agg_step r e r'"
    using that
    by cases (auto dest!: aggregateStates_frame checkRebalancingNeeds_frame
        intro!: tasks_later_processTasks tasks_later_unchanged simp: performHealthCheck_def Stop_def)
  show "tasks_later (rt_agg r) (rt_agg r'')"
    if "tasks_later (rt_agg r) (rt_agg r')" "tasks_later (rt_agg r') (rt_agg r'')"
  proof -
    have "rel_option task_later x z" if "rel_option task_later x y" "rel_option task_later y z" for x y z
      using that by (cases x; cases y; cases z) (auto intro: task_later_trans)
    with that show ?thesis unfolding tasks_later_def rel_fun_def by fastforce
  qed
qed

section \<open>Properties of tasks\<close>

text \<open>One pass over the tasks does to each task exactly one of three things: a task past its
  deadline is marked failed (status 4) and keeps its consensus flag; a task in time that has no
  consensus yet and at least as many valid responses as its threshold gets consensus and status 3;
  any other task is left alone. No task is added or lost.\<close>

theorem processTasks_effect:
  "map_get (sa_tasks (processTasks t a)) k =
     map_option (\<lambda>task.
       if tk_Deadline task < uint64 t then task\<lparr>tk_Status := 4\<rparr>
       else if \<not> tk_ConsensusReached task \<and>
         unat (tk_QuorumThresholdPercentage task) \<le> length (filter tr_Valid (map_vals (tk_Responses task)))
       then task\<lparr>tk_ConsensusReached := True, tk_Status := 3\<rparr>
       else task) (map_get (sa_tasks a) k)"
  by (cases "map_get (sa_tasks a) k")
    (simp_all add: processTasks_def Let_def processTask_cases quorum_def valid_responses_def)

text \<open>C1: Along every execution, in whatever order the loops run, consensus is never withdrawn and is
  only reached by a task with at least as many valid responses as its threshold; nothing but
  status and consensus flag of a task changes; and tasksCompleted grows by exactly the number of
  tasks that reach consensus.\<close>

theorem consensus_safety:
  assumes "run agg_step r es r'"
  shows "(\<forall>k task. map_get (sa_tasks (rt_agg r)) k = Some task \<longrightarrow>
       (\<exists>task'. map_get (sa_tasks (rt_agg r')) k = Some task' \<and>
          task' = task\<lparr>tk_Status := tk_Status task', tk_ConsensusReached := tk_ConsensusReached task'\<rparr> \<and>
          (tk_ConsensusReached task \<longrightarrow> tk_ConsensusReached task') \<and>
          (tk_ConsensusReached task' \<and> \<not> tk_ConsensusReached task \<longrightarrow>
             unat (tk_QuorumThresholdPercentage task) \<le> length (filter tr_Valid (map_vals (tk_Responses task)))))) \<and>
     sa_tasksCompleted (rt_agg r') + reached_count (rt_agg r) =
       sa_tasksCompleted (rt_agg r) + reached_count (rt_agg r')"
proof -
  from consensus.R_run [OF assms] have later: "tasks_later (rt_agg r) (rt_agg r')" .
  then have "rel_option task_later (map_get (sa_tasks (rt_agg r)) k) (map_get (sa_tasks (rt_agg r')) k)" for k
    by (simp add: tasks_later_def rel_fun_def)
  then have "\<exists>task'. map_get (sa_tasks (rt_agg r')) k = Some task' \<and> task_later task task'"
    if "map_get (sa_tasks (rt_agg r)) k = Some task" for k task
    using that by (metis option_rel_Some1)
  with later show ?thesis
    unfolding task_later_def tasks_later_def quorum_def valid_responses_def by fast
qed

lemma processTasks_expired:
  assumes "map_get (sa_tasks a) k = Some task" and "tk_Deadline task < uint64 t"
  shows "map_get (sa_tasks (processTasks t a)) k = Some (task\<lparr>tk_Status := 4\<rparr>)"
    and "sa_tasksFailed a < sa_tasksFailed (processTasks t a)"
proof -
  show "map_get (sa_tasks (processTasks t a)) k = Some (task\<lparr>tk_Status := 4\<rparr>)"
    using assms by (simp add: processTasks_def Let_def processTask_cases)
  have "task \<in> set (filter (\<lambda>task. tk_Deadline task < uint64 t) (map_vals (sa_tasks a)))"
    using assms by (simp add: map_get_in_vals)
  then have "0 < length (filter (\<lambda>task. tk_Deadline task < uint64 t) (map_vals (sa_tasks a)))"
    by (rule length_pos_if_in_set)
  then show "sa_tasksFailed a < sa_tasksFailed (processTasks t a)" by (simp add: processTasks_counters(1))
qed

text \<open>A completed task does not stay completed: once its deadline has passed, a pass marks it
  failed although its consensus flag stays set, and every further pass counts it as failed again,
  so that n passes add at least n failures.\<close>

theorem completed_task_fails:
  assumes "map_get (sa_tasks a) k = Some task" and "tk_ConsensusReached task" and "tk_Deadline task < uint64 t"
  shows "\<exists>task'. map_get (sa_tasks ((processTasks t ^^ Suc n) a)) k = Some task' \<and>
     tk_Status task' = 4 \<and> tk_ConsensusReached task' \<and>
     sa_tasksFailed a + Suc n \<le> sa_tasksFailed ((processTasks t ^^ Suc n) a)"
proof (induction n)
  case 0
  then show ?case using processTasks_expired [OF assms(1,3)] assms(2) by simp
next
  case (Suc n)
  let ?b = "(processTasks t ^^ Suc n) a"
  have "map_get (sa_tasks ?b) k = Some (task\<lparr>tk_Status := 4\<rparr>)"
    by (induction n) (use processTasks_expired(1) assms(1,3) in auto)
  from processTasks_expired [OF this, of t] Suc assms(2,3) show ?case by force
qed

section \<open>Properties of pool aggregation\<close>

lemma sqrt_copies: "synchook_sqrt = state_sqrt"
  by (rule ext) (simp add: sqrt_defs)

text \<open>The fields of a pool that the two records share, and writing them back.\<close>

definition shared :: "SHGlobalPoolState \<Rightarrow> GlobalPoolState" where
  "shared gs = GlobalPoolState.truncate gs"

definition with_shared :: "SHGlobalPoolState \<Rightarrow> GlobalPoolState \<Rightarrow> SHGlobalPoolState" where
  "with_shared gs g = GlobalPoolState.extend g (GlobalPoolState.more gs)"

lemma shared_lens:
  "with_shared gs (shared gs) = gs" "shared (with_shared gs g) = g"
  "with_shared (with_shared gs g) h = with_shared gs h"
  "gps_ConsensusReached (with_shared gs g) = gps_ConsensusReached gs"
  by (cases gs; cases g; simp add: shared_def with_shared_def GlobalPoolState.defs)+

lemma shared_fields:
  "gps_ChainStates (shared gs) = gps_ChainStates gs" "gps_AveragePrice (shared gs) = gps_AveragePrice gs"
  "gps_TotalLiquidity (shared gs) = gps_TotalLiquidity gs" "gps_LastUpdated (shared gs) = gps_LastUpdated gs"
  by (simp_all add: shared_def GlobalPoolState.defs)

lemma shared_updates:
  "gs\<lparr>gps_TotalLiquidity := x\<rparr> = with_shared gs ((shared gs)\<lparr>gps_TotalLiquidity := x\<rparr>)"
  "gs\<lparr>gps_AveragePrice := x\<rparr> = with_shared gs ((shared gs)\<lparr>gps_AveragePrice := x\<rparr>)"
  "gs\<lparr>gps_ImbalanceScore := x\<rparr> = with_shared gs ((shared gs)\<lparr>gps_ImbalanceScore := x\<rparr>)"
  "gs\<lparr>gps_LastUpdateBlock := b, gps_LastUpdated := u\<rparr> =
     with_shared gs ((shared gs)\<lparr>gps_LastUpdateBlock := b, gps_LastUpdated := u\<rparr>)"
  by (cases gs; simp add: shared_def with_shared_def GlobalPoolState.defs)+

lemma weighted_average_refines:
  "sh_calculateWeightedAveragePrice cs gs =
     go_bind (calculateWeightedAveragePrice cs (shared gs)) (\<lambda>(g, e). Inr (with_shared gs g, e))"
  unfolding sh_calculateWeightedAveragePrice_def calculateWeightedAveragePrice_def sumWeightedPrices_def [symmetric]
  by (cases "sumWeightedPrices (map_vals cs)") (simp_all add: shared_lens shared_updates case_prod_unfold)

lemma imbalance_score_refines:
  "sh_calculateImbalanceScore cs gs =
     go_bind (calculateImbalanceScore cs (shared gs)) (\<lambda>(g, e). Inr (with_shared gs g, e))"
proof (cases "length cs < 2")
  case False
  then have "cs \<noteq> []" by auto
  with False show ?thesis
    unfolding sh_calculateImbalanceScore_def calculateImbalanceScore_def Let_def sumSquaredDiffs_def [symmetric]
    by (cases "sumSquaredDiffs (gps_AveragePrice gs) (map ps_Price (map_vals cs))")
      (simp_all add: shared_fields shared_updates sqrt_copies)
qed (simp add: sh_calculateImbalanceScore_def calculateImbalanceScore_def shared_updates)

text \<open>C10: The aggregation of a pool in the aggregator is the recalculation of pkg/state, panics and
  errors included, on the fields the two records share; it leaves the consensus flag alone and
  stamps the time only on success.\<close>

theorem aggregateChainStates_refines:
  "sh_aggregateChainStates now gs =
     go_bind (recalculateGlobalMetrics (shared gs)) (\<lambda>(g, e).
       Inr (with_shared gs (if e = None then g\<lparr>gps_LastUpdated := now\<rparr> else g), e))"
proof (cases "gps_ChainStates gs = []")
  case False
  show ?thesis
  proof (cases "sumTotalLiquidity (map_vals (gps_ChainStates gs))")
    case (Inr l)
    let ?g0 = "(shared gs)\<lparr>gps_TotalLiquidity := Some l\<rparr>"
    show ?thesis
    proof (cases "calculateWeightedAveragePrice (gps_ChainStates gs) ?g0")
      case (Inr p)
      obtain g1 e1 where p: "p = (g1, e1)" by (cases p)
      with Inr \<open>sumTotalLiquidity _ = Inr l\<close> False show ?thesis
        unfolding sh_aggregateChainStates_def recalculateGlobalMetrics_def Let_def sumTotalLiquidity_def [symmetric]
        by (cases "calculateImbalanceScore (gps_ChainStates gs) g1")
          (auto simp: weighted_average_refines imbalance_score_refines shared_lens shared_fields shared_updates
            latestBlock_def split: option.split)
    qed (use Inr False in \<open>simp add: sh_aggregateChainStates_def recalculateGlobalMetrics_def Let_def
        sumTotalLiquidity_def weighted_average_refines shared_lens shared_fields shared_updates\<close>)
  qed (use False in \<open>simp add: sh_aggregateChainStates_def recalculateGlobalMetrics_def Let_def
      sumTotalLiquidity_def shared_fields\<close>)
qed (simp add: sh_aggregateChainStates_def recalculateGlobalMetrics_def shared_lens shared_fields)

text \<open>Pools whose chain reports are complete, and what the aggregation writes to one.\<close>

definition sh_wf :: "SHGlobalPoolState \<Rightarrow> bool" where
  "sh_wf gs \<longleftrightarrow> map_ok (gps_ChainStates gs) \<and> (\<forall>s \<in> set (map_vals (gps_ChainStates gs)). ps_wf s)"

definition aggregatable :: "SHGlobalPoolState \<Rightarrow> bool" where
  "aggregatable gs \<longleftrightarrow> gps_ChainStates gs \<noteq> [] \<and> total_liq (map_vals (gps_ChainStates gs)) \<noteq> 0"

definition aggregated :: "gotime \<Rightarrow> SHGlobalPoolState \<Rightarrow> SHGlobalPoolState" where
  "aggregated now gs =
     (if gps_ChainStates gs = [] then gs
      else if total_liq (map_vals (gps_ChainStates gs)) = 0 then gs\<lparr>gps_TotalLiquidity := Some 0\<rparr>
      else with_shared gs ((recalculated (shared gs))\<lparr>gps_LastUpdated := now\<rparr>))"

lemma sh_aggregateChainStates_wf:
  assumes "sh_wf gs"
  shows "\<exists>err. sh_aggregateChainStates now gs = Inr (aggregated now gs, err) \<and> (err = None \<longleftrightarrow> aggregatable gs)"
proof (cases "gps_ChainStates gs = []")
  case False
  with assms recalculateGlobalMetrics_wf [of "shared gs"] show ?thesis
    by (auto simp: aggregateChainStates_refines shared_fields sh_wf_def aggregated_def aggregatable_def
        shared_updates(1))
qed (simp add: sh_aggregateChainStates_def aggregated_def aggregatable_def)

definition stale :: "SHConfig \<Rightarrow> gotime \<Rightarrow> SHGlobalPoolState \<Rightarrow> bool" where
  "stale c now gs = f_less (f_of_int (ac_MaxStateAge c)) (Seconds (time_Sub now (gps_LastUpdated gs)))"

text \<open>What a pass leaves of a pool.\<close>

definition survivor ::
  "SHConfig \<Rightarrow> gotime \<Rightarrow> (string \<Rightarrow> gotime) \<Rightarrow> string \<Rightarrow> SHGlobalPoolState \<Rightarrow> SHGlobalPoolState option" where
  "survivor c now clk k gs = (if stale c now gs then None else Some (aggregated (clk k) gs))"

lemma aggregateStates_wf:
  assumes "\<forall>gs \<in> set (map_vals (sa_poolStates a)). sh_wf gs"
  defines "c \<equiv> sa_config a"
  shows "aggregateStates now clk a = Inr (a\<lparr>
     sa_poolStates := sweep (survivor c now clk) (sa_poolStates a) (sa_poolStates a),
     sa_stateUpdates := sa_stateUpdates a +
       length (filter (\<lambda>gs. \<not> stale c now gs \<and> aggregatable gs) (map_vals (sa_poolStates a)))\<rparr>)"
proof -
  let ?g = "\<lambda>(k, gs) (pools, updates :: nat).
      (case survivor c now clk k gs of None \<Rightarrow> map_del k pools | Some w \<Rightarrow> map_put k w pools,
       updates + (if \<not> stale c now gs \<and> aggregatable gs then 1 else 0))"
  have body: "(\<lambda>(pools, updates) (k, gs). if stale c now gs then Inr (map_del k pools, updates)
        else go_bind (sh_aggregateChainStates (clk k) gs) (\<lambda>(gs', err).
          Inr (map_put k gs' pools, if err = None then updates + 1 else updates))) s x = Inr (?g x s)"
    if "x \<in> set (sa_poolStates a)" for s x
  proof -
    have "sh_wf (snd x)" using that assms(1) by (auto simp: map_vals_def)
    from sh_aggregateChainStates_wf [OF this, of "clk (fst x)"] show ?thesis
      by (cases x; cases s) (auto simp: survivor_def)
  qed
  have fold: "fold ?g xs (m, n) = (sweep (survivor c now clk) xs m,
      n + length (filter (\<lambda>gs. \<not> stale c now gs \<and> aggregatable gs) (map snd xs)))" for xs m n
    by (induction xs arbitrary: m n) (auto simp: sweep_def)
  show ?thesis
    unfolding aggregateStates_def stale_def [symmetric] c_def [symmetric]
    by (subst for_range_total [OF body], assumption) (simp add: fold map_vals_def)
qed

text \<open>C8: One pass over the pools, on complete reports, never panics. It deletes the pools whose age in
  float seconds exceeds MaxStateAge and aggregates every other pool in place; a pool whose
  aggregation fails stays. stateUpdates grows by the number of successful aggregations.\<close>

theorem aggregateStates_effect:
  assumes "map_ok (sa_poolStates a)" and "\<forall>gs \<in> set (map_vals (sa_poolStates a)). sh_wf gs"
  shows "\<exists>a'. aggregateStates now clk a = Inr a' \<and>
     (\<forall>k. map_get (sa_poolStates a') k = (case map_get (sa_poolStates a) k of None \<Rightarrow> None
        | Some gs \<Rightarrow> if stale (sa_config a) now gs then None else Some (aggregated (clk k) gs))) \<and>
     sa_stateUpdates a' = sa_stateUpdates a +
       length (filter (\<lambda>gs. \<not> stale (sa_config a) now gs \<and> aggregatable gs) (map_vals (sa_poolStates a)))"
  using aggregateStates_wf [OF assms(2)] map_get_sweep_all [OF assms(1)]
  by (simp add: survivor_def split: option.split)

text \<open>The age limit is honoured to the second: a pool updated at most MaxStateAge seconds ago is
  not removed, and one updated MaxStateAge + 1 seconds ago or earlier is, in spite of the
  conversion of the age to a float.\<close>

theorem aggregateStates_age:
  assumes "map_ok (sa_poolStates a)" and "\<forall>gs \<in> set (map_vals (sa_poolStates a)). sh_wf gs"
    and "map_get (sa_poolStates a) k = Some gs"
    and "gps_LastUpdated gs \<le> now" and "now - gps_LastUpdated gs < 2 ^ 63"
    and "0 \<le> ac_MaxStateAge (sa_config a)" and "ac_MaxStateAge (sa_config a) < 2 ^ 53"
  shows "\<exists>a'. aggregateStates now clk a = Inr a' \<and>
     (now - gps_LastUpdated gs \<le> ac_MaxStateAge (sa_config a) * 10 ^ 9 \<longrightarrow> map_get (sa_poolStates a') k \<noteq> None) \<and>
     ((ac_MaxStateAge (sa_config a) + 1) * 10 ^ 9 \<le> now - gps_LastUpdated gs \<longrightarrow> map_get (sa_poolStates a') k = None)"
proof -
  let ?d = "now - gps_LastUpdated gs" and ?m = "ac_MaxStateAge (sa_config a)"
  have sub: "time_Sub now (gps_LastUpdated gs) = ?d" using assms(4,5) by (simp add: time_Sub_def)
  have "0 \<le> ?d" using assms(4) by simp
  note cmp = Seconds_cmp [OF this assms(5,6,7)]
  have "?d \<le> ?m * 10 ^ 9 \<Longrightarrow> \<not> stale (sa_config a) now gs" "(?m + 1) * 10 ^ 9 \<le> ?d \<Longrightarrow> stale (sa_config a) now gs"
    unfolding stale_def sub using cmp by auto
  then show ?thesis
    using aggregateStates_wf [OF assms(2)] map_get_sweep_all [OF assms(1)] assms(3)
    by (simp add: survivor_def)
qed

section \<open>Properties of rebalancing and of executions\<close>

definition imbalance_percent :: "PoolState list \<Rightarrow> int" where
  "imbalance_percent ss = (if total_liq ss = 0 then 0 else pool_imbalance ss * 100 div total_liq ss)"

text \<open>The imbalance routines of the predictor and of the aggregator are one interface: the total
  deviation from the mean liquidity, and its percentage of the total.\<close>

locale imbalance_routines =
  fixes imbalance :: "'g \<Rightarrow> int go" and percent :: "int \<Rightarrow> bigptr \<Rightarrow> float64 go"
    and chains :: "'g \<Rightarrow> (u32, PoolState) gomap" and total :: "'g \<Rightarrow> bigptr"
  assumes imbalance_wf: "\<forall>s \<in> set (map_vals (chains g)). ps_wf s \<Longrightarrow>
        total g = Some (total_liq (map_vals (chains g))) \<Longrightarrow> imbalance g = Inr (pool_imbalance (map_vals (chains g)))"
    and percent_zero: "percent d (Some 0) = Inr (Fin 0)"
    and percent_pos: "0 < t \<Longrightarrow> percent d (Some t) = Inr (f_of_int (big_Int64 (d * 100 div t)))"
begin

lemma percent_exact:
  assumes "\<forall>s \<in> set (map_vals (chains g)). ps_wf s \<and> 0 \<le> liq s"
    and "total g = Some (total_liq (map_vals (chains g)))"
  shows "go_bind (imbalance g) (\<lambda>d. percent d (total g)) = Inr (Fin (of_int (imbalance_percent (map_vals (chains g)))))"
proof -
  let ?ss = "map_vals (chains g)"
  have nn: "\<forall>s \<in> set ?ss. 0 \<le> liq s" using assms(1) by blast
  have T: "0 \<le> total_liq ?ss" unfolding total_liq_def using nn by (intro sum_list_nonneg) auto
  have d: "imbalance g = Inr (pool_imbalance ?ss)" using assms by (intro imbalance_wf) auto
  show ?thesis
  proof (cases "total_liq ?ss = 0")
    case False
    with T have "0 < total_liq ?ss" by simp
    with imbalance_percent_exact [OF pool_imbalance_bounds [OF nn] this] show ?thesis
      by (simp add: d assms(2) percent_pos imbalance_percent_def)
  qed (simp add: d assms(2) percent_zero imbalance_percent_def)
qed

end

interpretation predictor: imbalance_routines predictor_calculateImbalance predictor_calculateImbalancePercent
  gps_ChainStates gps_TotalLiquidity
  by unfold_locales (simp_all add: predictor_calculateImbalance_wf predictor_calculateImbalancePercent_def)

lemma sh_calculateImbalance_shared: "sh_calculateImbalance gs = predictor_calculateImbalance (shared gs)"
  by (simp add: sh_calculateImbalance_def predictor_calculateImbalance_def sumDeviations_def shared_fields Let_def)

interpretation synchook: imbalance_routines sh_calculateImbalance sh_calculateImbalancePercent
  "gps_ChainStates :: SHGlobalPoolState \<Rightarrow> _" "gps_TotalLiquidity :: SHGlobalPoolState \<Rightarrow> _"
proof unfold_locales
  fix g :: SHGlobalPoolState
  assume "\<forall>s \<in> set (map_vals (gps_ChainStates g)). ps_wf s"
    and "gps_TotalLiquidity g = Some (total_liq (map_vals (gps_ChainStates g)))"
  then show "sh_calculateImbalance g = Inr (pool_imbalance (map_vals (gps_ChainStates g)))"
    using predictor_calculateImbalance_wf [of "shared g"]
    by (simp add: sh_calculateImbalance_shared shared_fields)
qed (simp_all add: sh_calculateImbalancePercent_def)

text \<open>Pools as an aggregation leaves them, with non-negative liquidities.\<close>

definition sh_balanced_books :: "SHGlobalPoolState \<Rightarrow> bool" where
  "sh_balanced_books gs \<longleftrightarrow> (\<forall>s \<in> set (map_vals (gps_ChainStates gs)). ps_wf s \<and> 0 \<le> liq s) \<and>
     gps_TotalLiquidity gs = Some (total_liq (map_vals (gps_ChainStates gs)))"

lemma checkRebalancingNeeds_wf:
  assumes "\<forall>gs \<in> set (map_vals (sa_poolStates a)). sh_balanced_books gs"
  shows "checkRebalancingNeeds a = Inr (a\<lparr>sa_rebalancingOps := sa_rebalancingOps a +
     length (filter (\<lambda>gs. f_less (ac_RebalancingThreshold (sa_config a))
        (Fin (of_int (imbalance_percent (map_vals (gps_ChainStates gs)))))) (map_vals (sa_poolStates a)))\<rparr>)"
proof -
  let ?p = "\<lambda>gs. f_less (ac_RebalancingThreshold (sa_config a))
      (Fin (of_int (imbalance_percent (map_vals (gps_ChainStates gs)))))"
  have body: "go_bind (sh_calculateImbalance gs) (\<lambda>imbalance.
      go_bind (sh_calculateImbalancePercent imbalance (gps_TotalLiquidity gs)) (\<lambda>imbalancePercent.
        Inr (if f_greater imbalancePercent (ac_RebalancingThreshold (sa_config a)) then ops + 1 else ops))) =
      Inr ((\<lambda>gs ops. if ?p gs then ops + 1 else ops) gs ops)"
    if "gs \<in> set (map_vals (sa_poolStates a))" for gs and ops :: nat
  proof -
    have "go_bind (sh_calculateImbalance gs) (\<lambda>d. sh_calculateImbalancePercent d (gps_TotalLiquidity gs)) =
        Inr (Fin (of_int (imbalance_percent (map_vals (gps_ChainStates gs)))))"
      using that assms by (intro synchook.percent_exact) (auto simp: sh_balanced_books_def)
    then show ?thesis by (auto simp: go_bind_Inr_iff)
  qed
  show ?thesis
    unfolding checkRebalancingNeeds_def by (subst for_range_total [OF body], assumption) (simp add: fold_count)
qed

text \<open>On pools as the aggregation leaves them, with non-negative liquidities, the rebalancing check
  never panics and adds to rebalancingOps exactly the number of pools whose imbalance, in whole
  percent of their liquidity, exceeds the threshold; nothing else changes.\<close>

theorem checkRebalancingNeeds_exact:
  assumes "\<forall>gs \<in> set (map_vals (sa_poolStates a)). sh_balanced_books gs"
    and "ac_RebalancingThreshold (sa_config a) = Fin th"
  shows "checkRebalancingNeeds a = Inr (a\<lparr>sa_rebalancingOps := sa_rebalancingOps a +
     length (filter (\<lambda>gs. th < of_int (imbalance_percent (map_vals (gps_ChainStates gs)))) (map_vals (sa_poolStates a)))\<rparr>)"
  using checkRebalancingNeeds_wf [OF assms(1)] assms(2) by simp

text \<open>A threshold below one does not mean a fraction: the configured 0.05 acts as every threshold
  of at least zero and less than one percent, counting each pool whose imbalance is one percent
  or more of its liquidity.\<close>

theorem checkRebalancingNeeds_fraction:
  assumes "\<forall>gs \<in> set (map_vals (sa_poolStates a)). sh_balanced_books gs"
    and "ac_RebalancingThreshold (sa_config a) = Fin th" and "0 \<le> th" and "th < 1"
  shows "checkRebalancingNeeds a = Inr (a\<lparr>sa_rebalancingOps := sa_rebalancingOps a +
     length (filter (\<lambda>gs. 1 \<le> imbalance_percent (map_vals (gps_ChainStates gs))) (map_vals (sa_poolStates a)))\<rparr>)"
proof -
  have "(th < of_int n) = (1 \<le> n)" for n
  proof
    assume "th < of_int n"
    then have "(0::rat) < of_int n" using assms(3) by linarith
    then show "1 \<le> n" by simp
  next
    assume "1 \<le> n"
    then have "(1::rat) \<le> of_int n" by simp
    then show "th < of_int n" using assms(4) by linarith
  qed
  then show ?thesis using checkRebalancingNeeds_wf [OF assms(1)] assms(2) by simp
qed

text \<open>Start panics exactly when the ticker of a loop it launches would get a non-positive interval;
  otherwise the loops of tasks and states run, those of rebalancing and health when enabled.\<close>

theorem Start_loops:
  assumes "\<bar>ac_TaskTimeout (sa_config a)\<bar> < 2 ^ 33" and "\<bar>ac_StateUpdateInterval (sa_config a)\<bar> < 2 ^ 33"
    and "\<bar>ac_HealthCheckInterval (sa_config a)\<bar> < 2 ^ 33"
  shows "Start a =
     (if 0 < ac_TaskTimeout (sa_config a) \<and> 0 < ac_StateUpdateInterval (sa_config a) \<and>
         (ac_EnableHealthCheck (sa_config a) \<longrightarrow> 0 < ac_HealthCheckInterval (sa_config a))
      then Inr \<lparr>rt_agg = a, rt_cancelled = False, rt_loops = [TaskLoop, StateLoop] @
        (if ac_RebalancingEnabled (sa_config a) then [RebalancingLoop] else []) @
        (if ac_EnableHealthCheck (sa_config a) then [HealthLoop] else [])\<rparr>
      else Inl (Explicit ''non-positive interval for NewTicker''))"
proof -
  have "seconds n = n * 10 ^ 9" if "\<bar>n\<bar> < 2 ^ 33" for n
    unfolding seconds_def by (rule big_Int64_id) (use that in \<open>simp_all add: abs_less_iff\<close>)
  then have iv: "NewTicker (interval (sa_config a) l) =
      (if case l of TaskLoop \<Rightarrow> 0 < ac_TaskTimeout (sa_config a) | StateLoop \<Rightarrow> 0 < ac_StateUpdateInterval (sa_config a)
          | RebalancingLoop \<Rightarrow> True | HealthLoop \<Rightarrow> 0 < ac_HealthCheckInterval (sa_config a)
       then Inr () else Inl (Explicit ''non-positive interval for NewTicker''))" for l
    using assms by (cases l) (simp_all add: interval_def NewTicker_def not_le zero_less_mult_iff)
  show ?thesis by (auto simp: Start_def Let_def iv)
qed

text \<open>Counters only grow.\<close>

definition counters_le :: "SyncHookAggregator \<Rightarrow> SyncHookAggregator \<Rightarrow> bool" where
  "counters_le a a' \<longleftrightarrow> sa_tasksTotal a' = sa_tasksTotal a \<and> sa_tasksCompleted a \<le> sa_tasksCompleted a' \<and>
     sa_tasksFailed a \<le> sa_tasksFailed a' \<and> sa_stateUpdates a \<le> sa_stateUpdates a' \<and>
     sa_rebalancingOps a \<le> sa_rebalancingOps a'"

lemma counters_processTasks: "counters_le a (processTasks t a)"
  by (simp add: counters_le_def processTasks_def Let_def fold_plus_sum)

lemma counters_aggregateStates:
  assumes "aggregateStates now clk a = Inr a'"
  shows "counters_le a a'"
proof -
  from assms obtain s where s: "a' = a\<lparr>sa_poolStates := fst s, sa_stateUpdates := snd s\<rparr>"
    and loop: "for_range (\<lambda>(pools, updates) (poolID, gs).
         if f_greater (Seconds (time_Sub now (gps_LastUpdated gs))) (f_of_int (ac_MaxStateAge (sa_config a)))
         then Inr (map_del poolID pools, updates)
         else go_bind (sh_aggregateChainStates (clk poolID) gs) (\<lambda>(gs', err).
           Inr (map_put poolID gs' pools, if err = None then updates + 1 else updates)))
       (sa_poolStates a, sa_stateUpdates a) (sa_poolStates a) = Inr s"
    by (auto simp: aggregateStates_def go_bind_Inr_iff)
  have "sa_stateUpdates a \<le> snd s"
    by (rule for_range_invariant [OF loop, where P = "\<lambda>s. sa_stateUpdates a \<le> snd s"])
      (auto simp: go_bind_Inr_iff split: if_splits prod.splits)
  with s show ?thesis by (simp add: counters_le_def)
qed

lemma counters_checkRebalancingNeeds:
  assumes "checkRebalancingNeeds a = Inr a'"
  shows "counters_le a a'"
proof -
  from assms obtain ops where s: "a' = a\<lparr>sa_rebalancingOps := ops\<rparr>"
    and loop: "for_range (\<lambda>ops gs.
         go_bind (sh_calculateImbalance gs) (\<lambda>imbalance.
         go_bind (sh_calculateImbalancePercent imbalance (gps_TotalLiquidity gs)) (\<lambda>imbalancePercent.
           Inr (if f_greater imbalancePercent (ac_RebalancingThreshold (sa_config a)) then ops + 1 else ops))))
       (sa_rebalancingOps a) (map_vals (sa_poolStates a)) = Inr ops"
    by (auto simp: checkRebalancingNeeds_def go_bind_Inr_iff)
  have "sa_rebalancingOps a \<le> ops"
    by (rule for_range_invariant [OF loop, where P = "\<lambda>n. sa_rebalancingOps a \<le> n"])
      (auto simp: go_bind_Inr_iff split: if_splits)
  with s show ?thesis by (simp add: counters_le_def)
qed

interpretation counters: steps_related agg_step "\<lambda>r r'. counters_le (rt_agg r) (rt_agg r')"
proof
  fix r r' :: runtime and e
  show "counters_le (rt_agg r) (rt_agg r')" if "agg_step r e r'"
    using that by cases (auto simp: counters_processTasks performHealthCheck_def Stop_def
        dest!: counters_aggregateStates counters_checkRebalancingNeeds, simp_all add: counters_le_def)
qed (auto simp: counters_le_def)

interpretation no_rebalancing: steps_invariant agg_step
  "\<lambda>r. RebalancingLoop \<notin> set (rt_loops r) \<and> sa_rebalancingOps (rt_agg r) = n" for n
proof
  fix r r' :: runtime and e
  assume "RebalancingLoop \<notin> set (rt_loops r) \<and> sa_rebalancingOps (rt_agg r) = n" and "agg_step r e r'"
  from this(2,1) show "RebalancingLoop \<notin> set (rt_loops r') \<and> sa_rebalancingOps (rt_agg r') = n"
    by cases (auto simp: processTasks_def Let_def performHealthCheck_def Stop_def dest!: aggregateStates_frame)
qed

text \<open>The counters exported to Prometheus never decrease, and tasksTotal never changes: no code
  increments it.\<close>

theorem counters_monotone:
  assumes "run agg_step r es r'"
  shows "sa_tasksTotal (rt_agg r') = sa_tasksTotal (rt_agg r) \<and>
     sa_tasksCompleted (rt_agg r) \<le> sa_tasksCompleted (rt_agg r') \<and>
     sa_tasksFailed (rt_agg r) \<le> sa_tasksFailed (rt_agg r') \<and>
     sa_stateUpdates (rt_agg r) \<le> sa_stateUpdates (rt_agg r') \<and>
     sa_rebalancingOps (rt_agg r) \<le> sa_rebalancingOps (rt_agg r')"
  using counters.R_run [OF assms] by (simp add: counters_le_def)

text \<open>With rebalancing disabled in the configuration no execution after Start ever records a
  rebalancing operation, whatever the pools look like.\<close>

theorem rebalancing_disabled:
  assumes "\<not> ac_RebalancingEnabled (sa_config a)" and "Start a = Inr r" and "run agg_step r es r'"
  shows "sa_rebalancingOps (rt_agg r') = sa_rebalancingOps a"
proof -
  have "RebalancingLoop \<notin> set (rt_loops r) \<and> sa_rebalancingOps (rt_agg r) = sa_rebalancingOps a"
    using assms(2,1) by (auto simp: Start_def Let_def go_bind_Inr_iff split: if_splits)
  from no_rebalancing.I_run [OF assms(3) this] show ?thesis by simp
qed

interpretation returning: steps_progress agg_step "\<lambda>r. rt_cancelled r \<and> rt_agg r = a" "\<lambda>r. rt_loops r = []"
  "\<lambda>r. length (rt_loops r)" for a
proof
  fix r :: runtime
  assume r: "rt_cancelled r \<and> rt_agg r = a" and "rt_loops r \<noteq> []"
  then obtain l ls where l: "rt_loops r = l # ls" by (cases "rt_loops r") auto
  let ?r = "r\<lparr>rt_loops := removeAll l (rt_loops r)\<rparr>"
  have "agg_step r (Return l) ?r" using l r by (intro loop_return) simp_all
  moreover have "length (rt_loops ?r) < length (rt_loops r)"
    using l by (simp add: length_removeAll_less_eq le_imp_less_Suc)
  ultimately show "\<exists>e r'. agg_step r e r' \<and> (rt_cancelled r' \<and> rt_agg r' = a) \<and> length (rt_loops r') < length (rt_loops r)"
    using r by (intro exI [of _ "Return l"] exI [of _ ?r]) simp
qed

interpretation stopped: steps_invariant agg_step "\<lambda>r. rt_loops r = [] \<and> rt_agg r = a" for a
  by unfold_locales (auto simp: Stop_def elim!: agg_stepE)

text \<open>Stop takes effect: after it every loop can return, which changes nothing of the aggregator,
  and once they have no execution changes the aggregator any more.\<close>

theorem Stop_quiesces:
  "(\<exists>es r'. run agg_step (Stop r) es r' \<and> rt_loops r' = [] \<and> rt_agg r' = rt_agg r) \<and>
   (\<forall>r1 es r2. rt_loops r1 = [] \<and> run agg_step r1 es r2 \<longrightarrow> rt_agg r2 = rt_agg r1)"
  using returning.reaches_final [of "Stop r" "rt_agg r"] stopped.I_run by (auto simp: Stop_def)

section \<open>Witnesses\<close>

definition ex_response :: "bool \<Rightarrow> SyncHookTaskResponse" where
  "ex_response v = \<lparr>tr_OperatorAddress = [1], tr_Response = [2], tr_Signature = [3], tr_Timestamp = 10, tr_Valid = v\<rparr>"

definition ex_task :: SyncHookTask where
  "ex_task = \<lparr>tk_TaskID = 7, tk_TaskType = 0, tk_ChainID = 1, tk_PoolID = [9], tk_Payload = [],
     tk_Deadline = 100, tk_Status = 1, tk_CreatedAt = 5, tk_QuorumNumbers = [0],
     tk_QuorumThresholdPercentage = 2,
     tk_Responses = [(''a'', ex_response True), (''b'', ex_response False), (''c'', ex_response True)],
     tk_ConsensusReached = False, tk_Result = []\<rparr>"

definition ex_config :: SHConfig where
  "ex_config = \<lparr>ac_ServerIpPortAddress = ''localhost:8080'', ac_EnableGrpc = True, ac_EnableHttp = True,
     ac_HttpPort = 8081, ac_RegistryCoordinatorAddress = [], ac_OperatorStateRetrieverAddress = [],
     ac_EthRpcUrl = [], ac_EthWsUrl = [], ac_SyncAVSAddress = [], ac_AcrossAddress = [],
     ac_TaskTimeout = 30, ac_MaxConcurrentTasks = 10, ac_TaskRetryAttempts = 3, ac_TaskRetryDelay = 5,
     ac_StateUpdateInterval = 10, ac_StateValidationThreshold = Fin 1, ac_MaxStateAge = 300,
     ac_RebalancingEnabled = False, ac_RebalancingThreshold = Fin (1/20), ac_MaxRebalancingAmount = [],
     ac_MinRebalancingAmount = [], ac_RebalancingTimeout = 300, ac_EnableMetrics = True, ac_MetricsPort = 9090,
     ac_EnableHealthCheck = False, ac_HealthCheckInterval = 0, ac_LogLevel = ''info'', ac_LogFormat = ''json''\<rparr>"

definition ex_sh_pool :: SHGlobalPoolState where
  "ex_sh_pool = GlobalPoolState.extend ex_pool \<lparr>gps_ConsensusReached = False\<rparr>"

definition ex_aggregator :: SyncHookAggregator where
  "ex_aggregator = (fst (NewSyncHookAggregator ex_config))\<lparr>sa_tasks := [(7, ex_task)],
     sa_poolStates := [(''p'', ex_sh_pool)]\<rparr>"

lemma ex_aggregator_fields [simp]:
  "sa_tasks ex_aggregator = [(7, ex_task)]" "sa_poolStates ex_aggregator = [(''p'', ex_sh_pool)]"
  "sa_config ex_aggregator = ex_config" "sa_tasksFailed ex_aggregator = 0" "sa_rebalancingOps ex_aggregator = 0"
  by (simp_all add: ex_aggregator_def NewSyncHookAggregator_def)

lemma ex_sh_pool_fields [simp]:
  "gps_ChainStates ex_sh_pool = [(1, ex_state 6000 2000), (10, ex_state 2000 3100), (137, ex_state 1000 3000)]"
  "gps_TotalLiquidity ex_sh_pool = Some 9000" "gps_LastUpdated ex_sh_pool = 0"
  by (simp_all add: ex_sh_pool_def GlobalPoolState.defs)
    (simp add: ex_pool_def recalculated_def ex_global_def Let_def)

lemma ex_sh_pool_wf [simp]: "sh_wf ex_sh_pool" "sh_balanced_books ex_sh_pool"
  by (simp_all add: sh_wf_def sh_balanced_books_def go_eval)

lemma ex_sh_pool_percent: "imbalance_percent (map_vals (gps_ChainStates ex_sh_pool)) = 66"
  by (simp add: imbalance_percent_def pool_imbalance_def abs_dev_def)

lemma ex_run:
  "run agg_step \<lparr>rt_agg = a, rt_cancelled = False, rt_loops = [TaskLoop, StateLoop]\<rparr> [ProcessTasks 50]
     \<lparr>rt_agg = processTasks 50 a, rt_cancelled = False, rt_loops = [TaskLoop, StateLoop]\<rparr>"
  using agg_step.taskProcessingLoop [of "\<lparr>rt_agg = a, rt_cancelled = False, rt_loops = [TaskLoop, StateLoop]\<rparr>" 50]
  by (auto simp: run_Cons_iff)

theorem consensus_safety_witness:
  "\<exists>task'. map_get (sa_tasks (processTasks 50 ex_aggregator)) 7 = Some task' \<and> tk_ConsensusReached task' \<and>
     sa_tasksCompleted (processTasks 50 ex_aggregator) = 1"
  using consensus_safety [OF ex_run, of ex_aggregator]
  by (auto simp: go_eval map_each_def processTasks_def Let_def processTask_cases quorum_def valid_responses_def
      ex_task_def ex_response_def map_vals_def ex_aggregator_def NewSyncHookAggregator_def)

theorem completed_task_fails_witness:
  "sa_tasksFailed (ex_aggregator\<lparr>sa_tasks := [(7, ex_task\<lparr>tk_ConsensusReached := True\<rparr>)]\<rparr>) + Suc 1 \<le>
   sa_tasksFailed ((processTasks 200 ^^ Suc 1) (ex_aggregator\<lparr>sa_tasks := [(7, ex_task\<lparr>tk_ConsensusReached := True\<rparr>)]\<rparr>))"
proof -
  let ?t = "ex_task\<lparr>tk_ConsensusReached := True\<rparr>"
  have "map_get (sa_tasks (ex_aggregator\<lparr>sa_tasks := [(7, ?t)]\<rparr>)) 7 = Some ?t" "tk_ConsensusReached ?t"
    "tk_Deadline ?t < uint64 200"
    by (simp_all add: go_eval ex_task_def)
  from completed_task_fails [OF this, of 1] show ?thesis by blast
qed

theorem aggregateStates_effect_witness:
  "\<exists>a'. aggregateStates (10 ^ 9) (\<lambda>_. 2 * 10 ^ 9) ex_aggregator = Inr a'"
  using aggregateStates_effect [of ex_aggregator "10 ^ 9" "\<lambda>_. 2 * 10 ^ 9"] by (auto simp: go_eval)

theorem aggregateStates_age_witness:
  "\<exists>a'. aggregateStates (301 * 10 ^ 9) (\<lambda>_. 301 * 10 ^ 9) ex_aggregator = Inr a' \<and> map_get (sa_poolStates a') ''p'' = None"
  using aggregateStates_age [of ex_aggregator "''p''" ex_sh_pool "301 * 10 ^ 9" "\<lambda>_. 301 * 10 ^ 9"]
  by (auto simp: go_eval ex_config_def)

theorem checkRebalancingNeeds_exact_witness:
  "checkRebalancingNeeds ex_aggregator = Inr (ex_aggregator\<lparr>sa_rebalancingOps := 1\<rparr>)"
  using checkRebalancingNeeds_exact [of ex_aggregator "1/20"] ex_sh_pool_percent
  by (simp add: ex_config_def)

theorem checkRebalancingNeeds_fraction_witness:
  "checkRebalancingNeeds ex_aggregator = Inr (ex_aggregator\<lparr>sa_rebalancingOps := 1\<rparr>) \<and> (1/20 :: rat) < 1"
  using checkRebalancingNeeds_fraction [of ex_aggregator "1/20"] ex_sh_pool_percent
  by (simp add: ex_config_def)

theorem Start_loops_witness:
  "Start ex_aggregator = Inr \<lparr>rt_agg = ex_aggregator, rt_cancelled = False, rt_loops = [TaskLoop, StateLoop]\<rparr>"
  using Start_loops [of ex_aggregator] by (simp add: ex_config_def)

theorem counters_monotone_witness:
  "sa_tasksFailed ex_aggregator \<le> sa_tasksFailed (processTasks 50 ex_aggregator)"
  using counters_monotone [OF ex_run, of ex_aggregator] by simp

theorem rebalancing_disabled_witness:
  "sa_rebalancingOps (processTasks 50 ex_aggregator) = 0"
proof -
  have "Start ex_aggregator = Inr \<lparr>rt_agg = ex_aggregator, rt_cancelled = False, rt_loops = [TaskLoop, StateLoop]\<rparr>"
    by (simp add: Start_def ex_config_def interval_def seconds_def NewTicker_def big_Int64_id)
  from rebalancing_disabled [OF _ this ex_run] show ?thesis by (simp add: ex_config_def)
qed

theorem Stop_quiesces_witness:
  "rt_agg (Stop \<lparr>rt_agg = ex_aggregator, rt_cancelled = False, rt_loops = []\<rparr>) = ex_aggregator"
proof -
  let ?r = "\<lparr>rt_agg = ex_aggregator, rt_cancelled = False, rt_loops = []\<rparr>"
  have "run agg_step ?r [StopCalled] (Stop ?r)" by (simp add: run_Cons_iff agg_step.stop)
  with conjunct2 [OF Stop_quiesces [of ?r], rule_format, of ?r "[StopCalled]" "Stop ?r"] show ?thesis by simp
qed

end
