(* ===== verification/Task_History.thy ===== *)
theory Task_History
  imports Task_Aggregator
begin

text \<open>
  The AVS aggregator of \<^verbatim>\<open>aggregator/aggregator.go\<close> over whole executions. Of the tasks only the
  passes of \<open>processTasks\<close> matter: what has become of a task, and what the counters show, is a
  closed form over the times of the passes made. Of a pool the passes of \<open>aggregateStates\<close> matter,
  each of which renews the time the age of the pool is measured from.
\<close>

section \<open>Tasks\<close>

fun pass_of :: "event \<Rightarrow> int list" where
  "pass_of (ProcessTasks t) = [t]"
| "pass_of _ = []"

abbreviation passes :: "event list \<Rightarrow> int list" where
  "passes es \<equiv> concat (map pass_of es)"

text \<open>The abstract state: the tasks and the two counters of their outcomes.\<close>

type_synonym task_books = "(u32, SyncHookTask) gomap \<times> nat \<times> nat"

definition books_of :: "runtime \<Rightarrow> task_books" where
  "books_of r = (sa_tasks (rt_agg r), sa_tasksCompleted (rt_agg r), sa_tasksFailed (rt_agg r))"

definition in_time :: "int \<Rightarrow> SyncHookTask \<Rightarrow> bool" where
  "in_time t task \<longleftrightarrow> uint64 t \<le> tk_Deadline task"

lemma in_time_update [simp]:
  "in_time t (task\<lparr>tk_Status := s\<rparr>) = in_time t task" "in_time t (task\<lparr>tk_ConsensusReached := b\<rparr>) = in_time t task"
  by (simp_all add: in_time_def)

definition after_pass :: "int \<Rightarrow> SyncHookTask \<Rightarrow> SyncHookTask" where
  "after_pass t task =
     (if \<not> in_time t task then task\<lparr>tk_Status := 4\<rparr>
      else if \<not> tk_ConsensusReached task \<and> quorum task then task\<lparr>tk_ConsensusReached := True, tk_Status := 3\<rparr>
      else task)"

definition completes :: "int \<Rightarrow> SyncHookTask \<Rightarrow> bool" where
  "completes t task \<longleftrightarrow> in_time t task \<and> \<not> tk_ConsensusReached task \<and> quorum task"

fun book :: "event \<Rightarrow> task_books \<Rightarrow> task_books" where
  "book (ProcessTasks t) (T, c, n) =
     (map_each (after_pass t) T, c + length (filter (completes t) (map_vals T)),
      n + length (filter (\<lambda>task. \<not> in_time t task) (map_vals T)))"
| "book _ B = B"

lemma processTask_after: "processTask (uint64 t) task =
    (after_pass t task, if completes t task then 1 else 0, if \<not> in_time t task then 1 else 0)"
  by (auto simp: processTask_cases after_pass_def completes_def in_time_def not_le not_less)

lemma fold_sum_count: "fold (\<lambda>x n. n + (if P x then 1 else 0)) xs (k::nat) = k + length (filter P xs)"
  by (induction xs arbitrary: k) simp_all

lemma processTasks_books:
  "sa_tasks (processTasks t a) = map_each (after_pass t) (sa_tasks a)"
  "sa_tasksCompleted (processTasks t a) = sa_tasksCompleted a + length (filter (completes t) (map_vals (sa_tasks a)))"
  "sa_tasksFailed (processTasks t a) = sa_tasksFailed a + length (filter (\<lambda>task. \<not> in_time t task) (map_vals (sa_tasks a)))"
  by (simp_all only: processTasks_def Let_def processTask_after fst_conv snd_conv fold_sum_count)
    simp_all

interpretation books: steps_refine agg_step "\<lambda>r. True" books_of book
proof
  fix r r' :: runtime and e
  assume "agg_step r e r'"
  then show "books_of r' = book e (books_of r)"
    by cases (auto simp: books_of_def processTasks_books performHealthCheck_def Stop_def
        dest!: aggregateStates_frame checkRebalancingNeeds_frame)
qed simp

text \<open>The closed form. A pass changes neither deadline nor responses of a task.\<close>

lemma after_pass_fields [simp]:
  "in_time u (after_pass t task) = in_time u task" "quorum (after_pass t task) = quorum task"
  "tk_ConsensusReached (after_pass t task) \<longleftrightarrow> tk_ConsensusReached task \<or> completes t task"
  "tk_Deadline (after_pass t task) = tk_Deadline task"
  by (auto simp: after_pass_def in_time_def completes_def)

lemma completes_after: "completes u (after_pass t task) \<longleftrightarrow> completes u task \<and> \<not> completes t task"
  by (auto simp: completes_def)

lemma length_filter_split:
  "(\<And>x. R x \<longleftrightarrow> P x \<or> Q x) \<Longrightarrow> (\<And>x. \<not> (P x \<and> Q x)) \<Longrightarrow>
     length (filter P xs) + length (filter Q xs) = length (filter R xs)"
  by (induction xs) auto

lemma fold_book:
  "fold book es (T, c, n) = (map_each (fold after_pass (passes es)) T,
     c + length (filter (\<lambda>task. \<exists>t \<in> set (passes es). completes t task) (map_vals T)),
     n + sum_list (map (\<lambda>t. length (filter (\<lambda>task. \<not> in_time t task) (map_vals T))) (passes es)))"
proof (induction es arbitrary: T c n)
  case (Cons e es)
  show ?case
  proof (cases e)
    case (ProcessTasks t)
    have "length (filter (completes t) (map_vals T)) +
        length (filter (\<lambda>task. \<exists>u \<in> set (passes es). completes u task \<and> \<not> completes t task) (map_vals T)) =
        length (filter (\<lambda>task. completes t task \<or> (\<exists>u \<in> set (passes es). completes u task)) (map_vals T))"
      by (rule length_filter_split) blast+
    with ProcessTasks show ?thesis
      by (simp add: Cons map_each_comp completes_after filter_map comp_def bex_Un)
  qed (simp_all add: Cons)
qed (simp add: id_def)

text \<open>What the passes do to one task.\<close>

lemma passes_consensus:
  "tk_ConsensusReached (fold after_pass ts task) \<longleftrightarrow>
     tk_ConsensusReached task \<or> quorum task \<and> (\<exists>t \<in> set ts. in_time t task)"
  by (induction ts arbitrary: task) (auto simp: completes_def)

lemma passes_frame:
  "fold after_pass ts task = task\<lparr>tk_Status := tk_Status (fold after_pass ts task),
     tk_ConsensusReached := tk_ConsensusReached (fold after_pass ts task)\<rparr>"
proof (induction ts rule: rev_induct)
  case (snoc t ts)
  let ?x = "fold after_pass ts task"
  have "after_pass t ?x = ?x\<lparr>tk_Status := tk_Status (after_pass t ?x), tk_ConsensusReached := tk_ConsensusReached (after_pass t ?x)\<rparr>"
    by (simp add: after_pass_def)
  also have "\<dots> = task\<lparr>tk_Status := tk_Status (after_pass t ?x), tk_ConsensusReached := tk_ConsensusReached (after_pass t ?x)\<rparr>"
    by (subst snoc) simp
  finally show ?case by simp
qed simp

lemma passes_same: "(\<And>t. t \<in> set ts \<Longrightarrow> after_pass t task = task) \<Longrightarrow> fold after_pass ts task = task"
  by (induction ts) simp_all

text \<open>With a clock that does not go back, the last pass decides the status.\<close>

lemma passes_status:
  assumes "sorted (map uint64 ts)"
  shows "tk_Status (fold after_pass ts task) =
     (if ts = [] then tk_Status task else if \<not> in_time (last ts) task then 4
      else if \<not> tk_ConsensusReached task \<and> quorum task then 3 else tk_Status task)"
proof (cases ts)
  case (Cons t us)
  show ?thesis
  proof (cases "in_time (last ts) task")
    case False
    have "ts = butlast ts @ [last ts]" using Cons by simp
    then have "fold after_pass ts task = after_pass (last ts) (fold after_pass (butlast ts) task)"
      by (metis comp_apply fold_append fold_simps)
    moreover have "in_time u (fold after_pass xs task) = in_time u task" for u xs
      by (induction xs arbitrary: task) simp_all
    ultimately show ?thesis using False Cons by (simp add: after_pass_def)
  next
    case True
    have "uint64 u \<le> uint64 (last ts)" if u: "u \<in> set ts" for u
    proof -
      obtain i where i: "i < length ts" "u = ts ! i" using u by (auto simp: in_set_conv_nth)
      moreover have "ts \<noteq> []" using Cons by simp
      ultimately show ?thesis using sorted_nth_mono [OF assms, of i "length ts - 1"] by (simp add: last_conv_nth)
    qed
    then have all: "in_time u task" if "u \<in> set ts" for u using True that order_trans unfolding in_time_def by blast
    then have "fold after_pass us (after_pass t task) = after_pass t task"
      using Cons by (intro passes_same) (auto simp: after_pass_def)
    with True Cons all show ?thesis by (auto simp: after_pass_def)
  qed
qed simp

text \<open>C9: The outcome of every task is a closed form over the times of the passes made, whatever the
  loops did in between. A task has consensus at the end exactly when it had it, or has as many valid
  responses as its threshold and some pass came in time; with a clock that does not go back its
  status is 4 exactly when the last pass was late, 3 when it got consensus and no pass was late,
  and otherwise what it was; nothing else of it changes and no task comes or goes. tasksCompleted
  has grown by the number of tasks that got consensus, tasksFailed by the number of late tasks
  summed over all passes, so a late task is counted again at every pass.\<close>

theorem task_history:
  assumes "run agg_step r es r'"
  defines "ts \<equiv> passes es"
    and "quorum_met \<equiv> \<lambda>task. unat (tk_QuorumThresholdPercentage task) \<le> length (filter tr_Valid (map_vals (tk_Responses task)))"
    and "late \<equiv> \<lambda>t task. tk_Deadline task < uint64 t"
  shows "(\<exists>outcome. sa_tasks (rt_agg r') = map_each outcome (sa_tasks (rt_agg r)) \<and>
       (\<forall>task. outcome task = task\<lparr>tk_Status := tk_Status (outcome task), tk_ConsensusReached := tk_ConsensusReached (outcome task)\<rparr> \<and>
          (tk_ConsensusReached (outcome task) \<longleftrightarrow>
             tk_ConsensusReached task \<or> quorum_met task \<and> (\<exists>t \<in> set ts. \<not> late t task)) \<and>
          (sorted (map uint64 ts) \<and> ts \<noteq> [] \<longrightarrow> tk_Status (outcome task) =
             (if late (last ts) task then 4
              else if \<not> tk_ConsensusReached task \<and> quorum_met task then 3 else tk_Status task)))) \<and>
     sa_tasksCompleted (rt_agg r') = sa_tasksCompleted (rt_agg r) +
       length (filter (\<lambda>task. \<not> tk_ConsensusReached task \<and> quorum_met task \<and> (\<exists>t \<in> set ts. \<not> late t task))
         (map_vals (sa_tasks (rt_agg r)))) \<and>
     sa_tasksFailed (rt_agg r') = sa_tasksFailed (rt_agg r) +
       sum_list (map (\<lambda>t. length (filter (late t) (map_vals (sa_tasks (rt_agg r))))) ts)"
proof -
  have q: "quorum_met = quorum" by (simp add: quorum_met_def quorum_def valid_responses_def fun_eq_iff)
  have l: "late t task \<longleftrightarrow> \<not> in_time t task" for t task by (simp add: late_def in_time_def not_le)
  have late: "late t = (\<lambda>task. \<not> in_time t task)" for t by (simp add: l fun_eq_iff)
  have met: "(\<lambda>task. \<exists>t \<in> set ts. completes t task) =
      (\<lambda>task. \<not> tk_ConsensusReached task \<and> quorum_met task \<and> (\<exists>t \<in> set ts. \<not> late t task))"
    by (auto simp: completes_def l q fun_eq_iff)
  from books.refine_run [OF assms(1)] have
    B: "sa_tasks (rt_agg r') = map_each (fold after_pass ts) (sa_tasks (rt_agg r))"
      "sa_tasksCompleted (rt_agg r') = sa_tasksCompleted (rt_agg r) +
         length (filter (\<lambda>task. \<exists>t \<in> set ts. completes t task) (map_vals (sa_tasks (rt_agg r))))"
      "sa_tasksFailed (rt_agg r') = sa_tasksFailed (rt_agg r) +
         sum_list (map (\<lambda>t. length (filter (\<lambda>task. \<not> in_time t task) (map_vals (sa_tasks (rt_agg r))))) ts)"
    by (simp_all add: books_of_def fold_book ts_def)
  have "\<forall>task. fold after_pass ts task = task\<lparr>tk_Status := tk_Status (fold after_pass ts task),
            tk_ConsensusReached := tk_ConsensusReached (fold after_pass ts task)\<rparr> \<and>
          (tk_ConsensusReached (fold after_pass ts task) \<longleftrightarrow>
             tk_ConsensusReached task \<or> quorum_met task \<and> (\<exists>t \<in> set ts. \<not> late t task)) \<and>
          (sorted (map uint64 ts) \<and> ts \<noteq> [] \<longrightarrow> tk_Status (fold after_pass ts task) =
             (if late (last ts) task then 4
              else if \<not> tk_ConsensusReached task \<and> quorum_met task then 3 else tk_Status task))"
    using passes_frame passes_consensus passes_status by (simp add: l q)
  moreover have "sa_tasksCompleted (rt_agg r') = sa_tasksCompleted (rt_agg r) +
       length (filter (\<lambda>task. \<not> tk_ConsensusReached task \<and> quorum_met task \<and> (\<exists>t \<in> set ts. \<not> late t task))
         (map_vals (sa_tasks (rt_agg r))))" using B(2) unfolding met .
  moreover have "sa_tasksFailed (rt_agg r') = sa_tasksFailed (rt_agg r) +
       sum_list (map (\<lambda>t. length (filter (late t) (map_vals (sa_tasks (rt_agg r))))) ts)" using B(3) by (simp only: late)
  ultimately show ?thesis using B(1) by blast
qed

section \<open>Pools\<close>

text \<open>Pools with complete reports stay so, and keep their reports.\<close>

definition pools_wf :: "SyncHookAggregator \<Rightarrow> bool" where
  "pools_wf a \<longleftrightarrow> map_ok (sa_poolStates a) \<and> (\<forall>gs \<in> set (map_vals (sa_poolStates a)). sh_wf gs)"

lemma aggregated_fields:
  "gps_ChainStates (aggregated now gs) = gps_ChainStates gs" "aggregatable (aggregated now gs) = aggregatable gs"
  "sh_wf (aggregated now gs) = sh_wf gs" "aggregatable gs \<Longrightarrow> gps_LastUpdated (aggregated now gs) = now"
proof -
  have w: "gps_ChainStates (with_shared gs g) = gps_ChainStates g" "gps_LastUpdated (with_shared gs g) = gps_LastUpdated g" for g
    by (cases gs; cases g; simp add: with_shared_def GlobalPoolState.defs)+
  have r: "gps_ChainStates (recalculated g) = gps_ChainStates g" for g by (simp add: recalculated_def Let_def)
  show c: "gps_ChainStates (aggregated now gs) = gps_ChainStates gs" by (simp add: aggregated_def w r shared_fields)
  then show "aggregatable (aggregated now gs) = aggregatable gs" "sh_wf (aggregated now gs) = sh_wf gs"
    by (simp_all add: aggregatable_def sh_wf_def)
  show "aggregatable gs \<Longrightarrow> gps_LastUpdated (aggregated now gs) = now" by (simp add: aggregatable_def aggregated_def w)
qed

lemma aggregateStates_pools:
  assumes "pools_wf a" and "aggregateStates now clk a = Inr a'"
  shows "pools_wf a'" and "sa_config a' = sa_config a"
    and "map_get (sa_poolStates a') k = Option.bind (map_get (sa_poolStates a) k) (survivor (sa_config a) now clk k)"
proof -
  have ok: "map_ok (sa_poolStates a)" and wf: "\<forall>gs \<in> set (map_vals (sa_poolStates a)). sh_wf gs"
    using assms(1) by (simp_all add: pools_wf_def)
  have pools: "sa_poolStates a' = sweep (survivor (sa_config a) now clk) (sa_poolStates a) (sa_poolStates a)"
    using assms(2) aggregateStates_wf [OF wf] by auto
  then show get: "map_get (sa_poolStates a') k = Option.bind (map_get (sa_poolStates a) k) (survivor (sa_config a) now clk k)" for k
    by (simp add: map_get_sweep_all [OF ok] split: option.split)
  have ok': "map_ok (sa_poolStates a')" unfolding pools by (rule map_ok_sweep [OF ok])
  have "sh_wf gs" if "map_get (sa_poolStates a') j = Some gs" for j gs
    using that wf unfolding get
    by (auto simp: survivor_def aggregated_fields gm.vals_iff [OF ok] bind_eq_Some_conv split: if_splits)
  then show "pools_wf a'" using ok' by (auto simp: pools_wf_def gm.vals_iff [OF ok'])
  show "sa_config a' = sa_config a" using aggregateStates_frame [OF assms(2)] by auto
qed

text \<open>The passes over the pools come often enough, as seen from one pool: none later than the allowed
  age after the time the pool carries, which each pass renews.\<close>

fun often :: "int \<Rightarrow> string \<Rightarrow> gotime \<Rightarrow> event list \<Rightarrow> bool" where
  "often age k upd [] = True"
| "often age k upd (AggregateStates now clk # es) \<longleftrightarrow>
     upd \<le> now \<and> now - upd \<le> age * 10 ^ 9 \<and> now - upd < 2 ^ 63 \<and> often age k (clk k) es"
| "often age k upd (e # es) = often age k upd es"

lemma pool_kept:
  assumes "run agg_step r es r'" and "pools_wf (rt_agg r)" and "map_get (sa_poolStates (rt_agg r)) k = Some gs"
    and "aggregatable gs" and "0 \<le> ac_MaxStateAge (sa_config (rt_agg r))" and "ac_MaxStateAge (sa_config (rt_agg r)) < 2 ^ 53"
    and "often (ac_MaxStateAge (sa_config (rt_agg r))) k (gps_LastUpdated gs) es"
  shows "\<exists>gs'. map_get (sa_poolStates (rt_agg r')) k = Some gs' \<and> gps_ChainStates gs' = gps_ChainStates gs"
  using assms
proof (induction arbitrary: gs rule: run.induct)
  case (run_cons r e r' es r'')
  from run_cons.hyps(1) show ?case
  proof cases
    case (stateAggregationLoop now clk a')
    let ?m = "ac_MaxStateAge (sa_config (rt_agg r))" and ?d = "now - gps_LastUpdated gs"
    have d: "0 \<le> ?d" "?d < 2 ^ 63" "?d \<le> ?m * 10 ^ 9" using run_cons.prems(6) stateAggregationLoop by auto
    have "time_Sub now (gps_LastUpdated gs) = ?d" using d by (simp add: time_Sub_def)
    then have fresh: "\<not> stale (sa_config (rt_agg r)) now gs"
      unfolding stale_def using Seconds_cmp(1) [OF d(1,2) run_cons.prems(4,5) d(3)] by simp
    note pools = aggregateStates_pools [OF run_cons.prems(1) stateAggregationLoop(4)]
    have a': "rt_agg r' = a'" using stateAggregationLoop by simp
    have "map_get (sa_poolStates a') k = Some (aggregated (clk k) gs)"
      unfolding pools(3) using run_cons.prems(2) fresh by (simp add: survivor_def)
    with run_cons.IH [of "aggregated (clk k) gs"] run_cons.prems pools stateAggregationLoop show ?thesis
      by (simp add: a' aggregated_fields)
  qed (use run_cons.IH [of gs] run_cons.prems in \<open>auto simp: processTasks_def Let_def performHealthCheck_def Stop_def
      pools_wf_def dest!: checkRebalancingNeeds_frame\<close>)
qed simp

lemma pool_dropped:
  assumes "pools_wf a" and "map_get (sa_poolStates a) k = Some gs" and "\<not> aggregatable gs"
    and "aggregateStates now clk a = Inr a'"
  shows "map_get (sa_poolStates a') k = None \<or>
     (\<exists>gs'. map_get (sa_poolStates a') k = Some gs' \<and> gps_LastUpdated gs' = gps_LastUpdated gs)"
  using aggregateStates_pools(3) [OF assms(1,4), of k] assms(2,3)
  by (auto simp: survivor_def aggregated_def aggregatable_def)

text \<open>C19: The age limit of a pool does not look at the age of its reports. The aggregation stamps the pool
  with the current time on every success, so as long as the passes come at intervals within
  MaxStateAge (as with the default of 30 against 600 seconds) a pool with non-zero liquidity is never
  removed, with the very reports it had at the beginning, however many passes and however much time
  go by without a new one. Only a pool whose aggregation fails keeps its time and can grow old.\<close>

theorem stale_reports_kept:
  assumes "run agg_step r es r'" and "pools_wf (rt_agg r)" and "map_get (sa_poolStates (rt_agg r)) k = Some gs"
    and "0 \<le> ac_MaxStateAge (sa_config (rt_agg r))" and "ac_MaxStateAge (sa_config (rt_agg r)) < 2 ^ 53"
  shows "(aggregatable gs \<and> often (ac_MaxStateAge (sa_config (rt_agg r))) k (gps_LastUpdated gs) es \<longrightarrow>
       (\<exists>gs'. map_get (sa_poolStates (rt_agg r')) k = Some gs' \<and> gps_ChainStates gs' = gps_ChainStates gs)) \<and>
     (\<not> aggregatable gs \<and> aggregateStates now clk (rt_agg r) = Inr a' \<longrightarrow>
       map_get (sa_poolStates a') k = None \<or>
       (\<exists>gs'. map_get (sa_poolStates a') k = Some gs' \<and> gps_LastUpdated gs' = gps_LastUpdated gs))"
  using pool_kept [OF assms(1,2,3) _ assms(4,5)] pool_dropped [OF assms(2,3)] by blast

section \<open>An aggregator with nothing to do\<close>

definition fresh :: "SHConfig \<Rightarrow> SyncHookAggregator \<Rightarrow> bool" where
  "fresh config a \<longleftrightarrow> sa_config a = config \<and> sa_tasks a = [] \<and> sa_poolStates a = [] \<and>
     sa_tasksTotal a = 0 \<and> sa_tasksCompleted a = 0 \<and> sa_tasksFailed a = 0 \<and> sa_stateUpdates a = 0 \<and> sa_rebalancingOps a = 0"

lemma fresh_passes:
  assumes "fresh config a"
  shows "processTasks t a = a" "aggregateStates now clk a = Inr a" "checkRebalancingNeeds a = Inr a" "performHealthCheck a = a"
  using assms by (cases a; simp add: fresh_def processTasks_def aggregateStates_def checkRebalancingNeeds_def performHealthCheck_def
      Let_def map_each_def map_vals_def)+

interpretation idling: steps_invariant agg_step "\<lambda>r. fresh config (rt_agg r)" for config
  by unfold_locales (auto simp: Stop_def fresh_passes elim!: agg_stepE)

lemma Start_agg: "Start a = Inr r \<Longrightarrow> rt_agg r = a"
  by (auto simp: Start_def Let_def go_bind_Inr_iff split: if_splits)

section \<open>Witnesses\<close>

theorem task_history_witness:
  "\<exists>outcome. sa_tasks (processTasks 50 ex_aggregator) = map_each outcome [(7, ex_task)] \<and>
     tk_ConsensusReached (outcome ex_task) \<and> tk_Status (outcome ex_task) = 3 \<and>
     sa_tasksFailed (processTasks 50 ex_aggregator) = 0"
proof -
  have d: "\<not> tk_Deadline ex_task < uint64 50" "unat (tk_QuorumThresholdPercentage ex_task) \<le>
      length (filter tr_Valid (map_vals (tk_Responses ex_task)))" "\<not> tk_ConsensusReached ex_task"
    by (simp_all add: go_eval ex_task_def ex_response_def map_vals_def)
  let ?r = "\<lparr>rt_agg = ex_aggregator, rt_cancelled = False, rt_loops = [TaskLoop, StateLoop]\<rparr>"
    and ?s = "\<lparr>rt_agg = processTasks 50 ex_aggregator, rt_cancelled = False, rt_loops = [TaskLoop, StateLoop]\<rparr>"
  note H = task_history [OF ex_run, of ex_aggregator]
  have "\<exists>outcome. sa_tasks (rt_agg ?s) = map_each outcome (sa_tasks (rt_agg ?r)) \<and>
      (tk_ConsensusReached (outcome ex_task) \<longleftrightarrow> tk_ConsensusReached ex_task \<or>
         unat (tk_QuorumThresholdPercentage ex_task) \<le> length (filter tr_Valid (map_vals (tk_Responses ex_task))) \<and>
         (\<exists>t \<in> set (passes [ProcessTasks 50]). \<not> tk_Deadline ex_task < uint64 t)) \<and>
      (sorted (map uint64 (passes [ProcessTasks 50])) \<and> passes [ProcessTasks 50] \<noteq> [] \<longrightarrow> tk_Status (outcome ex_task) =
         (if tk_Deadline ex_task < uint64 (last (passes [ProcessTasks 50])) then 4
          else if \<not> tk_ConsensusReached ex_task \<and>
            unat (tk_QuorumThresholdPercentage ex_task) \<le> length (filter tr_Valid (map_vals (tk_Responses ex_task)))
          then 3 else tk_Status ex_task))"
    using H by blast
  moreover have "sa_tasksFailed (processTasks 50 ex_aggregator) = 0"
    using conjunct2 [OF conjunct2 [OF H]] d(1) by simp
  ultimately show ?thesis using d by auto
qed

lemma ex_pools_wf: "pools_wf ex_aggregator"
  by (simp add: pools_wf_def go_eval)

theorem stale_reports_kept_witness:
  "\<exists>a' gs'. aggregateStates (60 * 10 ^ 9) (\<lambda>_. 60 * 10 ^ 9) ex_aggregator = Inr a' \<and>
     map_get (sa_poolStates a') ''p'' = Some gs' \<and> gps_ChainStates gs' = gps_ChainStates ex_sh_pool"
proof -
  let ?r = "\<lparr>rt_agg = ex_aggregator, rt_cancelled = False, rt_loops = [StateLoop]\<rparr>"
  let ?e = "AggregateStates (60 * 10 ^ 9) (\<lambda>_. 60 * 10 ^ 9)"
  obtain a' where a': "aggregateStates (60 * 10 ^ 9) (\<lambda>_. 60 * 10 ^ 9) ex_aggregator = Inr a'"
    using aggregateStates_wf [of ex_aggregator] by auto
  have rn: "run agg_step ?r [?e] (?r\<lparr>rt_agg := a'\<rparr>)"
    using agg_step.stateAggregationLoop [of ?r "60 * 10 ^ 9" "\<lambda>_. 60 * 10 ^ 9" a'] a' by (simp add: run_Cons_iff)
  have "aggregatable ex_sh_pool" by (simp add: aggregatable_def)
  with stale_reports_kept [OF rn, of "''p''" ex_sh_pool 0 "\<lambda>_. 0" a'] a' show ?thesis
    by (auto simp: ex_pools_wf go_eval ex_config_def)
qed

end
