(* ===== verification/Avs_Config.thy ===== *)
theory Avs_Config
  imports Task_Aggregator
begin

text \<open>
  The configuration of operator and aggregator, \<^verbatim>\<open>pkg/config/config.go\<close>. The aggregator's
  configuration has the fields of \<open>aggregator.Config\<close> in their order and more, a record
  extension here. Opening a file and decoding JSON are parameters.
\<close>

section \<open>Data\<close>

record ChainConfig =
  cc_ChainID :: u32
  cc_Name :: string
  cc_RpcUrl :: string
  cc_BlockTime :: int
  cc_GasPrice :: int

record ConfigAlertThresholds =
  ct_PriceDeviation :: float64
  ct_LiquidityImbalance :: float64
  ct_ResponseTime :: int

record Config =
  cfg_EcdsaPrivateKeyStorePath :: string
  cfg_BlsPrivateKeyStorePath :: string
  cfg_EthRpcUrl :: string
  cfg_EthWsUrl :: string
  cfg_RegistryCoordinatorAddress :: string
  cfg_OperatorStateRetrieverAddress :: string
  cfg_AggregatorServerIpPortAddr :: string
  cfg_RegisterOperatorOnStartup :: bool
  cfg_EigenMetricsIpPortAddress :: string
  cfg_EnableMetrics :: bool
  cfg_NodeApiIpPortAddress :: string
  cfg_EnableNodeApi :: bool
  cfg_SyncAVSAddress :: string
  cfg_AcrossAddress :: string
  cfg_SupportedChains :: "ChainConfig list"
  cfg_StateUpdateInterval :: int
  cfg_RebalancingThreshold :: float64
  cfg_MaxRebalancingAmount :: string
  cfg_MinRebalancingAmount :: string
  cfg_EnableMonitoring :: bool
  cfg_AlertThresholds :: ConfigAlertThresholds
  cfg_LogLevel :: string
  cfg_LogFormat :: string

record DatabaseConfig =
  db_Type :: string
  db_ConnectionString :: string
  db_MaxConnections :: int
  db_ConnectionTimeout :: int

record AggregatorConfig = SHConfig +
  ac_LogFile :: string
  ac_Database :: DatabaseConfig
  ac_EnableTls :: bool
  ac_TlsCertFile :: string
  ac_TlsKeyFile :: string
  ac_ApiKeyRequired :: bool
  ac_ApiKey :: string
  ac_MaxRequestSize :: int
  ac_RequestTimeout :: int
  ac_ResponseTimeout :: int

section \<open>Loading and defaults\<close>

definition load_file ::
  "(string \<Rightarrow> error + bytes) \<Rightarrow> (bytes \<Rightarrow> error + 'c) \<Rightarrow> string \<Rightarrow> error + 'c" where
  "load_file open_file decode configPath = (case open_file configPath of
       Inl e \<Rightarrow> Inl (''failed to open config file: '' @ e)
     | Inr file \<Rightarrow> (case decode file of
         Inl e \<Rightarrow> Inl (''failed to decode config: '' @ e)
       | Inr config \<Rightarrow> Inr config))"

definition LoadConfig ::
  "(string \<Rightarrow> error + bytes) \<Rightarrow> (bytes \<Rightarrow> error + Config) \<Rightarrow> string \<Rightarrow> error + Config" where
  "LoadConfig = load_file"

definition LoadAggregatorConfig ::
  "(string \<Rightarrow> error + bytes) \<Rightarrow> (bytes \<Rightarrow> error + AggregatorConfig) \<Rightarrow> string \<Rightarrow> error + AggregatorConfig" where
  "LoadAggregatorConfig = load_file"

definition GetDefaultConfig :: Config where
  "GetDefaultConfig = \<lparr>
     cfg_EcdsaPrivateKeyStorePath = ''./keys/operator.ecdsa.key.json'',
     cfg_BlsPrivateKeyStorePath = ''./keys/operator.bls.key.json'',
     cfg_EthRpcUrl = ''http://localhost:8545'',
     cfg_EthWsUrl = ''ws://localhost:8546'',
     cfg_RegistryCoordinatorAddress = ''0x0000000000000000000000000000000000000000'',
     cfg_OperatorStateRetrieverAddress = ''0x0000000000000000000000000000000000000000'',
     cfg_AggregatorServerIpPortAddr = ''localhost:8090'',
     cfg_RegisterOperatorOnStartup = True,
     cfg_EigenMetricsIpPortAddress = ''localhost:9090'',
     cfg_EnableMetrics = True,
     cfg_NodeApiIpPortAddress = ''localhost:9091'',
     cfg_EnableNodeApi = True,
     cfg_SyncAVSAddress = ''0x0000000000000000000000000000000000000000'',
     cfg_AcrossAddress = ''0x0000000000000000000000000000000000000000'',
     cfg_SupportedChains = [
       \<lparr>cc_ChainID = 1, cc_Name = ''Ethereum'', cc_RpcUrl = ''http://localhost:8545'', cc_BlockTime = 12, cc_GasPrice = 20000000000\<rparr>,
       \<lparr>cc_ChainID = 42161, cc_Name = ''Arbitrum'', cc_RpcUrl = ''http://localhost:8547'', cc_BlockTime = 1, cc_GasPrice = 1000000000\<rparr>,
       \<lparr>cc_ChainID = 137, cc_Name = ''Polygon'', cc_RpcUrl = ''http://localhost:8548'', cc_BlockTime = 2, cc_GasPrice = 30000000000\<rparr>],
     cfg_StateUpdateInterval = 30,
     cfg_RebalancingThreshold = f_lit (1/20),
     cfg_MaxRebalancingAmount = ''1000000000000000000000000'',
     cfg_MinRebalancingAmount = ''1000000000000000000000'',
     cfg_EnableMonitoring = True,
     cfg_AlertThresholds = \<lparr>ct_PriceDeviation = f_lit (1/10), ct_LiquidityImbalance = f_lit (1/5), ct_ResponseTime = 30\<rparr>,
     cfg_LogLevel = ''info'',
     cfg_LogFormat = ''json''\<rparr>"

definition GetDefaultAggregatorConfig :: AggregatorConfig where
  "GetDefaultAggregatorConfig = \<lparr>
     ac_ServerIpPortAddress = ''localhost:8090'', ac_EnableGrpc = True, ac_EnableHttp = True, ac_HttpPort = 8080,
     ac_RegistryCoordinatorAddress = ''0x0000000000000000000000000000000000000000'',
     ac_OperatorStateRetrieverAddress = ''0x0000000000000000000000000000000000000000'',
     ac_EthRpcUrl = ''http://localhost:8545'', ac_EthWsUrl = ''ws://localhost:8546'',
     ac_SyncAVSAddress = ''0x0000000000000000000000000000000000000000'',
     ac_AcrossAddress = ''0x0000000000000000000000000000000000000000'',
     ac_TaskTimeout = 300, ac_MaxConcurrentTasks = 100, ac_TaskRetryAttempts = 3, ac_TaskRetryDelay = 30,
     ac_StateUpdateInterval = 30, ac_StateValidationThreshold = f_lit (4/5), ac_MaxStateAge = 600,
     ac_RebalancingEnabled = True, ac_RebalancingThreshold = f_lit (1/20),
     ac_MaxRebalancingAmount = ''1000000000000000000000000'', ac_MinRebalancingAmount = ''1000000000000000000000'',
     ac_RebalancingTimeout = 1800, ac_EnableMetrics = True, ac_MetricsPort = 9090,
     ac_EnableHealthCheck = True, ac_HealthCheckInterval = 30, ac_LogLevel = ''info'', ac_LogFormat = ''json'',
     ac_LogFile = ''./logs/aggregator.log'',
     ac_Database = \<lparr>db_Type = ''sqlite'', db_ConnectionString = ''./data/aggregator.db'', db_MaxConnections = 10,
       db_ConnectionTimeout = 30\<rparr>,
     ac_EnableTls = False, ac_TlsCertFile = [], ac_TlsKeyFile = [], ac_ApiKeyRequired = False, ac_ApiKey = [],
     ac_MaxRequestSize = 10485760, ac_RequestTimeout = 30, ac_ResponseTimeout = 60\<rparr>"

section \<open>Validation and accessors\<close>

definition Config_Validate :: "Config \<Rightarrow> error option" where
  "Config_Validate c =
     (if cfg_EcdsaPrivateKeyStorePath c = [] then Some ''ecdsa_private_key_store_path is required''
      else if cfg_BlsPrivateKeyStorePath c = [] then Some ''bls_private_key_store_path is required''
      else if cfg_EthRpcUrl c = [] then Some ''eth_rpc_url is required''
      else if cfg_RegistryCoordinatorAddress c = [] then Some ''registry_coordinator_address is required''
      else if cfg_SyncAVSAddress c = [] then Some ''sync_avs_address is required''
      else if cfg_AcrossAddress c = [] then Some ''across_address is required''
      else if length (cfg_SupportedChains c) = 0 then Some ''at least one supported chain is required''
      else None)"

definition AggregatorConfig_Validate :: "AggregatorConfig \<Rightarrow> error option" where
  "AggregatorConfig_Validate c =
     (if ac_ServerIpPortAddress c = [] then Some ''server_ip_port_address is required''
      else if ac_EthRpcUrl c = [] then Some ''eth_rpc_url is required''
      else if ac_RegistryCoordinatorAddress c = [] then Some ''registry_coordinator_address is required''
      else if ac_SyncAVSAddress c = [] then Some ''sync_avs_address is required''
      else if ac_AcrossAddress c = [] then Some ''across_address is required''
      else None)"

fun find_chain :: "u32 \<Rightarrow> ChainConfig list \<Rightarrow> error + ChainConfig" where
  "find_chain chainID [] = Inl (''chain '' @ big_String (uint chainID) @ '' not supported'')"
| "find_chain chainID (chain # cs) =
     (if cc_ChainID chain = chainID then Inr chain else find_chain chainID cs)"

definition GetChainConfig :: "Config \<Rightarrow> u32 \<Rightarrow> error + ChainConfig" where
  "GetChainConfig c chainID = find_chain chainID (cfg_SupportedChains c)"

text \<open>The slice is made with the length of the chains and filled index by index.\<close>

definition GetSupportedChainIDs :: "Config \<Rightarrow> u32 list" where
  "GetSupportedChainIDs c =
     fold (\<lambda>(i, chain) ids. ids[i := cc_ChainID chain]) (enumerate 0 (cfg_SupportedChains c))
       (replicate (length (cfg_SupportedChains c)) 0)"

definition IsChainSupported :: "Config \<Rightarrow> u32 \<Rightarrow> bool" where
  "IsChainSupported c chainID = (case GetChainConfig c chainID of Inl e \<Rightarrow> False | Inr _ \<Rightarrow> True)"

definition GetStateUpdateInterval :: "Config \<Rightarrow> int" where
  "GetStateUpdateInterval c = seconds (cfg_StateUpdateInterval c)"

definition GetRebalancingThreshold :: "Config \<Rightarrow> float64" where
  "GetRebalancingThreshold c = cfg_RebalancingThreshold c"

definition GetMaxRebalancingAmount :: "Config \<Rightarrow> error + int" where
  "GetMaxRebalancingAmount c = (case SetString10 (cfg_MaxRebalancingAmount c) of
       None \<Rightarrow> Inl (''invalid max_rebalancing_amount: '' @ cfg_MaxRebalancingAmount c)
     | Some amount \<Rightarrow> Inr amount)"

definition GetMinRebalancingAmount :: "Config \<Rightarrow> error + int" where
  "GetMinRebalancingAmount c = (case SetString10 (cfg_MinRebalancingAmount c) of
       None \<Rightarrow> Inl (''invalid min_rebalancing_amount: '' @ cfg_MinRebalancingAmount c)
     | Some amount \<Rightarrow> Inr amount)"

section \<open>Properties\<close>

lemma fold_fill:
  "length ids = k + length xs \<Longrightarrow>
    fold (\<lambda>(i, x) ids. ids[i := f x]) (enumerate k xs) ids = take k ids @ map f xs"
proof (induction xs arbitrary: k ids)
  case (Cons x xs)
  then have "take (Suc k) (ids[k := f x]) = take k ids @ [f x]" by (simp add: take_Suc_conv_app_nth)
  with Cons show ?case by simp
qed simp

lemma GetSupportedChainIDs_map: "GetSupportedChainIDs c = map cc_ChainID (cfg_SupportedChains c)"
  by (simp add: GetSupportedChainIDs_def fold_fill)

lemma find_chain_Inr:
  "(\<exists>ch. find_chain i cs = Inr ch) \<longleftrightarrow> i \<in> cc_ChainID ` set cs"
  "find_chain i cs = Inr ch \<Longrightarrow> ch \<in> set cs \<and> cc_ChainID ch = i"
  by (induction cs) (auto split: if_splits)

text \<open>A chain counts as supported exactly when its identifier is in the list of supported ones,
  which follows the order of the configuration, and then the lookup returns one of the configured
  chains with that identifier; otherwise it returns an error that names the chain.\<close>

theorem chain_lookup:
  "(IsChainSupported c i \<longleftrightarrow> i \<in> set (GetSupportedChainIDs c)) \<and>
   GetSupportedChainIDs c = map cc_ChainID (cfg_SupportedChains c) \<and>
   (case GetChainConfig c i of
      Inl e \<Rightarrow> i \<notin> set (GetSupportedChainIDs c) \<and> e = ''chain '' @ big_String (uint i) @ '' not supported''
    | Inr ch \<Rightarrow> ch \<in> set (cfg_SupportedChains c) \<and> cc_ChainID ch = i)"
proof -
  have err: "find_chain i cs = Inl e \<Longrightarrow> e = ''chain '' @ big_String (uint i) @ '' not supported''" for cs e
    by (induction cs) (auto split: if_splits)
  show ?thesis
  proof (cases "find_chain i (cfg_SupportedChains c)")
    case (Inl e)
    then show ?thesis
      using find_chain_Inr(1) [of i "cfg_SupportedChains c"] err
      by (auto simp: IsChainSupported_def GetChainConfig_def GetSupportedChainIDs_map)
  next
    case (Inr ch)
    then show ?thesis
      using find_chain_Inr(2) [OF Inr] by (auto simp: IsChainSupported_def GetChainConfig_def GetSupportedChainIDs_map)
  qed
qed

text \<open>An amount written to the configuration in decimal is read back exactly; the default limits are
  a million and a thousand tokens of 18 decimals, in this order.\<close>

theorem amounts_roundtrip:
  "GetMaxRebalancingAmount (c\<lparr>cfg_MaxRebalancingAmount := big_String n\<rparr>) = Inr n \<and>
   GetMinRebalancingAmount (c\<lparr>cfg_MinRebalancingAmount := big_String n\<rparr>) = Inr n \<and>
   GetMaxRebalancingAmount GetDefaultConfig = Inr (10 ^ 24) \<and> GetMinRebalancingAmount GetDefaultConfig = Inr (10 ^ 21)"
  by (simp add: GetMaxRebalancingAmount_def GetMinRebalancingAmount_def SetString10_big_String)
    (simp add: GetDefaultConfig_def SetString10_def parse_nat_def digit_value_def)

text \<open>The default configurations pass their own validation, and an aggregator made from the default
  one starts without a panic, with all four loops running.\<close>

theorem default_config_starts:
  "Config_Validate GetDefaultConfig = None \<and> AggregatorConfig_Validate GetDefaultAggregatorConfig = None \<and>
   (\<exists>r. Start (fst (NewSyncHookAggregator (SHConfig.truncate GetDefaultAggregatorConfig))) = Inr r \<and>
      rt_loops r = [TaskLoop, StateLoop, RebalancingLoop, HealthLoop])"
  by (simp add: Config_Validate_def AggregatorConfig_Validate_def GetDefaultConfig_def GetDefaultAggregatorConfig_def
      NewSyncHookAggregator_def Start_def SHConfig.defs interval_def seconds_def NewTicker_def big_Int64_id)

end
