(* ===== verification/Chain_Clients.thy ===== *)
theory Chain_Clients
  imports State_Validator Go_Time Step_Systems
begin

text \<open>
  The chain clients of \<^verbatim>\<open>pkg/blockchain\<close>: the interface \<open>Client\<close>, the generic client of
  \<^verbatim>\<open>client.go\<close> and those of \<^verbatim>\<open>ethereum.go\<close>, \<^verbatim>\<open>arbitrum.go\<close> and \<^verbatim>\<open>polygon.go\<close>. Their answers are mocked
  in the code: numbers of blocks follow the clock, pools have fixed figures. A reading of the clock
  (Unix seconds) is an argument; \<open>HexToHash\<close> of go-ethereum is a parameter. The goroutine of
  \<open>SubscribeToNewBlocks\<close>, its channel of capacity 10 and the reader of the channel are the step
  relation \<open>sub_step\<close>. The locale \<open>chain_client\<close> is what a caller may rely on, interpreted on the
  interface value \<open>Client\<close>, whichever client it holds.
\<close>

section \<open>Data\<close>

record ChainPoolState =
  cp_PoolID :: hash
  cp_TotalLiquidity :: bigptr
  cp_Price :: bigptr
  cp_Volume24h :: bigptr
  cp_Fees24h :: bigptr
  cp_Timestamp :: u64
  cp_BlockNumber :: u64

record Transaction =
  tx_To :: address
  tx_Value :: bigptr
  tx_Data :: bytes
  tx_GasLimit :: u64
  tx_GasPrice :: bigptr
  tx_Nonce :: u64

record Log =
  lg_Address :: address
  lg_Topics :: "hash list"
  lg_Data :: bytes

record TransactionReceipt =
  rcp_TxHash :: hash
  rcp_BlockNumber :: u64
  rcp_Status :: u64
  rcp_GasUsed :: u64
  rcp_Logs :: "Log list"

record Block =
  bk_Number :: u64
  bk_Hash :: hash
  bk_Timestamp :: u64
  bk_ParentHash :: hash

record NetworkInfo =
  ni_ChainID :: u32
  ni_Name :: string
  ni_BlockTime :: int
  ni_GasPrice :: bigptr
  ni_IsTestnet :: bool

section \<open>Block subscriptions\<close>

text \<open>What a subscription shares: the buffered channel, the block the goroutine is trying to send
  (\<open>None\<close> while it waits for a tick), whether the context is done and whether the goroutine has
  returned and closed the channel; and, of the reader, what it has received.\<close>

record subscription =
  sb_chan :: "Block list"
  sb_pending :: "Block option"
  sb_done :: bool
  sb_closed :: bool
  sb_received :: "Block list"

definition new_subscription :: subscription where
  "new_subscription = \<lparr>sb_chan = [], sb_pending = None, sb_done = False, sb_closed = False, sb_received = []\<rparr>"

datatype sub_event = BlockTick int int | SendBlock | CancelContext | GoroutineReturn | ReceiveBlock

text \<open>A tick that finds the goroutine in its outer \<open>select\<close> makes a block, with two readings of the
  clock; the inner \<open>select\<close> sends it when the channel has room. Both may return once the context is
  done, the inner one giving up its block. \<open>mk\<close> builds the block.\<close>

inductive sub_step :: "(int \<Rightarrow> int \<Rightarrow> Block) \<Rightarrow> subscription \<Rightarrow> sub_event \<Rightarrow> subscription \<Rightarrow> bool" for mk where
  tick: "\<not> sb_closed s \<Longrightarrow> sb_pending s = None \<Longrightarrow>
    sub_step mk s (BlockTick t1 t2) (s\<lparr>sb_pending := Some (mk t1 t2)\<rparr>)"
| send: "\<not> sb_closed s \<Longrightarrow> sb_pending s = Some b \<Longrightarrow> length (sb_chan s) < 10 \<Longrightarrow>
    sub_step mk s SendBlock (s\<lparr>sb_pending := None, sb_chan := sb_chan s @ [b]\<rparr>)"
| cancel: "sub_step mk s CancelContext (s\<lparr>sb_done := True\<rparr>)"
| return: "\<not> sb_closed s \<Longrightarrow> sb_done s \<Longrightarrow>
    sub_step mk s GoroutineReturn (s\<lparr>sb_pending := None, sb_closed := True\<rparr>)"
| receive: "sb_chan s = b # bs \<Longrightarrow>
    sub_step mk s ReceiveBlock (s\<lparr>sb_chan := bs, sb_received := sb_received s @ [b]\<rparr>)"

inductive_cases sub_stepE: "sub_step mk s e s'"

section \<open>The generic client\<close>

record client =
  cl_chainID :: u32
  cl_rpcURL :: string

definition client_New :: "u32 \<Rightarrow> string \<Rightarrow> client \<times> error option" where
  "client_New chainID rpcURL = (\<lparr>cl_chainID = chainID, cl_rpcURL = rpcURL\<rparr>, None)"

definition client_GetChainID :: "client \<Rightarrow> u32" where
  "client_GetChainID c = cl_chainID c"

definition client_GetLatestBlockNumber :: "int \<Rightarrow> client \<Rightarrow> u64 \<times> error option" where
  "client_GetLatestBlockNumber now c = (uint64 (quot now 12), None)"

definition client_GetPoolState :: "int \<Rightarrow> int \<Rightarrow> client \<Rightarrow> hash \<Rightarrow> (ChainPoolState \<times> error option) go" where
  "client_GetPoolState t1 t2 c poolID =
     go_bind (MustSetString ''1000000000000000000000000'') (\<lambda>totalLiquidity.
     go_bind (MustSetString ''2000000000000000000000'') (\<lambda>price.
     go_bind (MustSetString ''50000000000000000000000'') (\<lambda>volume24h.
     go_bind (MustSetString ''1000000000000000000000'') (\<lambda>fees24h.
       Inr (\<lparr>cp_PoolID = poolID, cp_TotalLiquidity = Some totalLiquidity, cp_Price = Some price,
         cp_Volume24h = Some volume24h, cp_Fees24h = Some fees24h, cp_Timestamp = uint64 t1,
         cp_BlockNumber = uint64 (quot t2 12)\<rparr>, None)))))"

definition client_GetTokenBalance :: "client \<Rightarrow> address \<Rightarrow> address \<Rightarrow> (int \<times> error option) go" where
  "client_GetTokenBalance c token account =
     go_bind (MustSetString ''1000000000000000000000'') (\<lambda>balance. Inr (balance, None))"

definition client_GetTokenPrice :: "client \<Rightarrow> address \<Rightarrow> (int \<times> error option) go" where
  "client_GetTokenPrice c token = go_bind (MustSetString ''2000000000000000000000'') (\<lambda>price. Inr (price, None))"

definition client_GetGasPrice :: "client \<Rightarrow> (int \<times> error option) go" where
  "client_GetGasPrice c =
     go_bind (if cl_chainID c = 1 then MustSetString ''20000000000''
              else if cl_chainID c = 42161 then MustSetString ''1000000000''
              else if cl_chainID c = 137 then MustSetString ''30000000000''
              else MustSetString ''10000000000'') (\<lambda>gasPrice. Inr (gasPrice, None))"

definition client_EstimateGas :: "client \<Rightarrow> address \<Rightarrow> bytes \<Rightarrow> u64 \<times> error option" where
  "client_EstimateGas c to data = (21000, None)"

definition client_SendTransaction :: "(string \<Rightarrow> hash) \<Rightarrow> client \<Rightarrow> Transaction \<Rightarrow> hash \<times> error option" where
  "client_SendTransaction HexToHash c tx = (HexToHash ''0x1234567890abcdef'', None)"

definition client_GetTransactionReceipt :: "int \<Rightarrow> client \<Rightarrow> hash \<Rightarrow> TransactionReceipt \<times> error option" where
  "client_GetTransactionReceipt now c txHash =
     (\<lparr>rcp_TxHash = txHash, rcp_BlockNumber = uint64 (quot now 12), rcp_Status = 1, rcp_GasUsed = 21000, rcp_Logs = []\<rparr>, None)"

definition client_newBlock :: "(string \<Rightarrow> hash) \<Rightarrow> int \<Rightarrow> int \<Rightarrow> client \<Rightarrow> Block" where
  "client_newBlock HexToHash t1 t2 c =
     \<lparr>bk_Number = uint64 (quot t1 12), bk_Hash = HexToHash ''0xabcdef1234567890'',
      bk_Timestamp = uint64 t2, bk_ParentHash = HexToHash ''0x1234567890abcdef''\<rparr>"

definition client_SubscribeToNewBlocks :: "client \<Rightarrow> (subscription \<times> error option) go" where
  "client_SubscribeToNewBlocks c = go_bind (NewTicker (12 * 10 ^ 9)) (\<lambda>_. Inr (new_subscription, None))"

section \<open>The Ethereum client\<close>

record EthereumClient =
  ech_chainID :: u32
  ech_rpcURL :: string

definition NewEthereumClient :: "string \<Rightarrow> EthereumClient \<times> error option" where
  "NewEthereumClient rpcURL = (\<lparr>ech_chainID = 1, ech_rpcURL = rpcURL\<rparr>, None)"

definition Ethereum_GetChainID :: "EthereumClient \<Rightarrow> u32" where
  "Ethereum_GetChainID c = ech_chainID c"

definition Ethereum_GetLatestBlockNumber :: "int \<Rightarrow> EthereumClient \<Rightarrow> u64 \<times> error option" where
  "Ethereum_GetLatestBlockNumber now c = (uint64 (quot now 12), None)"

definition Ethereum_GetPoolState :: "int \<Rightarrow> int \<Rightarrow> EthereumClient \<Rightarrow> hash \<Rightarrow> (ChainPoolState \<times> error option) go" where
  "Ethereum_GetPoolState t1 t2 c poolID =
     go_bind (MustSetString ''1000000000000000000000000'') (\<lambda>totalLiquidity.
     go_bind (MustSetString ''2000000000000000000000'') (\<lambda>price.
     go_bind (MustSetString ''50000000000000000000000'') (\<lambda>volume24h.
     go_bind (MustSetString ''1000000000000000000000'') (\<lambda>fees24h.
       Inr (\<lparr>cp_PoolID = poolID, cp_TotalLiquidity = Some totalLiquidity, cp_Price = Some price,
         cp_Volume24h = Some volume24h, cp_Fees24h = Some fees24h, cp_Timestamp = uint64 t1,
         cp_BlockNumber = uint64 (quot t2 12)\<rparr>, None)))))"

definition Ethereum_GetTokenBalance :: "EthereumClient \<Rightarrow> address \<Rightarrow> address \<Rightarrow> (int \<times> error option) go" where
  "Ethereum_GetTokenBalance c token account =
     go_bind (MustSetString ''1000000000000000000000'') (\<lambda>balance. Inr (balance, None))"

definition Ethereum_GetTokenPrice :: "EthereumClient \<Rightarrow> address \<Rightarrow> (int \<times> error option) go" where
  "Ethereum_GetTokenPrice c token = go_bind (MustSetString ''2000000000000000000000'') (\<lambda>price. Inr (price, None))"

definition Ethereum_GetGasPrice :: "EthereumClient \<Rightarrow> int \<times> error option" where
  "Ethereum_GetGasPrice c = (20000000000, None)"

definition Ethereum_EstimateGas :: "EthereumClient \<Rightarrow> address \<Rightarrow> bytes \<Rightarrow> u64 \<times> error option" where
  "Ethereum_EstimateGas c to data = (21000, None)"

definition Ethereum_SendTransaction :: "(string \<Rightarrow> hash) \<Rightarrow> EthereumClient \<Rightarrow> Transaction \<Rightarrow> hash \<times> error option" where
  "Ethereum_SendTransaction HexToHash c tx = (HexToHash ''0x1234567890abcdef'', None)"

definition Ethereum_GetTransactionReceipt :: "int \<Rightarrow> EthereumClient \<Rightarrow> hash \<Rightarrow> TransactionReceipt \<times> error option" where
  "Ethereum_GetTransactionReceipt now c txHash =
     (\<lparr>rcp_TxHash = txHash, rcp_BlockNumber = uint64 (quot now 12), rcp_Status = 1, rcp_GasUsed = 21000, rcp_Logs = []\<rparr>, None)"

definition Ethereum_newBlock :: "(string \<Rightarrow> hash) \<Rightarrow> int \<Rightarrow> int \<Rightarrow> EthereumClient \<Rightarrow> Block" where
  "Ethereum_newBlock HexToHash t1 t2 c =
     \<lparr>bk_Number = uint64 (quot t1 12), bk_Hash = HexToHash ''0xabcdef1234567890'',
      bk_Timestamp = uint64 t2, bk_ParentHash = HexToHash ''0x1234567890abcdef''\<rparr>"

definition Ethereum_SubscribeToNewBlocks :: "EthereumClient \<Rightarrow> (subscription \<times> error option) go" where
  "Ethereum_SubscribeToNewBlocks c = go_bind (NewTicker (12 * 10 ^ 9)) (\<lambda>_. Inr (new_subscription, None))"

definition Ethereum_GetNetworkInfo :: "EthereumClient \<Rightarrow> NetworkInfo \<times> error option" where
  "Ethereum_GetNetworkInfo c = (\<lparr>ni_ChainID = ech_chainID c, ni_Name = ''Ethereum'', ni_BlockTime = 12,
     ni_GasPrice = Some 20000000000, ni_IsTestnet = False\<rparr>, None)"

section \<open>The Arbitrum client\<close>

record ArbitrumClient =
  ach_chainID :: u32
  ach_rpcURL :: string

definition NewArbitrumClient :: "string \<Rightarrow> ArbitrumClient \<times> error option" where
  "NewArbitrumClient rpcURL = (\<lparr>ach_chainID = 42161, ach_rpcURL = rpcURL\<rparr>, None)"

definition Arbitrum_GetChainID :: "ArbitrumClient \<Rightarrow> u32" where
  "Arbitrum_GetChainID c = ach_chainID c"

definition Arbitrum_GetLatestBlockNumber :: "int \<Rightarrow> ArbitrumClient \<Rightarrow> u64 \<times> error option" where
  "Arbitrum_GetLatestBlockNumber now c = (uint64 (quot now 1), None)"

definition Arbitrum_GetPoolState :: "int \<Rightarrow> int \<Rightarrow> ArbitrumClient \<Rightarrow> hash \<Rightarrow> (ChainPoolState \<times> error option) go" where
  "Arbitrum_GetPoolState t1 t2 c poolID =
     go_bind (MustSetString ''500000000000000000000000'') (\<lambda>totalLiquidity.
     go_bind (MustSetString ''2000000000000000000000'') (\<lambda>price.
     go_bind (MustSetString ''25000000000000000000000'') (\<lambda>volume24h.
     go_bind (MustSetString ''500000000000000000000'') (\<lambda>fees24h.
       Inr (\<lparr>cp_PoolID = poolID, cp_TotalLiquidity = Some totalLiquidity, cp_Price = Some price,
         cp_Volume24h = Some volume24h, cp_Fees24h = Some fees24h, cp_Timestamp = uint64 t1,
         cp_BlockNumber = uint64 (quot t2 1)\<rparr>, None)))))"

definition Arbitrum_GetTokenBalance :: "ArbitrumClient \<Rightarrow> address \<Rightarrow> address \<Rightarrow> (int \<times> error option) go" where
  "Arbitrum_GetTokenBalance c token account =
     go_bind (MustSetString ''500000000000000000000'') (\<lambda>balance. Inr (balance, None))"

definition Arbitrum_GetTokenPrice :: "ArbitrumClient \<Rightarrow> address \<Rightarrow> (int \<times> error option) go" where
  "Arbitrum_GetTokenPrice c token = go_bind (MustSetString ''2000000000000000000000'') (\<lambda>price. Inr (price, None))"

definition Arbitrum_GetGasPrice :: "ArbitrumClient \<Rightarrow> int \<times> error option" where
  "Arbitrum_GetGasPrice c = (1000000000, None)"

definition Arbitrum_EstimateGas :: "ArbitrumClient \<Rightarrow> address \<Rightarrow> bytes \<Rightarrow> u64 \<times> error option" where
  "Arbitrum_EstimateGas c to data = (21000, None)"

definition Arbitrum_SendTransaction :: "(string \<Rightarrow> hash) \<Rightarrow> ArbitrumClient \<Rightarrow> Transaction \<Rightarrow> hash \<times> error option" where
  "Arbitrum_SendTransaction HexToHash c tx = (HexToHash ''0xabcdef1234567890'', None)"

definition Arbitrum_GetTransactionReceipt :: "int \<Rightarrow> ArbitrumClient \<Rightarrow> hash \<Rightarrow> TransactionReceipt \<times> error option" where
  "Arbitrum_GetTransactionReceipt now c txHash =
     (\<lparr>rcp_TxHash = txHash, rcp_BlockNumber = uint64 (quot now 1), rcp_Status = 1, rcp_GasUsed = 21000, rcp_Logs = []\<rparr>, None)"

definition Arbitrum_newBlock :: "(string \<Rightarrow> hash) \<Rightarrow> int \<Rightarrow> int \<Rightarrow> ArbitrumClient \<Rightarrow> Block" where
  "Arbitrum_newBlock HexToHash t1 t2 c =
     \<lparr>bk_Number = uint64 (quot t1 1), bk_Hash = HexToHash ''0xabcdef1234567890'',
      bk_Timestamp = uint64 t2, bk_ParentHash = HexToHash ''0x1234567890abcdef''\<rparr>"

definition Arbitrum_SubscribeToNewBlocks :: "ArbitrumClient \<Rightarrow> (subscription \<times> error option) go" where
  "Arbitrum_SubscribeToNewBlocks c = go_bind (NewTicker (1 * 10 ^ 9)) (\<lambda>_. Inr (new_subscription, None))"

definition Arbitrum_GetNetworkInfo :: "ArbitrumClient \<Rightarrow> NetworkInfo \<times> error option" where
  "Arbitrum_GetNetworkInfo c = (\<lparr>ni_ChainID = ach_chainID c, ni_Name = ''Arbitrum'', ni_BlockTime = 1,
     ni_GasPrice = Some 1000000000, ni_IsTestnet = False\<rparr>, None)"

section \<open>The Polygon client\<close>

record PolygonClient =
  pch_chainID :: u32
  pch_rpcURL :: string

definition NewPolygonClient :: "string \<Rightarrow> PolygonClient \<times> error option" where
  "NewPolygonClient rpcURL = (\<lparr>pch_chainID = 137, pch_rpcURL = rpcURL\<rparr>, None)"

definition Polygon_GetChainID :: "PolygonClient \<Rightarrow> u32" where
  "Polygon_GetChainID c = pch_chainID c"

definition Polygon_GetLatestBlockNumber :: "int \<Rightarrow> PolygonClient \<Rightarrow> u64 \<times> error option" where
  "Polygon_GetLatestBlockNumber now c = (uint64 (quot now 2), None)"

definition Polygon_GetPoolState :: "int \<Rightarrow> int \<Rightarrow> PolygonClient \<Rightarrow> hash \<Rightarrow> (ChainPoolState \<times> error option) go" where
  "Polygon_GetPoolState t1 t2 c poolID =
     go_bind (MustSetString ''750000000000000000000000'') (\<lambda>totalLiquidity.
     go_bind (MustSetString ''2000000000000000000000'') (\<lambda>price.
     go_bind (MustSetString ''37500000000000000000000'') (\<lambda>volume24h.
     go_bind (MustSetString ''750000000000000000000'') (\<lambda>fees24h.
       Inr (\<lparr>cp_PoolID = poolID, cp_TotalLiquidity = Some totalLiquidity, cp_Price = Some price,
         cp_Volume24h = Some volume24h, cp_Fees24h = Some fees24h, cp_Timestamp = uint64 t1,
         cp_BlockNumber = uint64 (quot t2 2)\<rparr>, None)))))"

definition Polygon_GetTokenBalance :: "PolygonClient \<Rightarrow> address \<Rightarrow> address \<Rightarrow> (int \<times> error option) go" where
  "Polygon_GetTokenBalance c token account =
     go_bind (MustSetString ''750000000000000000000'') (\<lambda>balance. Inr (balance, None))"

definition Polygon_GetTokenPrice :: "PolygonClient \<Rightarrow> address \<Rightarrow> (int \<times> error option) go" where
  "Polygon_GetTokenPrice c token = go_bind (MustSetString ''2000000000000000000000'') (\<lambda>price. Inr (price, None))"

definition Polygon_GetGasPrice :: "PolygonClient \<Rightarrow> int \<times> error option" where
  "Polygon_GetGasPrice c = (30000000000, None)"

definition Polygon_EstimateGas :: "PolygonClient \<Rightarrow> address \<Rightarrow> bytes \<Rightarrow> u64 \<times> error option" where
  "Polygon_EstimateGas c to data = (21000, None)"

definition Polygon_SendTransaction :: "(string \<Rightarrow> hash) \<Rightarrow> PolygonClient \<Rightarrow> Transaction \<Rightarrow> hash \<times> error option" where
  "Polygon_SendTransaction HexToHash c tx = (HexToHash ''0x1234567890abcdef'', None)"

definition Polygon_GetTransactionReceipt :: "int \<Rightarrow> PolygonClient \<Rightarrow> hash \<Rightarrow> TransactionReceipt \<times> error option" where
  "Polygon_GetTransactionReceipt now c txHash =
     (\<lparr>rcp_TxHash = txHash, rcp_BlockNumber = uint64 (quot now 2), rcp_Status = 1, rcp_GasUsed = 21000, rcp_Logs = []\<rparr>, None)"

definition Polygon_newBlock :: "(string \<Rightarrow> hash) \<Rightarrow> int \<Rightarrow> int \<Rightarrow> PolygonClient \<Rightarrow> Block" where
  "Polygon_newBlock HexToHash t1 t2 c =
     \<lparr>bk_Number = uint64 (quot t1 2), bk_Hash = HexToHash ''0x1234567890abcdef'',
      bk_Timestamp = uint64 t2, bk_ParentHash = HexToHash ''0xabcdef1234567890''\<rparr>"

definition Polygon_SubscribeToNewBlocks :: "PolygonClient \<Rightarrow> (subscription \<times> error option) go" where
  "Polygon_SubscribeToNewBlocks c = go_bind (NewTicker (2 * 10 ^ 9)) (\<lambda>_. Inr (new_subscription, None))"

definition Polygon_GetNetworkInfo :: "PolygonClient \<Rightarrow> NetworkInfo \<times> error option" where
  "Polygon_GetNetworkInfo c = (\<lparr>ni_ChainID = pch_chainID c, ni_Name = ''Polygon'', ni_BlockTime = 2,
     ni_GasPrice = Some 30000000000, ni_IsTestnet = False\<rparr>, None)"

section \<open>The interface value\<close>

datatype Client = Generic client | Ethereum EthereumClient | Arbitrum ArbitrumClient | Polygon PolygonClient

fun GetChainID :: "Client \<Rightarrow> u32" where
  "GetChainID (Generic c) = client_GetChainID c"
| "GetChainID (Ethereum c) = Ethereum_GetChainID c"
| "GetChainID (Arbitrum c) = Arbitrum_GetChainID c"
| "GetChainID (Polygon c) = Polygon_GetChainID c"

fun GetLatestBlockNumber :: "int \<Rightarrow> Client \<Rightarrow> u64 \<times> error option" where
  "GetLatestBlockNumber now (Generic c) = client_GetLatestBlockNumber now c"
| "GetLatestBlockNumber now (Ethereum c) = Ethereum_GetLatestBlockNumber now c"
| "GetLatestBlockNumber now (Arbitrum c) = Arbitrum_GetLatestBlockNumber now c"
| "GetLatestBlockNumber now (Polygon c) = Polygon_GetLatestBlockNumber now c"

fun GetPoolState :: "int \<Rightarrow> int \<Rightarrow> Client \<Rightarrow> hash \<Rightarrow> (ChainPoolState \<times> error option) go" where
  "GetPoolState t1 t2 (Generic c) poolID = client_GetPoolState t1 t2 c poolID"
| "GetPoolState t1 t2 (Ethereum c) poolID = Ethereum_GetPoolState t1 t2 c poolID"
| "GetPoolState t1 t2 (Arbitrum c) poolID = Arbitrum_GetPoolState t1 t2 c poolID"
| "GetPoolState t1 t2 (Polygon c) poolID = Polygon_GetPoolState t1 t2 c poolID"

fun GetGasPrice :: "Client \<Rightarrow> (int \<times> error option) go" where
  "GetGasPrice (Generic c) = client_GetGasPrice c"
| "GetGasPrice (Ethereum c) = Inr (Ethereum_GetGasPrice c)"
| "GetGasPrice (Arbitrum c) = Inr (Arbitrum_GetGasPrice c)"
| "GetGasPrice (Polygon c) = Inr (Polygon_GetGasPrice c)"

fun GetTransactionReceipt :: "int \<Rightarrow> Client \<Rightarrow> hash \<Rightarrow> TransactionReceipt \<times> error option" where
  "GetTransactionReceipt now (Generic c) txHash = client_GetTransactionReceipt now c txHash"
| "GetTransactionReceipt now (Ethereum c) txHash = Ethereum_GetTransactionReceipt now c txHash"
| "GetTransactionReceipt now (Arbitrum c) txHash = Arbitrum_GetTransactionReceipt now c txHash"
| "GetTransactionReceipt now (Polygon c) txHash = Polygon_GetTransactionReceipt now c txHash"

fun newBlock :: "(string \<Rightarrow> hash) \<Rightarrow> Client \<Rightarrow> int \<Rightarrow> int \<Rightarrow> Block" where
  "newBlock HexToHash (Generic c) t1 t2 = client_newBlock HexToHash t1 t2 c"
| "newBlock HexToHash (Ethereum c) t1 t2 = Ethereum_newBlock HexToHash t1 t2 c"
| "newBlock HexToHash (Arbitrum c) t1 t2 = Arbitrum_newBlock HexToHash t1 t2 c"
| "newBlock HexToHash (Polygon c) t1 t2 = Polygon_newBlock HexToHash t1 t2 c"

fun SubscribeToNewBlocks :: "Client \<Rightarrow> (subscription \<times> error option) go" where
  "SubscribeToNewBlocks (Generic c) = client_SubscribeToNewBlocks c"
| "SubscribeToNewBlocks (Ethereum c) = Ethereum_SubscribeToNewBlocks c"
| "SubscribeToNewBlocks (Arbitrum c) = Arbitrum_SubscribeToNewBlocks c"
| "SubscribeToNewBlocks (Polygon c) = Polygon_SubscribeToNewBlocks c"

lemmas client_defs = client_GetLatestBlockNumber_def Ethereum_GetLatestBlockNumber_def
  Arbitrum_GetLatestBlockNumber_def Polygon_GetLatestBlockNumber_def
  client_GetPoolState_def Ethereum_GetPoolState_def Arbitrum_GetPoolState_def Polygon_GetPoolState_def
  client_GetTransactionReceipt_def Ethereum_GetTransactionReceipt_def Arbitrum_GetTransactionReceipt_def
  Polygon_GetTransactionReceipt_def
  client_newBlock_def Ethereum_newBlock_def Arbitrum_newBlock_def Polygon_newBlock_def
  client_SubscribeToNewBlocks_def Ethereum_SubscribeToNewBlocks_def Arbitrum_SubscribeToNewBlocks_def
  Polygon_SubscribeToNewBlocks_def

section \<open>What a caller may rely on\<close>

lemma quot_nonneg: "0 \<le> a \<Longrightarrow> quot a b = a div b"
  by (simp add: quot_def sgn_if)

lemma uint_uint64_quot:
  assumes "0 \<le> t" "t < 2 ^ 63" "0 < b"
  shows "uint (uint64 (quot t b)) = t div b"
proof -
  have "t div b \<le> t" using zdiv_mono2 [of t 1 b] assms by simp
  then have "t div b < 2 ^ 64" using assms(2) by simp
  with assms show ?thesis by (simp add: quot_nonneg uint_uint64 pos_imp_zdiv_nonneg_iff)
qed

text \<open>All fields of a report set and positive.\<close>

definition pool_positive :: "ChainPoolState \<Rightarrow> bool" where
  "pool_positive s \<longleftrightarrow> (\<exists>l p v f. cp_TotalLiquidity s = Some l \<and> 0 < l \<and> cp_Price s = Some p \<and> 0 < p \<and>
     cp_Volume24h s = Some v \<and> 0 < v \<and> cp_Fees24h s = Some f \<and> 0 < f)"

locale chain_client =
  fixes blockTime :: int
    and latest :: "int \<Rightarrow> u64 \<times> error option"
    and pool :: "int \<Rightarrow> int \<Rightarrow> hash \<Rightarrow> (ChainPoolState \<times> error option) go"
    and receipt :: "int \<Rightarrow> hash \<Rightarrow> TransactionReceipt \<times> error option"
    and block :: "int \<Rightarrow> int \<Rightarrow> Block"
  assumes blockTime_pos: "0 < blockTime"
    and latest_clock: "latest now = (uint64 (quot now blockTime), None)"
    and pool_ok: "\<exists>s. pool t1 t2 h = Inr (s, None) \<and> pool_positive s \<and> cp_PoolID s = h \<and>
          cp_Timestamp s = uint64 t1 \<and> cp_BlockNumber s = fst (latest t2)"
    and receipt_block: "rcp_BlockNumber (fst (receipt now h)) = fst (latest now)"
    and block_latest: "bk_Number (block t1 t2) = fst (latest t1)"
begin

lemma latest_mono:
  "0 \<le> t \<Longrightarrow> t \<le> t' \<Longrightarrow> t' < 2 ^ 63 \<Longrightarrow> uint (fst (latest t)) \<le> uint (fst (latest t'))"
  by (simp add: latest_clock uint_uint64_quot blockTime_pos zdiv_mono1)

lemma latest_next:
  "0 \<le> t \<Longrightarrow> t + blockTime < 2 ^ 63 \<Longrightarrow> uint (fst (latest (t + blockTime))) = uint (fst (latest t)) + 1"
  using blockTime_pos by (simp add: latest_clock uint_uint64_quot)

text \<open>A report taken between two queries of the latest block has a block between theirs.\<close>

lemma pool_between:
  assumes "0 \<le> t" "t \<le> t2" "t2 \<le> t'" "t' < 2 ^ 63"
  shows "\<exists>s. pool t1 t2 h = Inr (s, None) \<and> pool_positive s \<and>
     uint (fst (latest t)) \<le> uint (cp_BlockNumber s) \<and> uint (cp_BlockNumber s) \<le> uint (fst (latest t'))"
proof -
  from pool_ok [of t1 t2 h] obtain s where s: "pool t1 t2 h = Inr (s, None)" "pool_positive s"
    "cp_BlockNumber s = fst (latest t2)" by blast
  moreover have "uint (fst (latest t)) \<le> uint (fst (latest t2))" using assms by (intro latest_mono) auto
  moreover have "uint (fst (latest t2)) \<le> uint (fst (latest t'))" using assms by (intro latest_mono) auto
  ultimately show ?thesis by metis
qed

end

text \<open>The divisor of the clock in each client.\<close>

fun block_time :: "Client \<Rightarrow> int" where
  "block_time (Generic c) = 12"
| "block_time (Ethereum c) = 12"
| "block_time (Arbitrum c) = 1"
| "block_time (Polygon c) = 2"

lemma mock_amounts:
  "MustSetString ''1000000000000000000000000'' = Inr (10 ^ 24)"
  "MustSetString ''500000000000000000000000'' = Inr (5 * 10 ^ 23)"
  "MustSetString ''750000000000000000000000'' = Inr (75 * 10 ^ 22)"
  "MustSetString ''2000000000000000000000'' = Inr (2 * 10 ^ 21)"
  "MustSetString ''50000000000000000000000'' = Inr (5 * 10 ^ 22)"
  "MustSetString ''25000000000000000000000'' = Inr (25 * 10 ^ 21)"
  "MustSetString ''37500000000000000000000'' = Inr (375 * 10 ^ 20)"
  "MustSetString ''1000000000000000000000'' = Inr (10 ^ 21)"
  "MustSetString ''500000000000000000000'' = Inr (5 * 10 ^ 20)"
  "MustSetString ''750000000000000000000'' = Inr (75 * 10 ^ 19)"
  by (simp_all add: MustSetString_def SetString10_def parse_nat_def digit_value_def)

interpretation chain: chain_client "block_time c" "\<lambda>now. GetLatestBlockNumber now c"
  "\<lambda>t1 t2. GetPoolState t1 t2 c" "\<lambda>now. GetTransactionReceipt now c" "newBlock HexToHash c" for c HexToHash
  by (unfold_locales; cases c) (simp_all add: client_defs mock_amounts pool_positive_def)

section \<open>Properties\<close>

text \<open>C36: Whichever client an interface value holds, and for clock readings after 1970: a pool state is
  returned without panic or error, with all figures positive, and its block number lies between
  the latest block numbers queried before and after it; the latest block number never decreases
  and grows by one per block time.\<close>

theorem client_blocks:
  assumes "0 \<le> t" and "t \<le> t2" and "t2 \<le> t'" and "t' + block_time c < 2 ^ 63"
  shows "\<exists>s. GetPoolState t1 t2 c h = Inr (s, None) \<and> pool_positive s \<and> cp_PoolID s = h \<and>
     uint (fst (GetLatestBlockNumber t c)) \<le> uint (cp_BlockNumber s) \<and>
     uint (cp_BlockNumber s) \<le> uint (fst (GetLatestBlockNumber t' c)) \<and>
     uint (fst (GetLatestBlockNumber (t' + block_time c) c)) = uint (fst (GetLatestBlockNumber t' c)) + 1"
proof -
  have "t' < 2 ^ 63" using assms(4) chain.blockTime_pos [of c] by linarith
  from chain.pool_between [OF assms(1-3) this, where c = c and h = h and ?t1.0 = t1]
    chain.pool_ok [where c = c and h = h and ?t1.0 = t1 and ?t2.0 = t2]
    chain.latest_next [where c = c and t = t'] assms show ?thesis by auto
qed

subsection \<open>Subscriptions\<close>

definition held :: "subscription \<Rightarrow> Block list" where
  "held s = sb_received s @ sb_chan s @ (case sb_pending s of None \<Rightarrow> [] | Some b \<Rightarrow> [b])"

fun ticks :: "sub_event list \<Rightarrow> (int \<times> int) list" where
  "ticks [] = []"
| "ticks (BlockTick t1 t2 # es) = (t1, t2) # ticks es"
| "ticks (_ # es) = ticks es"

definition sub_inv :: "subscription \<Rightarrow> bool" where
  "sub_inv s \<longleftrightarrow> length (sb_chan s) \<le> 10 \<and> (sb_closed s \<longrightarrow> sb_pending s = None)"

interpretation sub: steps_invariant "sub_step mk" sub_inv for mk
  by unfold_locales (auto simp: sub_inv_def elim!: sub_stepE)

lemma closed_no_ticks: "run (sub_step mk) s es s' \<Longrightarrow> sb_closed s \<Longrightarrow> ticks es = [] \<and> sb_closed s' \<and> held s' = held s"
proof (induction rule: run.induct)
  case (run_cons s e s' es s'')
  from run_cons.hyps(1) run_cons.prems have "ticks (e # es) = ticks es" "sb_closed s'" "held s' = held s"
    by (auto simp: held_def elim!: sub_stepE)
  with run_cons.IH show ?case by simp
qed simp

text \<open>What is held, followed by what the ticks make, is held in the end, but for the block the
  goroutine was sending when it returned.\<close>

lemma held_run:
  assumes "run (sub_step mk) s es s'" and "sub_inv s"
  shows "\<exists>dropped. held s @ map (\<lambda>(t1, t2). mk t1 t2) (ticks es) = held s' @ dropped \<and> length dropped \<le> 1 \<and>
     (dropped \<noteq> [] \<longrightarrow> sb_closed s')"
  using assms
proof (induction rule: run.induct)
  case (run_cons s e s' es s'')
  from run_cons.hyps(1) run_cons.prems have I: "sub_inv s'" by (blast intro: sub.I_step)
  show ?case
  proof (cases "e = GoroutineReturn")
    case True
    with run_cons.hyps(1) obtain d where "held s = held s' @ d" "length d \<le> 1" "sb_closed s'" "ticks (e # es) = ticks es"
      by (auto simp: held_def elim!: sub_stepE split: option.splits)
    with closed_no_ticks [OF run_cons.hyps(2)] show ?thesis by auto
  next
    case False
    with run_cons.hyps(1) have "held s @ map (\<lambda>(t1, t2). mk t1 t2) (ticks (e # es)) = held s' @ map (\<lambda>(t1, t2). mk t1 t2) (ticks es)"
      by (auto simp: held_def elim!: sub_stepE)
    with run_cons.IH [OF I] show ?thesis by simp
  qed
qed simp

lemma held_split:
  assumes "sub_inv s" and "length d \<le> 1" and "d \<noteq> [] \<longrightarrow> sb_closed s"
  shows "\<exists>rest. held s @ d = sb_received s @ sb_chan s @ rest \<and> length rest \<le> 1 \<and>
     (rest \<noteq> [] \<longrightarrow> sb_pending s = Some (hd rest) \<or> sb_closed s)"
  using assms by (cases "sb_pending s") (auto simp: held_def sub_inv_def)

lemma block_numbers_sorted:
  assumes "sorted (map fst ts)" and "\<forall>(t1, t2) \<in> set ts. 0 \<le> t1 \<and> t1 < 2 ^ 63"
  shows "sorted (map (\<lambda>b. uint (bk_Number b)) (map (\<lambda>(t1, t2). newBlock HexToHash c t1 t2) ts))"
  using assms
proof (induction ts)
  case (Cons x ts)
  then show ?case
    by (force simp: chain.block_latest intro!: chain.latest_mono)
qed simp

text \<open>C35: A subscription delivers the blocks in the order of the ticks, none twice, none invented and
  none lost: what the reader has received, followed by the channel, is what the ticks made, but for
  at most one block, the one being sent, which is given up only when the goroutine returns. The
  channel never holds more than 10. As long as the clock does not go backwards the received block
  numbers never decrease.\<close>

theorem block_subscription:
  assumes "SubscribeToNewBlocks c = Inr (s0, None)" and "run (sub_step (newBlock HexToHash c)) s0 es s"
  shows "(\<exists>rest. map (\<lambda>(t1, t2). newBlock HexToHash c t1 t2) (ticks es) = sb_received s @ sb_chan s @ rest \<and>
       length rest \<le> 1 \<and> (rest \<noteq> [] \<longrightarrow> sb_pending s = Some (hd rest) \<or> sb_closed s)) \<and>
     length (sb_chan s) \<le> 10 \<and>
     (sorted (map fst (ticks es)) \<and> (\<forall>(t1, t2) \<in> set (ticks es). 0 \<le> t1 \<and> t1 < 2 ^ 63) \<longrightarrow>
       sorted (map (\<lambda>b. uint (bk_Number b)) (sb_received s)))"
proof -
  have s0: "s0 = new_subscription" using assms(1) by (cases c) (simp_all add: client_defs NewTicker_def)
  then have I0: "sub_inv s0" by (simp add: sub_inv_def new_subscription_def)
  from sub.I_run [OF assms(2) I0] have I: "sub_inv s" .
  have "held s0 = []" by (simp add: s0 new_subscription_def held_def)
  with held_run [OF assms(2) I0] obtain d where
    d: "map (\<lambda>(t1, t2). newBlock HexToHash c t1 t2) (ticks es) = held s @ d" "length d \<le> 1" "d \<noteq> [] \<longrightarrow> sb_closed s"
    by auto
  from held_split [OF I d(2,3)] obtain rest where
    rest: "held s @ d = sb_received s @ sb_chan s @ rest" "length rest \<le> 1"
      "rest \<noteq> [] \<longrightarrow> sb_pending s = Some (hd rest) \<or> sb_closed s" by blast
  moreover have "length (sb_chan s) \<le> 10" using I by (simp add: sub_inv_def)
  moreover have "sorted (map (\<lambda>b. uint (bk_Number b)) (sb_received s))"
    if "sorted (map fst (ticks es))" "\<forall>(t1, t2) \<in> set (ticks es). 0 \<le> t1 \<and> t1 < 2 ^ 63"
  proof -
    from block_numbers_sorted [OF that] have "sorted (map (\<lambda>b. uint (bk_Number b)) (held s @ d))"
      by (simp add: d(1) [symmetric])
    then show ?thesis by (simp add: rest(1) sorted_append)
  qed
  ultimately show ?thesis unfolding d(1) by blast
qed

section \<open>Witnesses\<close>

theorem client_blocks_witness:
  "\<exists>s. GetPoolState 1200 1206 (Polygon \<lparr>pch_chainID = 137, pch_rpcURL = []\<rparr>) [7] = Inr (s, None) \<and> pool_positive s"
  using client_blocks [of 1200 1206 1212 "Polygon \<lparr>pch_chainID = 137, pch_rpcURL = []\<rparr>" 1200 "[7]"] by auto

lemma ex_subscription_run:
  "run (sub_step mk) new_subscription [BlockTick 24 24, SendBlock, ReceiveBlock]
     (new_subscription\<lparr>sb_received := [mk 24 24]\<rparr>)"
proof -
  have "sub_step mk new_subscription (BlockTick 24 24) (new_subscription\<lparr>sb_pending := Some (mk 24 24)\<rparr>)"
    by (rule tick) (simp_all add: new_subscription_def)
  moreover have "sub_step mk (new_subscription\<lparr>sb_pending := Some (mk 24 24)\<rparr>) SendBlock
      (new_subscription\<lparr>sb_chan := [mk 24 24]\<rparr>)"
    using send [of "new_subscription\<lparr>sb_pending := Some (mk 24 24)\<rparr>" "mk 24 24" mk] by (simp add: new_subscription_def)
  moreover have "sub_step mk (new_subscription\<lparr>sb_chan := [mk 24 24]\<rparr>) ReceiveBlock
      (new_subscription\<lparr>sb_received := [mk 24 24]\<rparr>)"
    using receive [of "new_subscription\<lparr>sb_chan := [mk 24 24]\<rparr>" "mk 24 24" "[]" mk] by (simp add: new_subscription_def)
  ultimately show ?thesis by (blast intro: run_cons run_nil)
qed

theorem block_subscription_witness:
  "\<exists>s. run (sub_step (newBlock (\<lambda>_. []) (Generic \<lparr>cl_chainID = 1, cl_rpcURL = []\<rparr>))) new_subscription
       [BlockTick 24 24, SendBlock, ReceiveBlock] s \<and> length (sb_chan s) \<le> 10"
proof -
  let ?c = "Generic \<lparr>cl_chainID = 1, cl_rpcURL = []\<rparr>"
  have "SubscribeToNewBlocks ?c = Inr (new_subscription, None)" by (simp add: client_defs NewTicker_def)
  from block_subscription [OF this ex_subscription_run] ex_subscription_run show ?thesis by blast
qed

end
