(* ===== verification/Eigen_Registration.thy ===== *)
theory Eigen_Registration
  imports State_Validator Alert_Store
begin

text \<open>
  The two EigenLayer packages. \<^verbatim>\<open>pkg/eigenlayer\<close>: the interface \<open>Client\<close>, the client that implements
  it with unfinished methods, and the registration manager on top of the interface.
  \<^verbatim>\<open>internal/eigenlayer\<close>: the client and the AVS object the internal operator uses, with mocked
  answers. An interface value is a record of its methods over a state \<open>'s\<close>, the chain behind it;
  \<open>HexToAddress\<close>, \<open>Hex\<close> and the random source are parameters. The locale \<open>unreachable_client\<close> is
  the contract of a client that cannot answer whether an operator is registered.
\<close>

section \<open>The interface and the client of pkg/eigenlayer\<close>

record Task =
  et_TaskID :: u32
  et_TaskType :: u32
  et_ChainID :: u32
  et_PoolID :: hash
  et_Payload :: bytes
  et_Deadline :: u64
  et_Status :: u32
  et_CreatedAt :: u64
  et_QuorumNumbers :: "u8 list"
  et_QuorumThresholdPercentage :: u32

record 's EigenClient =
  RegisterOperator :: "string \<Rightarrow> 's \<Rightarrow> 's \<times> error option"
  IsOperatorRegistered :: "address \<Rightarrow> 's \<Rightarrow> bool \<times> error option"
  GetOperatorStake :: "address \<Rightarrow> 's \<Rightarrow> bigptr \<times> error option"
  SubmitTaskResponse :: "u32 \<Rightarrow> bytes \<Rightarrow> bytes \<Rightarrow> 's \<Rightarrow> 's \<times> error option"
  GetTask :: "u32 \<Rightarrow> 's \<Rightarrow> Task option \<times> error option"

record eigen_client =
  ecl_registryCoordinator :: address

definition eigen_NewClient :: "(string \<Rightarrow> address) \<Rightarrow> string \<Rightarrow> eigen_client \<times> error option" where
  "eigen_NewClient HexToAddress registryCoordinator =
     (\<lparr>ecl_registryCoordinator = HexToAddress registryCoordinator\<rparr>, None)"

definition eigen_RegisterOperator :: "eigen_client \<Rightarrow> string \<Rightarrow> 's \<Rightarrow> 's \<times> error option" where
  "eigen_RegisterOperator c metadataURI s = (s, Some ''not implemented'')"

definition eigen_IsOperatorRegistered :: "eigen_client \<Rightarrow> address \<Rightarrow> 's \<Rightarrow> bool \<times> error option" where
  "eigen_IsOperatorRegistered c operatorAddr s = (False, Some ''not implemented'')"

definition eigen_GetOperatorStake :: "eigen_client \<Rightarrow> address \<Rightarrow> 's \<Rightarrow> bigptr \<times> error option" where
  "eigen_GetOperatorStake c operatorAddr s = (Some 0, Some ''not implemented'')"

definition eigen_SubmitTaskResponse :: "eigen_client \<Rightarrow> u32 \<Rightarrow> bytes \<Rightarrow> bytes \<Rightarrow> 's \<Rightarrow> 's \<times> error option" where
  "eigen_SubmitTaskResponse c taskIndex response signature s = (s, Some ''not implemented'')"

definition eigen_GetTask :: "eigen_client \<Rightarrow> u32 \<Rightarrow> 's \<Rightarrow> Task option \<times> error option" where
  "eigen_GetTask c taskIndex s = (None, Some ''not implemented'')"

text \<open>The client as a value of the interface.\<close>

definition as_client :: "eigen_client \<Rightarrow> 's EigenClient" where
  "as_client c = \<lparr>RegisterOperator = eigen_RegisterOperator c, IsOperatorRegistered = eigen_IsOperatorRegistered c,
     GetOperatorStake = eigen_GetOperatorStake c, SubmitTaskResponse = eigen_SubmitTaskResponse c, GetTask = eigen_GetTask c\<rparr>"

section \<open>The registration manager\<close>

record OperatorInfo =
  oi_Address :: address
  oi_IsRegistered :: bool
  oi_StakeAmount :: bigptr
  oi_MetadataURI :: string
  oi_RegistrationTime :: u64

definition RegisterOperatorWithEigenLayer ::
  "'s EigenClient \<Rightarrow> address \<Rightarrow> string \<Rightarrow> 's \<Rightarrow> 's \<times> error option" where
  "RegisterOperatorWithEigenLayer C operatorAddr metadataURI s =
     (case IsOperatorRegistered C operatorAddr s of
        (isRegistered, Some e) \<Rightarrow> (s, Some (''failed to check operator registration status: '' @ e))
      | (isRegistered, None) \<Rightarrow>
         if isRegistered then (s, None)
         else case RegisterOperator C metadataURI s of
                (s', Some e) \<Rightarrow> (s', Some (''failed to register operator: '' @ e))
              | (s', None) \<Rightarrow> (s', None))"

definition ValidateOperatorRegistration ::
  "(address \<Rightarrow> string) \<Rightarrow> 's EigenClient \<Rightarrow> address \<Rightarrow> 's \<Rightarrow> error option go" where
  "ValidateOperatorRegistration Hex C operatorAddr s =
     (case IsOperatorRegistered C operatorAddr s of
        (isRegistered, Some e) \<Rightarrow> Inr (Some (''failed to check operator registration: '' @ e))
      | (isRegistered, None) \<Rightarrow>
         if \<not> isRegistered then Inr (Some (''operator not registered: '' @ Hex operatorAddr))
         else case GetOperatorStake C operatorAddr s of
                (stake, Some e) \<Rightarrow> Inr (Some (''failed to get operator stake: '' @ e))
              | (stake, None) \<Rightarrow> go_bind (deref stake) (\<lambda>x.
                  if x = 0 then Inr (Some (''operator has no stake: '' @ Hex operatorAddr)) else Inr None))"

definition GetOperatorInfo :: "(address \<Rightarrow> string) \<Rightarrow> 's EigenClient \<Rightarrow> address \<Rightarrow> 's \<Rightarrow> error + OperatorInfo" where
  "GetOperatorInfo Hex C operatorAddr s =
     (case IsOperatorRegistered C operatorAddr s of
        (isRegistered, Some e) \<Rightarrow> Inl (''failed to check registration status: '' @ e)
      | (isRegistered, None) \<Rightarrow>
         if \<not> isRegistered then Inl (''operator not registered: '' @ Hex operatorAddr)
         else case GetOperatorStake C operatorAddr s of
                (stake, Some e) \<Rightarrow> Inl (''failed to get operator stake: '' @ e)
              | (stake, None) \<Rightarrow> Inr \<lparr>oi_Address = operatorAddr, oi_IsRegistered = isRegistered,
                  oi_StakeAmount = stake, oi_MetadataURI = [], oi_RegistrationTime = 0\<rparr>)"

text \<open>Transaction options: \<open>bind.NewKeyedTransactorWithChainID\<close> is the parameter \<open>keyed\<close>; the
  result is the transactor with its gas limit. The chain is always 1.\<close>

definition createTransactOpts :: "('sk \<Rightarrow> int \<Rightarrow> error + 'a) \<Rightarrow> 'sk \<Rightarrow> u64 \<Rightarrow> error + 'a \<times> u64" where
  "createTransactOpts keyed privateKey gasLimit = (case keyed privateKey 1 of
       Inl e \<Rightarrow> Inl (''failed to create transactor: '' @ e)
     | Inr auth \<Rightarrow> Inr (auth, gasLimit))"

definition getPublicKey :: "('pk, 'sk) crypto \<Rightarrow> ('sk \<Rightarrow> 'pk) \<Rightarrow> 'sk \<Rightarrow> address" where
  "getPublicKey C PublicKey privateKey = PubkeyToAddress C (PublicKey privateKey)"

section \<open>The client of internal/eigenlayer\<close>

record EigenLayerConfig =
  elc_RegistryCoordinator :: string
  elc_StakeRegistry :: string
  elc_BLSApkRegistry :: string
  elc_IndexRegistry :: string
  elc_OperatorID :: u32
  elc_QuorumNumber :: u8

record 'cl InternalEigenClient =
  iel_config :: EigenLayerConfig
  iel_client :: "'cl option"
  iel_registryCoordinator :: address
  iel_stakeRegistry :: address
  iel_blsApkRegistry :: address
  iel_indexRegistry :: address
  iel_operatorID :: u32
  iel_quorumNumber :: u8

text \<open>A failed \<open>Dial\<close> is only logged and leaves the connection nil.\<close>

definition internal_NewEigenClient ::
  "(string \<Rightarrow> address) \<Rightarrow> (string \<Rightarrow> error + 'cl) \<Rightarrow> EigenLayerConfig \<Rightarrow> error + 'cl InternalEigenClient" where
  "internal_NewEigenClient HexToAddress Dial cfg =
     Inr \<lparr>iel_config = cfg,
       iel_client = (case Dial ''https://mainnet.infura.io/v3/your-key'' of Inl e \<Rightarrow> None | Inr c \<Rightarrow> Some c),
       iel_registryCoordinator = HexToAddress (elc_RegistryCoordinator cfg),
       iel_stakeRegistry = HexToAddress (elc_StakeRegistry cfg),
       iel_blsApkRegistry = HexToAddress (elc_BLSApkRegistry cfg),
       iel_indexRegistry = HexToAddress (elc_IndexRegistry cfg),
       iel_operatorID = elc_OperatorID cfg, iel_quorumNumber = elc_QuorumNumber cfg\<rparr>"

definition iel_Start :: "'cl InternalEigenClient \<Rightarrow> error option" where
  "iel_Start c = None"

text \<open>Stop closes the connection, if there is one: the connections closed, and the error.\<close>

definition iel_Stop :: "'cl InternalEigenClient \<Rightarrow> 'cl list \<times> error option" where
  "iel_Stop c = ((case iel_client c of None \<Rightarrow> [] | Some cl \<Rightarrow> [cl]), None)"

definition iel_SubmitStateUpdate :: "'cl InternalEigenClient \<Rightarrow> u64 \<Rightarrow> 'st \<Rightarrow> error option" where
  "iel_SubmitStateUpdate c chainID state = None"

definition iel_GetOperatorStake :: "'cl InternalEigenClient \<Rightarrow> string \<times> error option" where
  "iel_GetOperatorStake c = (''1000000000000000000000'', None)"

definition iel_IsOperatorRegistered :: "'cl InternalEigenClient \<Rightarrow> bool \<times> error option" where
  "iel_IsOperatorRegistered c = (True, None)"

section \<open>The AVS object\<close>

record AVS =
  avs_registryCoordinator :: address
  avs_stakeRegistry :: address
  avs_blsApkRegistry :: address
  avs_indexRegistry :: address
  avs_operatorID :: u32
  avs_quorumNumber :: u8

definition NewAVS :: "(string \<Rightarrow> address) \<Rightarrow> EigenLayerConfig \<Rightarrow> AVS" where
  "NewAVS HexToAddress cfg = \<lparr>avs_registryCoordinator = HexToAddress (elc_RegistryCoordinator cfg),
     avs_stakeRegistry = HexToAddress (elc_StakeRegistry cfg), avs_blsApkRegistry = HexToAddress (elc_BLSApkRegistry cfg),
     avs_indexRegistry = HexToAddress (elc_IndexRegistry cfg), avs_operatorID = elc_OperatorID cfg,
     avs_quorumNumber = elc_QuorumNumber cfg\<rparr>"

record StateUpdate =
  su_ChainID :: u64
  su_BlockNumber :: u64
  su_Timestamp :: u64
  su_Data :: "(string, iface) gomap"
  su_Signature :: bytes

text \<open>\<open>rand n\<close> is what \<open>rand.Read\<close> puts into a slice of length \<open>n\<close>, or its error.\<close>

definition generateSignature :: "(nat \<Rightarrow> error + bytes) \<Rightarrow> StateUpdate \<Rightarrow> error + bytes" where
  "generateSignature rand stateUpdate = (case rand 96 of
       Inl e \<Rightarrow> Inl (''failed to generate signature: '' @ e)
     | Inr signature \<Rightarrow> Inr signature)"

definition submitToAVS :: "StateUpdate \<Rightarrow> error option" where
  "submitToAVS stateUpdate = None"

text \<open>Beside the error: the update that was handed to submitToAVS.\<close>

definition avs_SubmitStateUpdate ::
  "(nat \<Rightarrow> error + bytes) \<Rightarrow> int \<Rightarrow> u64 \<Rightarrow> (string, iface) gomap \<Rightarrow> StateUpdate option \<times> error option" where
  "avs_SubmitStateUpdate rand now chainID d =
     (let stateUpdate = \<lparr>su_ChainID = chainID, su_BlockNumber = 0, su_Timestamp = uint64 now, su_Data = d, su_Signature = []\<rparr>
      in case generateSignature rand stateUpdate of
           Inl e \<Rightarrow> (None, Some (''failed to generate signature: '' @ e))
         | Inr signature \<Rightarrow>
            let stateUpdate = stateUpdate\<lparr>su_Signature := signature\<rparr> in
            (Some stateUpdate, map_option (\<lambda>e. ''failed to submit to AVS: '' @ e) (submitToAVS stateUpdate)))"

definition avs_IsOperatorRegistered :: "AVS \<Rightarrow> bool \<times> error option" where
  "avs_IsOperatorRegistered a = (True, None)"

definition GetOperatorList :: "AVS \<Rightarrow> u8 \<Rightarrow> u32 list \<times> error option" where
  "GetOperatorList a quorumNumber = ([1, 2, 3, 4, 5], None)"

definition ValidateStateUpdate :: "AVS \<Rightarrow> StateUpdate \<Rightarrow> bool \<times> error option" where
  "ValidateStateUpdate a stateUpdate = (True, None)"

definition GetStateUpdateHistory :: "AVS \<Rightarrow> u64 \<Rightarrow> int \<Rightarrow> StateUpdate list \<times> error option" where
  "GetStateUpdateHistory a chainID limit = ([], None)"

section \<open>A client that cannot answer\<close>

locale unreachable_client =
  fixes C :: "'s EigenClient"
  assumes no_answer: "\<exists>e. snd (IsOperatorRegistered C addr s) = Some e"
begin

lemma register_fails: "\<exists>e. RegisterOperatorWithEigenLayer C addr uri s = (s, Some e)"
  using no_answer [of addr s]
  by (auto simp: RegisterOperatorWithEigenLayer_def split: prod.splits option.splits)

lemma validate_fails: "\<exists>e. ValidateOperatorRegistration Hex C addr s = Inr (Some e)"
  using no_answer [of addr s] by (auto simp: ValidateOperatorRegistration_def split: prod.splits option.splits)

lemma info_fails: "\<exists>e. GetOperatorInfo Hex C addr s = Inl e"
  using no_answer [of addr s] by (auto simp: GetOperatorInfo_def split: prod.splits option.splits)

end

interpretation eigen: unreachable_client "as_client c" for c
  by unfold_locales (simp add: as_client_def eigen_IsOperatorRegistered_def)

text \<open>The manager on any client.\<close>

lemma validate_accepts:
  "ValidateOperatorRegistration Hex C addr s = Inr None \<longleftrightarrow>
     IsOperatorRegistered C addr s = (True, None) \<and> (\<exists>x. GetOperatorStake C addr s = (Some x, None) \<and> x \<noteq> 0)"
  by (cases "GetOperatorStake C addr s"; cases "fst (GetOperatorStake C addr s)")
    (auto simp: ValidateOperatorRegistration_def split: prod.splits option.splits)

lemma validate_panics:
  "ValidateOperatorRegistration Hex C addr s = Inl p \<longleftrightarrow>
     p = NilDeref \<and> IsOperatorRegistered C addr s = (True, None) \<and> GetOperatorStake C addr s = (None, None)"
  by (cases "GetOperatorStake C addr s"; cases "fst (GetOperatorStake C addr s)")
    (auto simp: ValidateOperatorRegistration_def split: prod.splits option.splits)

lemma valid_has_info:
  "ValidateOperatorRegistration Hex C addr s = Inr None \<longrightarrow>
     (\<exists>info. GetOperatorInfo Hex C addr s = Inr info \<and> oi_Address info = addr \<and> oi_IsRegistered info \<and>
       oi_StakeAmount info = fst (GetOperatorStake C addr s) \<and> oi_StakeAmount info \<noteq> Some 0)"
  by (auto simp: validate_accepts GetOperatorInfo_def)

lemma register_reports:
  "RegisterOperatorWithEigenLayer C addr uri s = (s', None) \<longleftrightarrow>
     IsOperatorRegistered C addr s = (True, None) \<and> s' = s \<or>
     IsOperatorRegistered C addr s = (False, None) \<and> RegisterOperator C uri s = (s', None)"
  by (auto simp: RegisterOperatorWithEigenLayer_def split: prod.splits option.splits)

section \<open>Properties\<close>


text \<open>The witness has a client that knows one operator.\<close>

definition ex_eigen :: "nat EigenClient" where
  "ex_eigen = \<lparr>RegisterOperator = (\<lambda>uri s. (s + 1, None)), IsOperatorRegistered = (\<lambda>a s. (0 < s, None)),
     GetOperatorStake = (\<lambda>a s. (Some (int s), None)), SubmitTaskResponse = (\<lambda>i r g s. (s, None)), GetTask = (\<lambda>i s. (None, None))\<rparr>"


text \<open>A state update submitted through the AVS object carries a signature of exactly the bytes the
  random source gave, the chain, the data and the time of the call; when the source fails nothing
  is submitted and the error says so twice.\<close>

theorem avs_SubmitStateUpdate_exact:
  "(case rand 96 of
      Inl e \<Rightarrow> avs_SubmitStateUpdate rand now chainID d =
        (None, Some (''failed to generate signature: failed to generate signature: '' @ e))
    | Inr sig \<Rightarrow> \<exists>u. avs_SubmitStateUpdate rand now chainID d = (Some u, None) \<and> su_Signature u = sig \<and>
        su_ChainID u = chainID \<and> su_Data u = d \<and> su_Timestamp u = uint64 now)"
  by (auto simp: avs_SubmitStateUpdate_def generateSignature_def submitToAVS_def Let_def split: sum.splits)

end
