(* ===== verification/Metrics_Collector.thy ===== *)
theory Metrics_Collector
  imports Health_Monitor Task_Aggregator
begin

text \<open>
  The metrics collector of \<^verbatim>\<open>pkg/monitoring/metrics.go\<close>, and the registration of the collectors of
  all three components that have some. As in the other theories a Prometheus counter is the number
  of its increments, a gauge its last value, a histogram the list of its observations. The default
  registry of the Prometheus client is a parameter: \<open>register name r\<close> is the registry with one more
  collector, or the panic of \<open>MustRegister\<close>, through which every constructor of \<open>promauto\<close> goes.
\<close>

section \<open>Data\<close>

record Metrics =
  mx_operatorUptime :: float64
  mx_operatorStatus :: float64
  mx_poolStatesTotal :: float64
  mx_poolStatesActive :: float64
  mx_poolStatesStale :: float64
  mx_stateUpdatesTotal :: nat
  mx_stateUpdateLatency :: "float64 list"
  mx_stateUpdateErrors :: nat
  mx_rebalancingRequests :: nat
  mx_rebalancingSuccess :: nat
  mx_rebalancingFailures :: nat
  mx_rebalancingAmount :: "float64 list"
  mx_rebalancingCost :: "float64 list"
  mx_tasksTotal :: nat
  mx_tasksCompleted :: nat
  mx_tasksFailed :: nat
  mx_taskProcessingTime :: "float64 list"
  mx_consensusReached :: nat
  mx_consensusFailed :: nat
  mx_consensusLatency :: "float64 list"
  mx_crossChainOps :: nat
  mx_crossChainSuccess :: nat
  mx_crossChainFailures :: nat
  mx_crossChainLatency :: "float64 list"
  mx_alertsTotal :: nat
  mx_alertsActive :: float64
  mx_alertsResolved :: nat
  mx_cpuUsage :: float64
  mx_memoryUsage :: float64
  mx_diskUsage :: float64
  mx_networkLatency :: "float64 list"

definition metrics_names :: "string list" where
  "metrics_names = [
     ''synchook_operator_uptime_seconds'', ''synchook_operator_status'', ''synchook_pool_states_total'',
     ''synchook_pool_states_active'', ''synchook_pool_states_stale'', ''synchook_state_updates_total'',
     ''synchook_state_update_latency_seconds'', ''synchook_state_update_errors_total'',
     ''synchook_rebalancing_requests_total'', ''synchook_rebalancing_success_total'',
     ''synchook_rebalancing_failures_total'', ''synchook_rebalancing_amount_tokens'',
     ''synchook_rebalancing_cost_eth'', ''synchook_tasks_total'', ''synchook_tasks_completed_total'',
     ''synchook_tasks_failed_total'', ''synchook_task_processing_time_seconds'',
     ''synchook_consensus_reached_total'', ''synchook_consensus_failed_total'',
     ''synchook_consensus_latency_seconds'', ''synchook_cross_chain_operations_total'',
     ''synchook_cross_chain_success_total'', ''synchook_cross_chain_failures_total'',
     ''synchook_cross_chain_latency_seconds'', ''synchook_alerts_total'', ''synchook_alerts_active'',
     ''synchook_alerts_resolved_total'', ''synchook_cpu_usage_percent'', ''synchook_memory_usage_bytes'',
     ''synchook_disk_usage_bytes'', ''synchook_network_latency_seconds'']"

definition metrics_zero :: Metrics where
  "metrics_zero = \<lparr>mx_operatorUptime = f_lit 0, mx_operatorStatus = f_lit 0, mx_poolStatesTotal = f_lit 0,
     mx_poolStatesActive = f_lit 0, mx_poolStatesStale = f_lit 0, mx_stateUpdatesTotal = 0,
     mx_stateUpdateLatency = [], mx_stateUpdateErrors = 0, mx_rebalancingRequests = 0,
     mx_rebalancingSuccess = 0, mx_rebalancingFailures = 0, mx_rebalancingAmount = [], mx_rebalancingCost = [],
     mx_tasksTotal = 0, mx_tasksCompleted = 0, mx_tasksFailed = 0, mx_taskProcessingTime = [],
     mx_consensusReached = 0, mx_consensusFailed = 0, mx_consensusLatency = [], mx_crossChainOps = 0,
     mx_crossChainSuccess = 0, mx_crossChainFailures = 0, mx_crossChainLatency = [], mx_alertsTotal = 0,
     mx_alertsActive = f_lit 0, mx_alertsResolved = 0, mx_cpuUsage = f_lit 0, mx_memoryUsage = f_lit 0,
     mx_diskUsage = f_lit 0, mx_networkLatency = []\<rparr>"

text \<open>The bucket options of the histograms, in the order of the constructor.\<close>

datatype buckets = DefBuckets | ExponentialBuckets rat rat nat

definition metrics_buckets :: "(string \<times> buckets) list" where
  "metrics_buckets = [
     (''synchook_state_update_latency_seconds'', DefBuckets),
     (''synchook_rebalancing_amount_tokens'', ExponentialBuckets 1000 10 6),
     (''synchook_rebalancing_cost_eth'', ExponentialBuckets (1/1000) 10 4),
     (''synchook_task_processing_time_seconds'', DefBuckets),
     (''synchook_consensus_latency_seconds'', DefBuckets),
     (''synchook_cross_chain_latency_seconds'', ExponentialBuckets 1 2 10),
     (''synchook_network_latency_seconds'', ExponentialBuckets (1/1000) 2 10)]"

section \<open>Registration\<close>

definition register_all :: "(string \<Rightarrow> 'r \<Rightarrow> 'r go) \<Rightarrow> string list \<Rightarrow> 'r \<Rightarrow> 'r go" where
  "register_all register ns r = for_range (\<lambda>r n. register n r) r ns"

definition NewMetrics :: "(string \<Rightarrow> 'r \<Rightarrow> 'r go) \<Rightarrow> 'r \<Rightarrow> (Metrics \<times> 'r) go" where
  "NewMetrics register r = go_bind (register_all register metrics_names r) (\<lambda>r'. Inr (metrics_zero, r'))"

text \<open>The constructors of the monitor and of the AVS aggregator with the registrations they make.\<close>

definition monitor_names :: "string list" where
  "monitor_names = [
     ''synchook_pool_states_total'', ''synchook_rebalancing_requests_total'', ''synchook_rebalancing_success_total'',
     ''synchook_rebalancing_failures_total'', ''synchook_state_update_latency_seconds'',
     ''synchook_operator_uptime_seconds'']"

definition NewMonitor_in :: "(string \<Rightarrow> 'r \<Rightarrow> 'r go) \<Rightarrow> 'r \<Rightarrow> (Monitor \<times> 'r) go" where
  "NewMonitor_in register r = go_bind (register_all register monitor_names r) (\<lambda>r'. Inr (NewMonitor, r'))"

definition aggregator_names :: "string list" where
  "aggregator_names = [
     ''synchook_aggregator_tasks_total'', ''synchook_aggregator_tasks_completed_total'',
     ''synchook_aggregator_tasks_failed_total'', ''synchook_aggregator_state_updates_total'',
     ''synchook_aggregator_rebalancing_ops_total'']"

definition NewSyncHookAggregator_in ::
  "(string \<Rightarrow> 'r \<Rightarrow> 'r go) \<Rightarrow> SHConfig \<Rightarrow> 'r \<Rightarrow> ((SyncHookAggregator \<times> error option) \<times> 'r) go" where
  "NewSyncHookAggregator_in register config r =
     go_bind (register_all register aggregator_names r) (\<lambda>r'. Inr (NewSyncHookAggregator config, r'))"

section \<open>Recording\<close>

definition RecordOperatorUptime :: "float64 \<Rightarrow> Metrics \<Rightarrow> Metrics" where
  "RecordOperatorUptime uptime m = m\<lparr>mx_operatorUptime := uptime\<rparr>"

definition RecordOperatorStatus :: "bool \<Rightarrow> Metrics \<Rightarrow> Metrics" where
  "RecordOperatorStatus healthy m =
     (if healthy then m\<lparr>mx_operatorStatus := f_lit 1\<rparr> else m\<lparr>mx_operatorStatus := f_lit 0\<rparr>)"

definition RecordPoolStates :: "int \<Rightarrow> int \<Rightarrow> int \<Rightarrow> Metrics \<Rightarrow> Metrics" where
  "RecordPoolStates tot act old m =
     m\<lparr>mx_poolStatesTotal := f_of_int tot, mx_poolStatesActive := f_of_int act, mx_poolStatesStale := f_of_int old\<rparr>"

definition metrics_RecordStateUpdate :: "int \<Rightarrow> Metrics \<Rightarrow> Metrics" where
  "metrics_RecordStateUpdate latency m =
     m\<lparr>mx_stateUpdatesTotal := mx_stateUpdatesTotal m + 1,
       mx_stateUpdateLatency := mx_stateUpdateLatency m @ [Seconds latency]\<rparr>"

definition RecordStateUpdateError :: "Metrics \<Rightarrow> Metrics" where
  "RecordStateUpdateError m = m\<lparr>mx_stateUpdateErrors := mx_stateUpdateErrors m + 1\<rparr>"

definition metrics_RecordRebalancingRequest :: "float64 \<Rightarrow> Metrics \<Rightarrow> Metrics" where
  "metrics_RecordRebalancingRequest amount m =
     m\<lparr>mx_rebalancingRequests := mx_rebalancingRequests m + 1, mx_rebalancingAmount := mx_rebalancingAmount m @ [amount]\<rparr>"

definition metrics_RecordRebalancingSuccess :: "float64 \<Rightarrow> float64 \<Rightarrow> Metrics \<Rightarrow> Metrics" where
  "metrics_RecordRebalancingSuccess amount cost m =
     m\<lparr>mx_rebalancingSuccess := mx_rebalancingSuccess m + 1, mx_rebalancingAmount := mx_rebalancingAmount m @ [amount],
       mx_rebalancingCost := mx_rebalancingCost m @ [cost]\<rparr>"

definition metrics_RecordRebalancingFailure :: "float64 \<Rightarrow> Metrics \<Rightarrow> Metrics" where
  "metrics_RecordRebalancingFailure amount m =
     m\<lparr>mx_rebalancingFailures := mx_rebalancingFailures m + 1, mx_rebalancingAmount := mx_rebalancingAmount m @ [amount]\<rparr>"

definition RecordTaskProcessed :: "int \<Rightarrow> Metrics \<Rightarrow> Metrics" where
  "RecordTaskProcessed processingTime m =
     m\<lparr>mx_tasksTotal := mx_tasksTotal m + 1, mx_taskProcessingTime := mx_taskProcessingTime m @ [Seconds processingTime]\<rparr>"

definition RecordTaskCompleted :: "Metrics \<Rightarrow> Metrics" where
  "RecordTaskCompleted m = m\<lparr>mx_tasksCompleted := mx_tasksCompleted m + 1\<rparr>"

definition RecordTaskFailed :: "Metrics \<Rightarrow> Metrics" where
  "RecordTaskFailed m = m\<lparr>mx_tasksFailed := mx_tasksFailed m + 1\<rparr>"

definition RecordConsensusReached :: "int \<Rightarrow> Metrics \<Rightarrow> Metrics" where
  "RecordConsensusReached latency m =
     m\<lparr>mx_consensusReached := mx_consensusReached m + 1, mx_consensusLatency := mx_consensusLatency m @ [Seconds latency]\<rparr>"

definition RecordConsensusFailed :: "Metrics \<Rightarrow> Metrics" where
  "RecordConsensusFailed m = m\<lparr>mx_consensusFailed := mx_consensusFailed m + 1\<rparr>"

definition RecordCrossChainOperation :: "int \<Rightarrow> Metrics \<Rightarrow> Metrics" where
  "RecordCrossChainOperation latency m =
     m\<lparr>mx_crossChainOps := mx_crossChainOps m + 1, mx_crossChainLatency := mx_crossChainLatency m @ [Seconds latency]\<rparr>"

definition RecordCrossChainSuccess :: "Metrics \<Rightarrow> Metrics" where
  "RecordCrossChainSuccess m = m\<lparr>mx_crossChainSuccess := mx_crossChainSuccess m + 1\<rparr>"

definition RecordCrossChainFailure :: "Metrics \<Rightarrow> Metrics" where
  "RecordCrossChainFailure m = m\<lparr>mx_crossChainFailures := mx_crossChainFailures m + 1\<rparr>"

definition RecordAlert :: "Metrics \<Rightarrow> Metrics" where
  "RecordAlert m = m\<lparr>mx_alertsTotal := mx_alertsTotal m + 1\<rparr>"

definition RecordAlertsActive :: "int \<Rightarrow> Metrics \<Rightarrow> Metrics" where
  "RecordAlertsActive n m = m\<lparr>mx_alertsActive := f_of_int n\<rparr>"

definition RecordAlertResolved :: "Metrics \<Rightarrow> Metrics" where
  "RecordAlertResolved m = m\<lparr>mx_alertsResolved := mx_alertsResolved m + 1\<rparr>"

definition RecordPerformanceMetrics :: "float64 \<Rightarrow> float64 \<Rightarrow> float64 \<Rightarrow> Metrics \<Rightarrow> Metrics" where
  "RecordPerformanceMetrics cpu memory disk m =
     m\<lparr>mx_cpuUsage := cpu, mx_memoryUsage := memory, mx_diskUsage := disk\<rparr>"

definition RecordNetworkLatency :: "int \<Rightarrow> Metrics \<Rightarrow> Metrics" where
  "RecordNetworkLatency latency m = m\<lparr>mx_networkLatency := mx_networkLatency m @ [Seconds latency]\<rparr>"

text \<open>The summary is made of literals.\<close>

definition GetMetricsSummary :: "Metrics \<Rightarrow> (string, iface) gomap" where
  "GetMetricsSummary m = [
     (''operator_uptime'', IString ''running''), (''operator_status'', IString ''active''),
     (''pool_states_total'', IInt 10), (''pool_states_active'', IInt 8), (''pool_states_stale'', IInt 2),
     (''state_updates_total'', IInt 150), (''rebalancing_requests'', IInt 25), (''rebalancing_success'', IInt 20),
     (''rebalancing_failures'', IInt 5), (''tasks_total'', IInt 100), (''tasks_completed'', IInt 95),
     (''tasks_failed'', IInt 5), (''consensus_reached'', IInt 90), (''consensus_failed'', IInt 10),
     (''cross_chain_ops'', IInt 15), (''cross_chain_success'', IInt 12), (''cross_chain_failures'', IInt 3),
     (''alerts_total'', IInt 5), (''alerts_active'', IInt 2), (''alerts_resolved'', IInt 3)]"

text \<open>The tick of StartMetricsCollection.\<close>

definition collectSystemMetrics :: "Metrics \<Rightarrow> Metrics" where
  "collectSystemMetrics m = RecordPerformanceMetrics (f_lit 25) (f_lit (1024 * 1024 * 1024)) (f_lit (10 * 1024 * 1024 * 1024)) m"

text \<open>A use of the collector: any sequence of its methods and of ticks of the collection loop.\<close>

inductive metrics_step :: "Metrics \<Rightarrow> (Metrics \<Rightarrow> Metrics) \<Rightarrow> Metrics \<Rightarrow> bool" where
  "f \<in> {RecordOperatorUptime x, RecordOperatorStatus b, RecordPoolStates i j k, metrics_RecordStateUpdate d,
        RecordStateUpdateError, metrics_RecordRebalancingRequest x, metrics_RecordRebalancingSuccess x y,
        metrics_RecordRebalancingFailure x, RecordTaskProcessed d, RecordTaskCompleted, RecordTaskFailed,
        RecordConsensusReached d, RecordConsensusFailed, RecordCrossChainOperation d, RecordCrossChainSuccess,
        RecordCrossChainFailure, RecordAlert, RecordAlertsActive i, RecordAlertResolved,
        RecordPerformanceMetrics x y z, RecordNetworkLatency d, collectSystemMetrics} \<Longrightarrow> metrics_step m f (f m)"

lemmas record_defs = RecordOperatorUptime_def RecordOperatorStatus_def RecordPoolStates_def metrics_RecordStateUpdate_def
  RecordStateUpdateError_def metrics_RecordRebalancingRequest_def metrics_RecordRebalancingSuccess_def
  metrics_RecordRebalancingFailure_def RecordTaskProcessed_def RecordTaskCompleted_def RecordTaskFailed_def
  RecordConsensusReached_def RecordConsensusFailed_def RecordCrossChainOperation_def RecordCrossChainSuccess_def
  RecordCrossChainFailure_def RecordAlert_def RecordAlertsActive_def RecordAlertResolved_def
  RecordPerformanceMetrics_def RecordNetworkLatency_def collectSystemMetrics_def

section \<open>The invariant\<close>

definition metrics_inv :: "Metrics \<Rightarrow> bool" where
  "metrics_inv m \<longleftrightarrow>
     length (mx_stateUpdateLatency m) = mx_stateUpdatesTotal m \<and>
     length (mx_rebalancingAmount m) = mx_rebalancingRequests m + mx_rebalancingSuccess m + mx_rebalancingFailures m \<and>
     length (mx_rebalancingCost m) = mx_rebalancingSuccess m \<and>
     length (mx_taskProcessingTime m) = mx_tasksTotal m \<and>
     length (mx_consensusLatency m) = mx_consensusReached m \<and>
     length (mx_crossChainLatency m) = mx_crossChainOps m \<and>
     mx_operatorStatus m \<in> {f_lit 0, f_lit 1}"

lemma metrics_inv_step: "metrics_step m f m' \<Longrightarrow> metrics_inv m \<Longrightarrow> metrics_inv m'"
  by (auto elim!: metrics_step.cases) (simp_all add: record_defs metrics_inv_def)

interpretation metrics: steps_invariant metrics_step metrics_inv
  by unfold_locales (rule metrics_inv_step)

section \<open>Registration of collectors\<close>

lemma register_all_fresh:
  assumes fresh: "\<forall>n r. n \<notin> names r \<longrightarrow> (\<exists>r'. register n r = Inr r')"
    and grow: "\<forall>n r r'. register n r = Inr r' \<longrightarrow> names r' = insert n (names r)"
    and "distinct ns" and "set ns \<inter> names r = {}"
  shows "\<exists>r'. register_all register ns r = Inr r' \<and> names r' = names r \<union> set ns"
  using assms(3,4)
proof (induction ns arbitrary: r)
  case (Cons n ns)
  then have "n \<notin> names r" by auto
  with fresh grow obtain r1 where r1: "register n r = Inr r1" "names r1 = insert n (names r)" by blast
  from Cons.prems r1(2) have "distinct ns" "set ns \<inter> names r1 = {}" by auto
  from Cons.IH [OF this] r1 show ?case by (auto simp: register_all_def)
qed (simp add: register_all_def)

lemma register_all_duplicate:
  assumes grow: "\<forall>n r r'. register n r = Inr r' \<longrightarrow> names r' = insert n (names r)"
    and dup: "\<forall>n r. n \<in> names r \<longrightarrow> (\<exists>p. register n r = Inl p)"
    and "n \<in> set ns" and "n \<in> names r"
  shows "\<exists>p. register_all register ns r = Inl p"
  using assms(3,4)
proof (induction ns arbitrary: r)
  case (Cons k ns)
  show ?case
  proof (cases "register k r")
    case (Inl p)
    then show ?thesis by (simp add: register_all_def)
  next
    case (Inr r1)
    with grow Cons.prems have "n \<in> names r1" by simp
    moreover have "n \<noteq> k" using Cons.prems(2) dup Inr by fastforce
    with Cons.prems(1) have "n \<in> set ns" by simp
    ultimately obtain p where "register_all register ns r1 = Inl p" using Cons.IH by blast
    with Inr show ?thesis by (simp add: register_all_def)
  qed
qed simp

section \<open>Properties\<close>

text \<open>C40: In every state the collector can reach, whatever methods are called in whatever order: the
  histograms of update latency, task time, consensus and cross-chain latency have as many
  observations as their counters have increments, that of costs as many as there were successes,
  and that of amounts as many as requests, successes and failures together, so that the amount of
  a rebalancing is observed when it is requested and again when it ends. The status is 0 or 1.\<close>

theorem metrics_consistent:
  assumes "NewMetrics register r = Inr (m0, r')" and "run metrics_step m0 fs m"
  shows "length (mx_stateUpdateLatency m) = mx_stateUpdatesTotal m \<and>
     length (mx_rebalancingAmount m) = mx_rebalancingRequests m + mx_rebalancingSuccess m + mx_rebalancingFailures m \<and>
     length (mx_rebalancingCost m) = mx_rebalancingSuccess m \<and>
     length (mx_taskProcessingTime m) = mx_tasksTotal m \<and>
     length (mx_consensusLatency m) = mx_consensusReached m \<and>
     length (mx_crossChainLatency m) = mx_crossChainOps m \<and>
     mx_operatorStatus m \<in> {f_lit 0, f_lit 1}"
proof -
  have "metrics_inv metrics_zero" by (simp add: metrics_inv_def metrics_zero_def)
  moreover have "m0 = metrics_zero" using assms(1) by (auto simp: NewMetrics_def go_bind_Inr_iff)
  ultimately have "metrics_inv m" using metrics.I_run assms(2) by blast
  then show ?thesis by (simp add: metrics_inv_def)
qed

text \<open>The collectors of one process clash. With a registry that refuses a name it already has, as
  the Prometheus client documents, and starting from the empty one: a monitor can be made, and an
  AVS aggregator beside it, but then neither a metrics collector nor a second monitor; and after a
  metrics collector no monitor.\<close>

theorem collectors_conflict:
  assumes "\<forall>n r. n \<notin> names r \<longrightarrow> (\<exists>r'. register n r = Inr r')"
    and "\<forall>n r r'. register n r = Inr r' \<longrightarrow> names r' = insert n (names r)"
    and "\<forall>n r. n \<in> names r \<longrightarrow> (\<exists>p. register n r = Inl p)"
    and "names r0 = {}"
  shows "(\<exists>r1. NewMonitor_in register r0 = Inr (NewMonitor, r1) \<and>
       (\<exists>p. NewMetrics register r1 = Inl p) \<and> (\<exists>p. NewMonitor_in register r1 = Inl p) \<and>
       (\<exists>r2. NewSyncHookAggregator_in register config r1 = Inr (NewSyncHookAggregator config, r2))) \<and>
     (\<exists>r1. NewMetrics register r0 = Inr (metrics_zero, r1) \<and> (\<exists>p. NewMonitor_in register r1 = Inl p))"
proof -
  note ok = register_all_fresh [of names register, OF assms(1,2)]
  note dup = register_all_duplicate [of register names, OF assms(2,3)]
  have d: "distinct monitor_names" "distinct metrics_names" "distinct aggregator_names"
    by (simp_all add: monitor_names_def metrics_names_def aggregator_names_def)
  have mem: "''synchook_pool_states_total'' \<in> set monitor_names" "''synchook_pool_states_total'' \<in> set metrics_names"
    by (simp_all add: monitor_names_def metrics_names_def)
  have disj: "set aggregator_names \<inter> set monitor_names = {}"
    by (simp add: monitor_names_def aggregator_names_def)
  from ok [OF d(1), of r0] assms(4) obtain r1 where r1: "register_all register monitor_names r0 = Inr r1" "names r1 = set monitor_names" by auto
  from ok [OF d(2), of r0] assms(4) obtain r2 where r2: "register_all register metrics_names r0 = Inr r2" "names r2 = set metrics_names" by auto
  from ok [OF d(3), of r1] disj r1(2) obtain r3 where r3: "register_all register aggregator_names r1 = Inr r3" by auto
  from dup [OF mem(2), of r1] dup [OF mem(1), of r1] dup [OF mem(1), of r2] mem r1(2) r2(2) obtain p q s where
    "register_all register metrics_names r1 = Inl p" "register_all register monitor_names r1 = Inl q"
    "register_all register monitor_names r2 = Inl s" by auto
  with r1 r2 r3 show ?thesis by (simp add: NewMonitor_in_def NewMetrics_def NewSyncHookAggregator_in_def)
qed

section \<open>Witnesses\<close>

text \<open>A registry that is the list of its names.\<close>

definition ex_register :: "string \<Rightarrow> string list \<Rightarrow> string list go" where
  "ex_register n r = (if n \<in> set r then Inl (Explicit ''duplicate metrics collector registration attempted'') else Inr (n # r))"

lemma ex_metrics: "\<exists>r'. NewMetrics ex_register [] = Inr (metrics_zero, r')"
  by (simp add: NewMetrics_def register_all_def metrics_names_def ex_register_def)

theorem metrics_consistent_witness:
  "length (mx_rebalancingAmount (metrics_RecordRebalancingRequest (f_lit 5) metrics_zero)) = 1"
proof -
  obtain r' where r': "NewMetrics ex_register [] = Inr (metrics_zero, r')" using ex_metrics by blast
  have "metrics_step metrics_zero (metrics_RecordRebalancingRequest (f_lit 5))
      (metrics_RecordRebalancingRequest (f_lit 5) metrics_zero)"
    by (rule metrics_step.intros [where x = "f_lit 5"]) simp
  then have "run metrics_step metrics_zero [metrics_RecordRebalancingRequest (f_lit 5)]
      (metrics_RecordRebalancingRequest (f_lit 5) metrics_zero)"
    by (blast intro: run_cons run_nil)
  from metrics_consistent [OF r' this] show ?thesis
    by (simp add: metrics_RecordRebalancingRequest_def metrics_zero_def)
qed

theorem collectors_conflict_witness:
  "\<exists>r1. NewMonitor_in ex_register [] = Inr (NewMonitor, r1) \<and> (\<exists>p. NewMetrics ex_register r1 = Inl p)"
proof -
  have "\<forall>n r. n \<notin> set r \<longrightarrow> (\<exists>r'. ex_register n r = Inr r')" "\<forall>n r. n \<in> set r \<longrightarrow> (\<exists>p. ex_register n r = Inl p)"
    "\<forall>n r r'. ex_register n r = Inr r' \<longrightarrow> set r' = insert n (set r)" by (auto simp: ex_register_def split: if_splits)
  from collectors_conflict [of set ex_register "[]" ex_config, OF this(1,3,2)] show ?thesis by auto
qed

end
