(* ===== verification/Across_Bridge.thy ===== *)
theory Across_Bridge
  imports Alert_Store State_Validator
begin

text \<open>
  The two clients of the Across bridge and the rebalancer. \<^verbatim>\<open>pkg/across/client.go\<close>: requests, their
  validation, cost estimate and history. \<^verbatim>\<open>internal/across/client.go\<close> and
  \<^verbatim>\<open>internal/rebalancer/rebalancer.go\<close>: transfers, relayer fees, and the routine that initiates a
  transfer and watches it. \<open>common.HexToAddress\<close> and \<open>common.HexToHash\<close> of go-ethereum and the RPC
  calls are parameters; clock readings are arguments (nanoseconds or Unix seconds as the code
  reads them).
\<close>

section \<open>The client of package across\<close>

record RebalancingRequest =
  rq_RequestID :: string
  rq_SourceChainID :: u32
  rq_TargetChainID :: u32
  rq_Token :: address
  rq_Amount :: bigptr
  rq_MinAmount :: bigptr
  rq_MaxSlippage :: bigptr
  rq_Deadline :: u64
  rq_Recipient :: address
  rq_Metadata :: "(string, iface) gomap"

record RebalancingResponse =
  rs_RequestID :: string
  rs_TransactionHash :: hash
  rs_EstimatedTime :: u64
  rs_TotalCost :: bigptr
  rs_Success :: bool
  rs_Message :: string

record RebalancingStatus =
  st_RequestID :: string
  st_Status :: string
  st_TransactionHash :: hash
  st_Amount :: bigptr
  st_ActualCost :: bigptr
  st_CompletedAt :: u64
  st_ErrorMessage :: string

record RebalancingRecord =
  rc_RequestID :: string
  rc_SourceChainID :: u32
  rc_TargetChainID :: u32
  rc_Token :: address
  rc_Amount :: bigptr
  rc_Cost :: bigptr
  rc_Status :: string
  rc_CreatedAt :: u64
  rc_CompletedAt :: u64
  rc_TransactionHash :: hash

text \<open>The client keeps the address of the bridge only.\<close>

definition pkg_NewClient :: "(string \<Rightarrow> address) \<Rightarrow> string \<Rightarrow> address \<times> error option" where
  "pkg_NewClient HexToAddress acrossAddress = (HexToAddress acrossAddress, None)"

text \<open>\<open>t.Unix()\<close> of a time in nanoseconds.\<close>

definition unix :: "gotime \<Rightarrow> int" where
  "unix t = t div 10 ^ 9"

definition InitiateRebalancing ::
  "(string \<Rightarrow> hash) \<Rightarrow> gotime \<Rightarrow> RebalancingRequest \<Rightarrow> RebalancingResponse \<times> error option" where
  "InitiateRebalancing HexToHash now request =
     (\<lparr>rs_RequestID = rq_RequestID request, rs_TransactionHash = HexToHash ''0x1234567890abcdef'',
       rs_EstimatedTime = uint64 (unix (now + 5 * 60 * 10 ^ 9)), rs_TotalCost = Some 1000000000000000000,
       rs_Success = True, rs_Message = ''Rebalancing request submitted successfully''\<rparr>, None)"

definition GetRebalancingStatus ::
  "(string \<Rightarrow> hash) \<Rightarrow> gotime \<Rightarrow> string \<Rightarrow> (RebalancingStatus \<times> error option) go" where
  "GetRebalancingStatus HexToHash now requestID =
     go_bind (MustSetString ''1000000000000000000000'') (\<lambda>amount.
     go_bind (MustSetString ''1000000000000000000'') (\<lambda>cost.
       Inr (\<lparr>st_RequestID = requestID, st_Status = ''completed'', st_TransactionHash = HexToHash ''0x1234567890abcdef'',
         st_Amount = Some amount, st_ActualCost = Some cost, st_CompletedAt = uint64 (unix now), st_ErrorMessage = []\<rparr>, None)))"

definition GetSupportedChains :: "u32 list \<times> error option" where
  "GetSupportedChains = ([1, 42161, 137, 10, 8453], None)"

definition EstimateRebalancingCost :: "RebalancingRequest \<Rightarrow> (int \<times> error option) go" where
  "EstimateRebalancingCost request =
     (let baseCost = 500000000000000000 in
      go_bind (deref (rq_Amount request)) (\<lambda>amount.
      go_bind (big_Div amount 1000) (\<lambda>amountFee. Inr (baseCost + amountFee, None))))"

definition GetRebalancingHistory ::
  "(string \<Rightarrow> address) \<Rightarrow> (string \<Rightarrow> hash) \<Rightarrow> gotime \<times> gotime \<times> gotime \<times> gotime \<Rightarrow> int \<Rightarrow> (RebalancingRecord list \<times> error option) go" where
  "GetRebalancingHistory HexToAddress HexToHash clock limit =
     (case clock of (t1, t2, t3, t4) \<Rightarrow>
      go_bind (MustSetString ''1000000000000000000000'') (\<lambda>a1.
      go_bind (MustSetString ''500000000000000000000'') (\<lambda>a2.
      go_bind (MustSetString ''500000000000000000'') (\<lambda>c2.
        let records = [
          \<lparr>rc_RequestID = ''req_001'', rc_SourceChainID = 1, rc_TargetChainID = 42161,
           rc_Token = HexToAddress ''0xA0b86a33E6441c8C06Cdd0C2A4C7C4C8C8C8C8C8'', rc_Amount = Some a1,
           rc_Cost = Some 1000000000000000000, rc_Status = ''completed'',
           rc_CreatedAt = uint64 (unix (t1 - 3600 * 10 ^ 9)), rc_CompletedAt = uint64 (unix (t2 - 1800 * 10 ^ 9)),
           rc_TransactionHash = HexToHash ''0x1234567890abcdef''\<rparr>,
          \<lparr>rc_RequestID = ''req_002'', rc_SourceChainID = 42161, rc_TargetChainID = 137,
           rc_Token = HexToAddress ''0xA0b86a33E6441c8C06Cdd0C2A4C7C4C8C8C8C8C8'', rc_Amount = Some a2,
           rc_Cost = Some c2, rc_Status = ''completed'',
           rc_CreatedAt = uint64 (unix (t3 - 7200 * 10 ^ 9)), rc_CompletedAt = uint64 (unix (t4 - 3600 * 10 ^ 9)),
           rc_TransactionHash = HexToHash ''0xabcdef1234567890''\<rparr>]
        in Inr (if 0 < limit \<and> limit < int (length records) then take (nat limit) records else records, None)))))"

definition GenerateRequestID :: "int \<Rightarrow> string" where
  "GenerateRequestID nanos = ''req_'' @ big_String nanos"

definition zero_address :: address where
  "zero_address = replicate 20 0"

definition ValidateRebalancingRequest :: "int \<Rightarrow> RebalancingRequest \<Rightarrow> error option go" where
  "ValidateRebalancingRequest now request =
     (if rq_RequestID request = [] then Inr (Some ''request ID is required'')
      else if rq_SourceChainID request = 0 then Inr (Some ''source chain ID is required'')
      else if rq_TargetChainID request = 0 then Inr (Some ''target chain ID is required'')
      else if rq_SourceChainID request = rq_TargetChainID request then Inr (Some ''source and target chains must be different'')
      else if rq_Token request = zero_address then Inr (Some ''token address is required'')
      else go_bind (deref (rq_Amount request)) (\<lambda>amount.
        if amount \<le> 0 then Inr (Some ''amount must be positive'')
        else if rq_Recipient request = zero_address then Inr (Some ''recipient address is required'')
        else if rq_Deadline request \<le> uint64 now then Inr (Some ''deadline must be in the future'')
        else Inr None))"

section \<open>The client of internal/across\<close>

record AcrossConfig =
  axc_SpokePool :: string
  axc_HubPool :: string
  axc_RelayerFeePct :: string
  axc_MaxGasPrice :: string

record AcrossClient =
  ax_config :: AcrossConfig
  ax_spokePool :: address
  ax_hubPool :: address
  ax_relayerFeePct :: int
  ax_maxGasPrice :: int

record CrossChainTransfer =
  xt_FromChain :: u64
  xt_ToChain :: u64
  xt_Token :: address
  xt_Amount :: int
  xt_Recipient :: address
  xt_RelayerFee :: int
  xt_Message :: string
  xt_MaxGasPrice :: int
  xt_MaxGasLimit :: int

record TransferResult =
  xr_TransactionHash :: hash
  xr_DepositID :: int
  xr_Status :: string
  xr_GasUsed :: u64
  xr_BlockNumber :: u64

definition across_NewClient :: "(string \<Rightarrow> address) \<Rightarrow> AcrossConfig \<Rightarrow> error + AcrossClient" where
  "across_NewClient HexToAddress cfg =
     (case SetString10 (axc_RelayerFeePct cfg) of
        None \<Rightarrow> Inl (''invalid relayer fee percentage: '' @ axc_RelayerFeePct cfg)
      | Some relayerFeePct \<Rightarrow> (case SetString10 (axc_MaxGasPrice cfg) of
          None \<Rightarrow> Inl (''invalid max gas price: '' @ axc_MaxGasPrice cfg)
        | Some maxGasPrice \<Rightarrow>
           Inr \<lparr>ax_config = cfg, ax_spokePool = HexToAddress (axc_SpokePool cfg), ax_hubPool = HexToAddress (axc_HubPool cfg),
                ax_relayerFeePct = relayerFeePct, ax_maxGasPrice = maxGasPrice\<rparr>))"

text \<open>\<open>%064x\<close> of a number: 64 lower-case hexadecimal digits, more if needed.\<close>

definition hex_digit :: "nat \<Rightarrow> char" where
  "hex_digit d = ''0123456789abcdef'' ! d"

fun hex_nat :: "nat \<Rightarrow> string" where
  "hex_nat n = (if n < 16 then [hex_digit n] else hex_nat (n div 16) @ [hex_digit (n mod 16)])"

declare hex_nat.simps [simp del]

definition fmt_064x :: "nat \<Rightarrow> string" where
  "fmt_064x n = (let s = hex_nat n in replicate (64 - length s) CHR ''0'' @ s)"

text \<open>The clock is past 1970, so the nanoseconds have no sign to print.\<close>

definition InitiateTransfer ::
  "(string \<Rightarrow> hash) \<Rightarrow> int \<Rightarrow> int \<Rightarrow> CrossChainTransfer \<Rightarrow> error + TransferResult" where
  "InitiateTransfer HexToHash nanos now transfer =
     Inr \<lparr>xr_TransactionHash = HexToHash (''0x'' @ fmt_064x (nat nanos)), xr_DepositID = now, xr_Status = ''pending'',
          xr_GasUsed = 150000, xr_BlockNumber = 0\<rparr>"

text \<open>The zero hash stands for the field the struct literal leaves out.\<close>

definition GetTransferStatus :: "int \<Rightarrow> int \<Rightarrow> error + TransferResult" where
  "GetTransferStatus now depositID =
     Inr \<lparr>xr_TransactionHash = replicate 32 0, xr_DepositID = depositID,
          xr_Status = (if now mod 2 = 0 then ''pending'' else ''completed''), xr_GasUsed = 150000, xr_BlockNumber = 18000000\<rparr>"

definition CalculateRelayerFee :: "AcrossClient \<Rightarrow> int \<Rightarrow> int go" where
  "CalculateRelayerFee c amount = big_Div (amount * ax_relayerFeePct c) (10 ^ 18)"

definition EstimateGas :: "CrossChainTransfer \<Rightarrow> error + u64" where
  "EstimateGas transfer = Inr 200000"

definition GetCurrentGasPrice :: "error + int \<Rightarrow> AcrossClient \<Rightarrow> error + int" where
  "GetCurrentGasPrice suggested c = (case suggested of
       Inl e \<Rightarrow> Inl (''failed to get gas price: '' @ e)
     | Inr gasPrice \<Rightarrow> if ax_maxGasPrice c < gasPrice then Inr (ax_maxGasPrice c) else Inr gasPrice)"

definition IsTransferComplete :: "int \<Rightarrow> int \<Rightarrow> error + bool" where
  "IsTransferComplete now depositID = (case GetTransferStatus now depositID of
       Inl e \<Rightarrow> Inl e
     | Inr status \<Rightarrow> Inr (xr_Status status = ''completed''))"

definition GetSupportedTokens :: "(string \<Rightarrow> address) \<Rightarrow> error + address list" where
  "GetSupportedTokens HexToAddress = Inr (map HexToAddress
     [''0x0000000000000000000000000000000000000000'', ''0xA0b86a33E6441c8C06DdDde5A3a8c6b4b8f1'',
      ''0xdAC17F958D2ee523a2206206994597C13D831ec7'', ''0x6B175474E89094C44Da98b954EedeAC495271d0F''])"

definition GetTransferHistory :: "address \<Rightarrow> int \<Rightarrow> error + TransferResult list" where
  "GetTransferHistory addr limit = Inr []"

section \<open>The rebalancer\<close>

record RebalancingOpportunity =
  op_FromChain :: u64
  op_ToChain :: u64
  op_Token :: string
  op_Amount :: string
  op_ExpectedProfit :: string
  op_Priority :: int

text \<open>Of a chain only the operator's address matters here. \<open>rb_transfers\<close> records the transfers
  handed to the bridge, each with its result, in order.\<close>

record Rebalancer =
  rb_chains :: "(u64, address) gomap"
  rb_across :: "(u64, AcrossClient) gomap"
  rb_transfers :: "(CrossChainTransfer \<times> TransferResult) list"

definition rebalancer_New ::
  "(string \<Rightarrow> address) \<Rightarrow> AcrossConfig \<Rightarrow> (u64, address) gomap \<Rightarrow> error + Rebalancer" where
  "rebalancer_New HexToAddress cfg cs =
     (case fold (\<lambda>(chainID, chain) r. case r of Inl e \<Rightarrow> Inl e | Inr m \<Rightarrow>
             (case across_NewClient HexToAddress cfg of
                Inl e \<Rightarrow> Inl (''failed to create Across client for chain '' @ big_String (uint chainID) @ '': '' @ e)
              | Inr c \<Rightarrow> Inr (map_put chainID c m))) cs (Inr []) of
        Inl e \<Rightarrow> Inl e
      | Inr clients \<Rightarrow> Inr \<lparr>rb_chains = cs, rb_across = clients, rb_transfers = []\<rparr>)"

definition analyzeRebalancingOpportunities :: "(u64, 's) gomap \<Rightarrow> RebalancingOpportunity list \<times> error option" where
  "analyzeRebalancingOpportunities chainStates =
     ([\<lparr>op_FromChain = 1, op_ToChain = 42161, op_Token = ''0x1234567890abcdef'', op_Amount = ''100000000000000000000'',
        op_ExpectedProfit = ''5000000000000000000'', op_Priority = 1\<rparr>], None)"

definition executeRebalancingOperation ::
  "(string \<Rightarrow> address) \<Rightarrow> (string \<Rightarrow> hash) \<Rightarrow> int \<Rightarrow> int \<Rightarrow> RebalancingOpportunity \<Rightarrow> Rebalancer \<Rightarrow> (Rebalancer \<times> error option) go" where
  "executeRebalancingOperation HexToAddress HexToHash nanos now opp r =
     (case map_get (rb_chains r) (op_FromChain opp) of
        None \<Rightarrow> Inr (r, Some (''source chain '' @ big_String (uint (op_FromChain opp)) @ '' not found''))
      | Some sourceAddress \<Rightarrow> (case map_get (rb_across r) (op_FromChain opp) of
          None \<Rightarrow> Inr (r, Some (''Across client for chain '' @ big_String (uint (op_FromChain opp)) @ '' not found''))
        | Some acrossClient \<Rightarrow> (case SetString10 (op_Amount opp) of
            None \<Rightarrow> Inr (r, Some (''invalid amount: '' @ op_Amount opp))
          | Some amount \<Rightarrow>
             go_bind (CalculateRelayerFee acrossClient amount) (\<lambda>fee.
               let transfer = \<lparr>xt_FromChain = op_FromChain opp, xt_ToChain = op_ToChain opp,
                     xt_Token = HexToAddress (op_Token opp), xt_Amount = amount, xt_Recipient = sourceAddress,
                     xt_RelayerFee = fee, xt_Message = ''SyncHook rebalancing'', xt_MaxGasPrice = 20000000000,
                     xt_MaxGasLimit = 300000\<rparr>
               in case InitiateTransfer HexToHash nanos now transfer of
                    Inl e \<Rightarrow> Inr (r, Some (''failed to initiate transfer: '' @ e))
                  | Inr result \<Rightarrow> Inr (r\<lparr>rb_transfers := rb_transfers r @ [(transfer, result)]\<rparr>, None)))))"

text \<open>Errors of single operations are logged and the loop goes on. \<open>clk\<close> gives the two readings of
  the clock for each opportunity.\<close>

definition executeRebalancing ::
  "(string \<Rightarrow> address) \<Rightarrow> (string \<Rightarrow> hash) \<Rightarrow> (RebalancingOpportunity \<Rightarrow> int \<times> int) \<Rightarrow> RebalancingOpportunity list \<Rightarrow> Rebalancer \<Rightarrow> Rebalancer go" where
  "executeRebalancing HexToAddress HexToHash clk opps r =
     for_range (\<lambda>r opp. go_bind (executeRebalancingOperation HexToAddress HexToHash (fst (clk opp)) (snd (clk opp)) opp r)
        (\<lambda>(r', err). Inr r')) r opps"

definition checkRebalancingOpportunities ::
  "(string \<Rightarrow> address) \<Rightarrow> (string \<Rightarrow> hash) \<Rightarrow> (RebalancingOpportunity \<Rightarrow> int \<times> int) \<Rightarrow> (u64 \<Rightarrow> error + 's) \<Rightarrow> Rebalancer \<Rightarrow> Rebalancer go" where
  "checkRebalancingOpportunities HexToAddress HexToHash clk GetPoolStates r =
     (let chainStates = fold (\<lambda>chainID m. case GetPoolStates chainID of Inl e \<Rightarrow> m | Inr states \<Rightarrow> map_put chainID states m)
            (map_keys (rb_chains r)) [];
          (opportunities, err) = analyzeRebalancingOpportunities chainStates
      in case err of
           Some e \<Rightarrow> Inr r
         | None \<Rightarrow> if 0 < length opportunities then executeRebalancing HexToAddress HexToHash clk opportunities r else Inr r)"

text \<open>The watching loop, given what its \<open>select\<close> receives: a tick of the 30 second ticker, at which the
  status is read at a Unix time, or the end of the context. The result is how it returned, \<open>None\<close>
  while it has not.\<close>

datatype watch_event = Tick int | CtxDone

datatype watch_end = Finished int | Cancelled

fun monitorTransfer :: "int \<Rightarrow> watch_event list \<Rightarrow> watch_end option" where
  "monitorTransfer depositID [] = None"
| "monitorTransfer depositID (CtxDone # events) = Some Cancelled"
| "monitorTransfer depositID (Tick now # events) = (case IsTransferComplete now depositID of
       Inl e \<Rightarrow> monitorTransfer depositID events
     | Inr finished \<Rightarrow> if finished then Some (Finished now) else monitorTransfer depositID events)"

section \<open>Properties of requests\<close>

text \<open>A request is accepted exactly when it has an identifier, two different non-zero chains, a
  token, a positive amount, a recipient and a deadline after the clock. Validation panics only on
  a request without amount whose earlier fields are in order.\<close>

theorem ValidateRebalancingRequest_accepts:
  "(ValidateRebalancingRequest now rq = Inr None \<longleftrightarrow>
      rq_RequestID rq \<noteq> [] \<and> rq_SourceChainID rq \<noteq> 0 \<and> rq_TargetChainID rq \<noteq> 0 \<and>
      rq_SourceChainID rq \<noteq> rq_TargetChainID rq \<and> rq_Token rq \<noteq> zero_address \<and>
      (\<exists>amount. rq_Amount rq = Some amount \<and> 0 < amount) \<and> rq_Recipient rq \<noteq> zero_address \<and>
      uint64 now < rq_Deadline rq) \<and>
   (ValidateRebalancingRequest now rq = Inl p \<longleftrightarrow>
      p = NilDeref \<and> rq_Amount rq = None \<and> rq_RequestID rq \<noteq> [] \<and> rq_SourceChainID rq \<noteq> 0 \<and>
      rq_TargetChainID rq \<noteq> 0 \<and> rq_SourceChainID rq \<noteq> rq_TargetChainID rq \<and> rq_Token rq \<noteq> zero_address)"
  by (cases "rq_Amount rq") (auto simp: ValidateRebalancingRequest_def not_le)

text \<open>Request identifiers made at different nanoseconds differ, and every one passes the check of
  the request validation for an identifier.\<close>

theorem GenerateRequestID_unique:
  "(GenerateRequestID n = GenerateRequestID m \<longleftrightarrow> n = m) \<and> GenerateRequestID n \<noteq> []"
  by (auto simp: GenerateRequestID_def dest: big_String_inject)

text \<open>The estimated cost of a non-negative amount is half a token (18 decimals) plus a thousandth
  of the amount rounded down: at least the base cost, and no smaller for a larger amount.\<close>

theorem EstimateRebalancingCost_monotone:
  assumes "rq_Amount rq = Some a" and "rq_Amount rq' = Some a'" and "0 \<le> a" and "a \<le> a'"
  shows "\<exists>c c'. EstimateRebalancingCost rq = Inr (c, None) \<and> EstimateRebalancingCost rq' = Inr (c', None) \<and>
     5 * 10 ^ 17 \<le> c \<and> c \<le> c' \<and> 1000 * (c - 5 * 10 ^ 17) \<le> a \<and> a < 1000 * (c - 5 * 10 ^ 17) + 1000"
proof -
  have "a div 1000 \<le> a' div 1000" using assms(4) by (rule zdiv_mono1) simp
  moreover have "0 \<le> a div 1000" using assms(3) by simp
  moreover have "1000 * (a div 1000) \<le> a" "a < 1000 * (a div 1000) + 1000" by linarith+
  ultimately show ?thesis
    using assms(1,2) by (simp add: EstimateRebalancingCost_def Let_def)
qed

section \<open>Properties of transfers\<close>

text \<open>With a fee percentage between 0 and one (in units of 1e-18) the relayer fee of a non-negative
  amount is the exact product rounded down, so it lies between zero and the amount and charging
  it never takes more than the amount.\<close>

theorem CalculateRelayerFee_bounds:
  assumes "0 \<le> amount" and "0 \<le> ax_relayerFeePct c" and "ax_relayerFeePct c \<le> 10 ^ 18"
  shows "\<exists>fee. CalculateRelayerFee c amount = Inr fee \<and> 0 \<le> fee \<and> fee \<le> amount \<and>
     fee * 10 ^ 18 \<le> amount * ax_relayerFeePct c \<and> amount * ax_relayerFeePct c < (fee + 1) * 10 ^ 18"
proof -
  let ?x = "amount * ax_relayerFeePct c"
  have x: "0 \<le> ?x" "?x \<le> amount * 10 ^ 18" using assms by (simp_all add: mult_left_mono)
  have "?x div 10 ^ 18 \<le> amount * 10 ^ 18 div 10 ^ 18" using x(2) by (rule zdiv_mono1) simp
  then have "?x div 10 ^ 18 \<le> amount" by simp
  moreover have "0 \<le> ?x div 10 ^ 18" using x(1) by (simp add: pos_imp_zdiv_nonneg_iff)
  moreover have "?x div 10 ^ 18 * 10 ^ 18 \<le> ?x" "?x < (?x div 10 ^ 18 + 1) * 10 ^ 18"
    by (simp_all add: distrib_right)
  moreover have "CalculateRelayerFee c amount = Inr (?x div 10 ^ 18)" by (simp add: CalculateRelayerFee_def)
  ultimately show ?thesis by blast
qed

text \<open>What a pass of the rebalancer hands to the bridge.\<close>

lemma mock_amount: "SetString10 ''100000000000000000000'' = Some (10 ^ 20)"
  by (simp add: SetString10_def parse_nat_def digit_value_def)

definition mock_transfer :: "(string \<Rightarrow> address) \<Rightarrow> AcrossClient \<Rightarrow> address \<Rightarrow> CrossChainTransfer" where
  "mock_transfer HexToAddress c addr = \<lparr>xt_FromChain = 1, xt_ToChain = 42161,
     xt_Token = HexToAddress ''0x1234567890abcdef'', xt_Amount = 10 ^ 20, xt_Recipient = addr,
     xt_RelayerFee = 100 * ax_relayerFeePct c, xt_Message = ''SyncHook rebalancing'', xt_MaxGasPrice = 20000000000,
     xt_MaxGasLimit = 300000\<rparr>"

lemma check_transfer:
  "map_get (rb_chains r) 1 = Some addr \<Longrightarrow> map_get (rb_across r) 1 = Some c \<Longrightarrow>
     \<exists>res. checkRebalancingOpportunities HexToAddress HexToHash clk states r =
       Inr (r\<lparr>rb_transfers := rb_transfers r @ [(mock_transfer HexToAddress c addr, res)]\<rparr>)"
  "map_get (rb_chains r) 1 = None \<Longrightarrow> checkRebalancingOpportunities HexToAddress HexToHash clk states r = Inr r"
  by (simp_all add: checkRebalancingOpportunities_def analyzeRebalancingOpportunities_def executeRebalancing_def
      executeRebalancingOperation_def mock_amount CalculateRelayerFee_def InitiateTransfer_def mock_transfer_def Let_def)
    (rule exI, rule refl)

lemma checks_transfer:
  assumes "map_get (rb_chains r) 1 = Some addr" and "map_get (rb_across r) 1 = Some c"
  shows "\<exists>ress. length ress = length xs \<and>
     for_range (\<lambda>r (clk, states). checkRebalancingOpportunities HexToAddress HexToHash clk states r) r xs =
       Inr (r\<lparr>rb_transfers := rb_transfers r @ map (Pair (mock_transfer HexToAddress c addr)) ress\<rparr>)"
  using assms
proof (induction xs arbitrary: r)
  case (Cons x xs)
  obtain clk states where x: "x = (clk, states)" by (cases x)
  let ?t = "mock_transfer HexToAddress c addr"
  from check_transfer(1) [OF Cons.prems] obtain res where
    c1: "checkRebalancingOpportunities HexToAddress HexToHash clk states r = Inr (r\<lparr>rb_transfers := rb_transfers r @ [(?t, res)]\<rparr>)" by blast
  from Cons.IH [of "r\<lparr>rb_transfers := rb_transfers r @ [(?t, res)]\<rparr>"] Cons.prems obtain ress where
    "length ress = length xs" "for_range (\<lambda>r (clk, states). checkRebalancingOpportunities HexToAddress HexToHash clk states r)
        (r\<lparr>rb_transfers := rb_transfers r @ [(?t, res)]\<rparr>) xs = Inr (r\<lparr>rb_transfers := (rb_transfers r @ [(?t, res)]) @ map (Pair ?t) ress\<rparr>)"
    by auto
  with c1 x show ?case by (intro exI [of _ "res # ress"]) simp
qed simp

text \<open>C24: What the rebalancer spends. Any number of checks, with whatever pool states the chains return or
  fail to return, initiates on an operator connected to chain 1 exactly one transfer per check, each
  of 100 tokens from chain 1 to chain 42161 back to the operator, so the total is 100 tokens times the
  number of checks and has no other bound; without chain 1 there is none, and no check panics. The
  relayer fee of each is 100 times the configured percentage in units of 1e-18: between zero and the
  amount when the percentage is between 0 and one, which nothing checks, and above the amount when it
  is larger.\<close>

theorem rebalancer_spends:
  assumes "map_get (rb_chains r) 1 = Some addr" and "map_get (rb_across r) 1 = Some c"
    and "map_get (rb_chains q) 1 = None"
  shows "(\<exists>r' new. for_range (\<lambda>r (clk, states). checkRebalancingOpportunities HexToAddress HexToHash clk states r) r xs = Inr r' \<and>
       rb_transfers r' = rb_transfers r @ new \<and> length new = length xs \<and>
       sum_list (map (\<lambda>(x, res). xt_Amount x) new) = 100 * 10 ^ 18 * int (length xs) \<and>
       (\<forall>(x, res) \<in> set new. xt_FromChain x = 1 \<and> xt_ToChain x = 42161 \<and> xt_Recipient x = addr \<and>
          (0 \<le> ax_relayerFeePct c \<and> ax_relayerFeePct c \<le> 10 ^ 18 \<longleftrightarrow> 0 \<le> xt_RelayerFee x \<and> xt_RelayerFee x \<le> xt_Amount x))) \<and>
     checkRebalancingOpportunities HexToAddress HexToHash clk states q = Inr q"
proof -
  let ?t = "mock_transfer HexToAddress c addr"
  obtain ress where l: "length ress = length xs"
    and f: "for_range (\<lambda>r (clk, states). checkRebalancingOpportunities HexToAddress HexToHash clk states r) r xs =
       Inr (r\<lparr>rb_transfers := rb_transfers r @ map (Pair ?t) ress\<rparr>)" using checks_transfer [OF assms(1,2)] by blast
  have "sum_list (map (\<lambda>(x, res). xt_Amount x) (map (Pair ?t) ress)) = 100 * 10 ^ 18 * int (length xs)"
    using l by (simp add: comp_def sum_list_triv mock_transfer_def)
  moreover have "\<forall>(x, res) \<in> set (map (Pair ?t) ress). xt_FromChain x = 1 \<and> xt_ToChain x = 42161 \<and> xt_Recipient x = addr \<and>
      (0 \<le> ax_relayerFeePct c \<and> ax_relayerFeePct c \<le> 10 ^ 18 \<longleftrightarrow> 0 \<le> xt_RelayerFee x \<and> xt_RelayerFee x \<le> xt_Amount x)"
    by (auto simp: mock_transfer_def)
  ultimately show ?thesis using f l check_transfer(2) [OF assms(3)] by (auto intro!: exI [of _ "map (Pair ?t) ress"])
qed

text \<open>The watch on a transfer may never see it complete: the mocked status depends on the parity of
  the Unix time, and the watch ticks every 30 seconds, so with exact ticks a watch whose first tick
  falls on an odd second ends there, and one whose first tick falls on an even second is still
  running after any number of ticks and returns only when its context ends.\<close>

theorem monitorTransfer_parity:
  "monitorTransfer d (map (\<lambda>k. Tick (t0 + 30 * int k)) [0..<Suc n] @ events) =
     (if odd t0 then Some (Finished t0) else monitorTransfer d events) \<and>
   monitorTransfer d [] = None \<and> monitorTransfer d [CtxDone] = Some Cancelled"
proof -
  have even_ticks: "monitorTransfer d (map Tick ts @ events) = monitorTransfer d events" if "\<forall>t \<in> set ts. even t" for ts
    using that by (induction ts) (auto simp: IsTransferComplete_def GetTransferStatus_def)
  let ?ts = "map (\<lambda>k. t0 + 30 * int k) [0..<Suc n]"
  have ticks: "map (\<lambda>k. Tick (t0 + 30 * int k)) [0..<Suc n] = map Tick ?ts" by simp
  have first: "?ts = t0 # map (\<lambda>k. t0 + 30 * int k) [1..<Suc n]" by (subst upt_conv_Cons) simp_all
  show ?thesis
  proof (cases "odd t0")
    case True
    then have "t0 mod 2 \<noteq> 0" by presburger
    with True show ?thesis unfolding ticks first by (simp add: IsTransferComplete_def GetTransferStatus_def)
  next
    case False
    then have "\<forall>t \<in> set ?ts. even t" by auto
    from even_ticks [OF this] False show ?thesis unfolding ticks by simp
  qed
qed

section \<open>Witnesses\<close>

definition ex_request :: "int \<Rightarrow> RebalancingRequest" where
  "ex_request a = \<lparr>rq_RequestID = ''r'', rq_SourceChainID = 1, rq_TargetChainID = 10, rq_Token = [1], rq_Amount = Some a,
     rq_MinAmount = None, rq_MaxSlippage = None, rq_Deadline = 100, rq_Recipient = [2], rq_Metadata = []\<rparr>"

definition ex_across :: AcrossClient where
  "ex_across = \<lparr>ax_config = \<lparr>axc_SpokePool = [], axc_HubPool = [], axc_RelayerFeePct = ''1000'', axc_MaxGasPrice = ''5''\<rparr>,
     ax_spokePool = [], ax_hubPool = [], ax_relayerFeePct = 1000, ax_maxGasPrice = 5\<rparr>"

theorem EstimateRebalancingCost_monotone_witness:
  "\<exists>c c'. EstimateRebalancingCost (ex_request 1500) = Inr (c, None) \<and>
     EstimateRebalancingCost (ex_request 4000) = Inr (c', None) \<and> c \<le> c'"
  using EstimateRebalancingCost_monotone [of "ex_request 1500" 1500 "ex_request 4000" 4000]
  by (auto simp: ex_request_def)

theorem CalculateRelayerFee_bounds_witness:
  "\<exists>fee. CalculateRelayerFee ex_across (10 ^ 18) = Inr fee \<and> fee \<le> 10 ^ 18"
  using CalculateRelayerFee_bounds [of "10 ^ 18" ex_across] by (auto simp: ex_across_def)

theorem rebalancer_spends_witness:
  "\<exists>r'. for_range (\<lambda>r (clk, states). checkRebalancingOpportunities (\<lambda>_. []) (\<lambda>_. []) clk states r)
       \<lparr>rb_chains = [(1, [9])], rb_across = [(1, ex_across)], rb_transfers = []\<rparr>
       [(\<lambda>_. (5, 7), \<lambda>_. Inl ''down'' :: error + unit), (\<lambda>_. (6, 8), \<lambda>_. Inr ())] = Inr r' \<and>
     length (rb_transfers r') = 2"
proof -
  have c: "map_get (rb_chains \<lparr>rb_chains = [(1, [9])], rb_across = [(1, ex_across)], rb_transfers = []\<rparr>) 1 = Some [9]"
    "map_get (rb_across \<lparr>rb_chains = [(1, [9])], rb_across = [(1, ex_across)], rb_transfers = []\<rparr>) 1 = Some ex_across"
    "map_get (rb_chains \<lparr>rb_chains = [], rb_across = [], rb_transfers = []\<rparr>) 1 = None" by (simp_all add: map_get_def)
  show ?thesis
    using rebalancer_spends [OF c, THEN conjunct1, of "\<lambda>_. []" "\<lambda>_. []"
        "[(\<lambda>_. (5, 7), \<lambda>_. Inl ''down'' :: error + unit), (\<lambda>_. (6, 8), \<lambda>_. Inr ())]"]
    by (elim exE conjE) (rule exI, rule conjI, assumption, simp)
qed

end
