(* ===== verification/Operator_Node.thy ===== *)
theory Operator_Node
  imports Avs_Config Chain_Clients Eigen_Registration Metrics_Collector Across_Bridge
begin

text \<open>
  The operator node of \<^verbatim>\<open>operator/operator.go\<close>, which puts the packages together: the state
  aggregator, the EigenLayer and Across clients, one blockchain client per configured chain and
  the monitor. What the node takes from the EigenLayer SDK and from go-ethereum are the fields of
  the record \<open>sdk\<close>, a parameter. The life of a node is a step relation over its goroutines.
\<close>

section \<open>Data\<close>

definition SemVer :: string where
  "SemVer = ''0.0.1''"

text \<open>The operator's own pool states and tasks. The types of the quorum fields are the SDK's.\<close>

record OperatorPoolState =
  ops_TotalLiquidity :: bigptr
  ops_Price :: bigptr
  ops_Volume24h :: bigptr
  ops_Fees24h :: bigptr
  ops_Timestamp :: u64
  ops_BlockNumber :: u64

record OperatorGlobalPoolState =
  ogs_TotalLiquidity :: bigptr
  ogs_AveragePrice :: bigptr
  ogs_ImbalanceScore :: bigptr
  ogs_LastUpdateBlock :: u64
  ogs_ChainStates :: "(u32, OperatorPoolState option) gomap"

record ('qn, 'qt) StateTask =
  st_TaskID :: u32
  st_ChainID :: u32
  st_PoolID :: hash
  st_PoolState :: "OperatorPoolState option"
  st_TaskCreatedBlock :: u32
  st_QuorumNumbers :: 'qn
  st_QuorumThresholdPercentage :: 'qt

record ('qn, 'qt) OperatorRebalancingTask =
  ort_TaskID :: u32
  ort_SourceChainID :: u32
  ort_TargetChainID :: u32
  ort_Amount :: bigptr
  ort_Token :: address
  ort_TaskCreatedBlock :: u32
  ort_QuorumNumbers :: 'qn
  ort_QuorumThresholdPercentage :: 'qt

record StateTaskResponse =
  str_ReferenceTaskIndex :: u32
  str_PoolState :: "OperatorPoolState option"
  str_Confidence :: float64
  str_Signature :: bytes

record RebalancingTaskResponse =
  rtr_ReferenceTaskIndex :: u32
  rtr_TransactionHash :: hash
  rtr_Success :: bool
  rtr_Signature :: bytes

text \<open>What the node calls in the SDK: the Ethereum client, the address and the identifier of a key,
  an empty metrics registry, the SDK's metrics (which register in it) and the node API.\<close>

record ('eth, 'sk, 'kp, 'id, 'mr, 'em, 'na) sdk =
  eth_NewClient :: "string \<Rightarrow> error + 'eth"
  PrivateKeyToAddress :: "'sk \<Rightarrow> address"
  OperatorIdFromKeyPair :: "'kp \<Rightarrow> 'id"
  NewRegistry :: 'mr
  NewEigenMetrics :: "string \<Rightarrow> string \<Rightarrow> 'mr \<Rightarrow> 'em \<times> 'mr"
  NewNodeApi :: "string \<Rightarrow> string \<Rightarrow> string \<Rightarrow> 'na"
  sdk_HexToAddress :: "string \<Rightarrow> address"

text \<open>Validator and predictor have no state but the logger. The reader and writer of EigenLayer are
  never set.\<close>

record ('eth, 'sk, 'kp, 'id, 'mr, 'em, 'na, 'qn, 'qt) Operator =
  on_config :: Config
  on_ethClient :: 'eth
  on_metricsReg :: 'mr
  on_metrics :: "'em option"
  on_nodeApi :: "'na option"
  on_eigenLayerClient :: eigen_client
  on_stateAggregator :: Aggregator
  on_acrossClient :: address
  on_blockchainClients :: "(u32, Client) gomap"
  on_monitoring :: Monitor
  on_blsKeypair :: 'kp
  on_operatorId :: 'id
  on_operatorAddr :: address
  on_operatorEcdsaPrivateKey :: 'sk
  on_stateTasks :: "(u32, ('qn, 'qt) StateTask) gomap"
  on_rebalancingTasks :: "(u32, ('qn, 'qt) OperatorRebalancingTask) gomap"
  on_globalPoolStates :: "(string, OperatorGlobalPoolState) gomap"

section \<open>Construction\<close>

text \<open>The loop over the supported chains, with its early return.\<close>

fun newBlockchainClients :: "ChainConfig list \<Rightarrow> (u32, Client) gomap \<Rightarrow> error + (u32, Client) gomap" where
  "newBlockchainClients [] clients = Inr clients"
| "newBlockchainClients (chainConfig # ccs) clients =
     (case client_New (cc_ChainID chainConfig) (cc_RpcUrl chainConfig) of
        (_, Some e) \<Rightarrow> Inl (''failed to create blockchain client for chain '' @
                         big_String (uint (cc_ChainID chainConfig)) @ '': '' @ e)
      | (c, None) \<Rightarrow> newBlockchainClients ccs (map_put (cc_ChainID chainConfig) (Generic c) clients))"

definition loadEcdsaPrivateKey :: "string \<Rightarrow> error + 'sk" where
  "loadEcdsaPrivateKey path = Inl ''not implemented''"

definition loadBlsPrivateKey :: "string \<Rightarrow> error + 'kp" where
  "loadBlsPrivateKey path = Inl ''not implemented''"

text \<open>The constructor with the two key loaders as arguments; \<open>register\<close> and \<open>r\<close> are the default
  Prometheus registry, in which the monitor registers its collectors.\<close>

definition NewOperator_with ::
  "(string \<Rightarrow> error + 'sk) \<Rightarrow> (string \<Rightarrow> error + 'kp) \<Rightarrow> ('eth, 'sk, 'kp, 'id, 'mr, 'em, 'na) sdk \<Rightarrow>
    (string \<Rightarrow> 'r \<Rightarrow> 'r go) \<Rightarrow> Config \<Rightarrow> 'r \<Rightarrow>
    (error + ('eth, 'sk, 'kp, 'id, 'mr, 'em, 'na, 'qn, 'qt) Operator \<times> 'r) go" where
  "NewOperator_with loadEcdsa loadBls S register config r =
     (case eth_NewClient S (cfg_EthRpcUrl config) of
        Inl e \<Rightarrow> Inr (Inl (''failed to create eth client: '' @ e))
      | Inr ethClient \<Rightarrow> (case loadEcdsa (cfg_EcdsaPrivateKeyStorePath config) of
          Inl e \<Rightarrow> Inr (Inl (''failed to load ecdsa private key: '' @ e))
        | Inr ecdsaPrivateKey \<Rightarrow> (case loadBls (cfg_BlsPrivateKeyStorePath config) of
            Inl e \<Rightarrow> Inr (Inl (''failed to load bls private key: '' @ e))
          | Inr blsKeypair \<Rightarrow>
     (case eigen_NewClient (sdk_HexToAddress S) (cfg_RegistryCoordinatorAddress config) of
        (_, Some e) \<Rightarrow> Inr (Inl (''failed to create eigenlayer client: '' @ e))
      | (eigenLayerClient, None) \<Rightarrow>
     (case pkg_NewClient (sdk_HexToAddress S) (cfg_AcrossAddress config) of
        (_, Some e) \<Rightarrow> Inr (Inl (''failed to create across client: '' @ e))
      | (acrossClient, None) \<Rightarrow>
     (case newBlockchainClients (cfg_SupportedChains config) [] of
        Inl e \<Rightarrow> Inr (Inl e)
      | Inr blockchainClients \<Rightarrow>
     go_bind (NewMonitor_in register r) (\<lambda>(monitor, r').
       let eigenMetrics =
             (if cfg_EnableMetrics config
              then map_prod Some id (NewEigenMetrics S ''synchook'' (cfg_EigenMetricsIpPortAddress config) (NewRegistry S))
              else (None, NewRegistry S));
           nodeApi = (if cfg_EnableNodeApi config
              then Some (NewNodeApi S ''synchook-operator'' SemVer (cfg_NodeApiIpPortAddress config)) else None)
       in Inr (Inr (\<lparr>on_config = config, on_ethClient = ethClient, on_metricsReg = snd eigenMetrics,
            on_metrics = fst eigenMetrics, on_nodeApi = nodeApi, on_eigenLayerClient = eigenLayerClient,
            on_stateAggregator = NewAggregator, on_acrossClient = acrossClient,
            on_blockchainClients = blockchainClients, on_monitoring = monitor, on_blsKeypair = blsKeypair,
            on_operatorId = OperatorIdFromKeyPair S blsKeypair,
            on_operatorAddr = PrivateKeyToAddress S ecdsaPrivateKey,
            on_operatorEcdsaPrivateKey = ecdsaPrivateKey, on_stateTasks = [], on_rebalancingTasks = [],
            on_globalPoolStates = []\<rparr>, r')))))))))"

definition NewOperator ::
  "('eth, 'sk, 'kp, 'id, 'mr, 'em, 'na) sdk \<Rightarrow> (string \<Rightarrow> 'r \<Rightarrow> 'r go) \<Rightarrow> Config \<Rightarrow> 'r \<Rightarrow>
    (error + ('eth, 'sk, 'kp, 'id, 'mr, 'em, 'na, 'qn, 'qt) Operator \<times> 'r) go" where
  "NewOperator = NewOperator_with loadEcdsaPrivateKey loadBlsPrivateKey"

section \<open>Running\<close>

text \<open>Registration and the update of the global states only log.\<close>

definition registerOperator :: "('eth, 'sk, 'kp, 'id, 'mr, 'em, 'na, 'qn, 'qt) Operator \<Rightarrow> error option" where
  "registerOperator op = None"

definition updateGlobalStates ::
  "('eth, 'sk, 'kp, 'id, 'mr, 'em, 'na, 'qn, 'qt) Operator \<Rightarrow> ('eth, 'sk, 'kp, 'id, 'mr, 'em, 'na, 'qn, 'qt) Operator" where
  "updateGlobalStates op = op"

text \<open>The goroutines of a node. \<open>MonitoringStart\<close> is the call of the monitor's \<open>Start\<close>, which starts
  the three loops after it and returns; \<open>NodeApiStart\<close> is the SDK's server, which may return at any
  time or never.\<close>

datatype routine = MonitoringStart | TrackUptime | ProcessAlerts | MonitorPerformance
  | StateUpdateLoop | TaskProcessingLoop | OperatorRebalancingLoop | NodeApiStart

datatype main_state = NotStarted | Waiting | Returned "error option"

text \<open>\<open>nd_ctx\<close> is the node's context: \<open>None\<close> before \<open>Start\<close>, then whether it is done. \<open>nd_updates\<close>
  counts the calls of \<open>updateGlobalStates\<close>.\<close>

record node =
  nd_parent :: bool
  nd_ctx :: "bool option"
  nd_main :: main_state
  nd_live :: "routine list"
  nd_updates :: nat

definition new_node :: node where
  "new_node = \<lparr>nd_parent = False, nd_ctx = None, nd_main = NotStarted, nd_live = [], nd_updates = 0\<rparr>"

definition operator_Start :: "('eth, 'sk, 'kp, 'id, 'mr, 'em, 'na, 'qn, 'qt) Operator \<Rightarrow> node \<Rightarrow> node" where
  "operator_Start op n =
     (let n = n\<lparr>nd_ctx := Some (nd_parent n)\<rparr>;
          started = n\<lparr>nd_live := nd_live n @ [MonitoringStart, StateUpdateLoop, TaskProcessingLoop, OperatorRebalancingLoop] @
            (if on_nodeApi op \<noteq> None then [NodeApiStart] else []), nd_main := Waiting\<rparr>
      in if cfg_RegisterOperatorOnStartup (on_config op)
         then (case registerOperator op of Some e \<Rightarrow> n\<lparr>nd_main := Returned (Some e)\<rparr> | None \<Rightarrow> started)
         else started)"

definition operator_Stop :: "node \<Rightarrow> node" where
  "operator_Stop n = (case nd_ctx n of None \<Rightarrow> n | Some _ \<Rightarrow> n\<lparr>nd_ctx := Some True\<rparr>)"

text \<open>The routines that return only at the end of the context, at any time, or after their work.\<close>

definition waits_for_ctx :: "routine \<Rightarrow> bool" where
  "waits_for_ctx p \<longleftrightarrow> p \<in> {TrackUptime, ProcessAlerts, MonitorPerformance, StateUpdateLoop}"

datatype node_event = StartCall | StopCall | ParentDone | UpdateTick | MonitorStarted | RoutineReturn routine | MainReturn

inductive node_step :: "('eth, 'sk, 'kp, 'id, 'mr, 'em, 'na, 'qn, 'qt) Operator \<Rightarrow> node \<Rightarrow> node_event \<Rightarrow> node \<Rightarrow> bool" for op where
  start: "nd_main n = NotStarted \<Longrightarrow> node_step op n StartCall (operator_Start op n)"
| stop: "node_step op n StopCall (operator_Stop n)"
| parent: "node_step op n ParentDone (n\<lparr>nd_parent := True, nd_ctx := map_option (\<lambda>_. True) (nd_ctx n)\<rparr>)"
| update: "StateUpdateLoop \<in> set (nd_live n) \<Longrightarrow> node_step op n UpdateTick (n\<lparr>nd_updates := nd_updates n + 1\<rparr>)"
| monitor: "MonitoringStart \<in> set (nd_live n) \<Longrightarrow>
     node_step op n MonitorStarted (n\<lparr>nd_live := TrackUptime # ProcessAlerts # MonitorPerformance # remove1 MonitoringStart (nd_live n)\<rparr>)"
| return: "p \<in> set (nd_live n) \<Longrightarrow> p \<noteq> MonitoringStart \<Longrightarrow> waits_for_ctx p \<longrightarrow> nd_ctx n = Some True \<Longrightarrow>
     node_step op n (RoutineReturn p) (n\<lparr>nd_live := remove1 p (nd_live n)\<rparr>)"
| main: "nd_main n = Waiting \<Longrightarrow> nd_ctx n = Some True \<Longrightarrow> node_step op n MainReturn (n\<lparr>nd_main := Returned None\<rparr>)"

inductive_cases node_stepE: "node_step op n e n'"

section \<open>The clients of the chains\<close>

text \<open>The map has, for a chain, the last entry of the configuration with its identifier.\<close>

definition client_of :: "ChainConfig \<Rightarrow> Client" where
  "client_of cc = Generic \<lparr>cl_chainID = cc_ChainID cc, cl_rpcURL = cc_RpcUrl cc\<rparr>"

definition client_entries :: "ChainConfig list \<Rightarrow> (u32 \<times> Client) list" where
  "client_entries ccs = map (\<lambda>cc. (cc_ChainID cc, client_of cc)) ccs"

lemma newBlockchainClients_get:
  "\<exists>m. newBlockchainClients ccs clients = Inr m \<and> map_get m = map_get clients ++ map_of (rev (client_entries ccs))"
proof (induction ccs arbitrary: clients)
  case (Cons cc ccs)
  let ?m = "map_put (cc_ChainID cc) (client_of cc) clients"
  have "map_get ?m = map_get clients ++ map_of [(cc_ChainID cc, client_of cc)]"
    by (rule ext) (simp add: map_add_def)
  moreover obtain m where "newBlockchainClients ccs ?m = Inr m" "map_get m = map_get ?m ++ map_of (rev (client_entries ccs))"
    using Cons.IH [of ?m] by blast
  ultimately have "newBlockchainClients (cc # ccs) clients = Inr m \<and>
      map_get m = map_get clients ++ map_of (rev (client_entries (cc # ccs)))"
    by (simp add: client_New_def client_of_def client_entries_def del: map_laws)
  then show ?case by blast
qed (simp add: client_entries_def)

lemma find_chain_entry:
  "find_chain i ccs = Inr cc \<Longrightarrow> map_of (client_entries ccs) i = Some (client_of cc)"
  by (induction ccs) (auto simp: client_entries_def split: if_splits)

lemma client_entries_dom: "map_of (rev (client_entries ccs)) i \<noteq> None \<longleftrightarrow> i \<in> cc_ChainID ` set ccs"
  by (force simp: map_of_eq_None_iff client_entries_def)

lemma client_entries_id: "map_of (rev (client_entries ccs)) i = Some c \<Longrightarrow> GetChainID c = i"
  by (drule map_of_SomeD) (auto simp: client_entries_def client_of_def client_GetChainID_def)

lemma client_entries_rev:
  "distinct (map cc_ChainID ccs) \<Longrightarrow> map_of (rev (client_entries ccs)) = map_of (client_entries ccs)"
  by (subst map_of_inject_set) (simp_all add: client_entries_def comp_def rev_map [symmetric])

section \<open>Life of a node\<close>

text \<open>Before \<open>Start\<close> there are no goroutines; \<open>Start\<close> returns without error only when the context is
  done.\<close>

definition node_inv :: "node \<Rightarrow> bool" where
  "node_inv n \<longleftrightarrow> (nd_ctx n = None \<longleftrightarrow> nd_main n = NotStarted) \<and> (nd_main n = NotStarted \<longrightarrow> nd_live n = [] \<and> nd_updates n = 0) \<and>
     (\<forall>e. nd_main n = Returned e \<longrightarrow> e = None \<and> nd_ctx n = Some True)"

interpretation node: steps_invariant "node_step op" node_inv for op
  by unfold_locales
    (auto simp: node_inv_def operator_Start_def operator_Stop_def registerOperator_def Let_def
      split: option.splits if_splits elim!: node_stepE)

text \<open>When the context is done the node can finish: each routine but the node API returns.\<close>

definition node_final :: "node \<Rightarrow> bool" where
  "node_final n \<longleftrightarrow> nd_main n = Returned None \<and> set (nd_live n) \<subseteq> {NodeApiStart}"

definition node_size :: "node \<Rightarrow> nat" where
  "node_size n = (if nd_main n = Waiting then 1 else 0) +
     sum_list (map (\<lambda>p. if p = MonitoringStart then 5 else 1) (nd_live n))"

interpretation shutdown: steps_progress "node_step op"
  "\<lambda>n. node_inv n \<and> nd_ctx n = Some True" node_final node_size for op
proof unfold_locales
  fix n assume I: "node_inv n \<and> nd_ctx n = Some True" and open_end: "\<not> node_final n"
  have size_remove: "p \<in> set xs \<Longrightarrow> sum_list (map f xs) = f p + sum_list (map f (remove1 p xs))"
    for p xs and f :: "routine \<Rightarrow> nat" by (induction xs) auto
  consider (main) "nd_main n = Waiting" | (monitor) "MonitoringStart \<in> set (nd_live n)"
    | (live) p where "p \<in> set (nd_live n)" "p \<noteq> MonitoringStart"
    using I open_end by (cases "nd_main n") (auto simp: node_inv_def node_final_def)
  then show "\<exists>e n'. node_step op n e n' \<and> (node_inv n' \<and> nd_ctx n' = Some True) \<and> node_size n' < node_size n"
  proof cases
    case main
    let ?n = "n\<lparr>nd_main := Returned None\<rparr>"
    from main I have "node_step op n MainReturn ?n" "nd_ctx ?n = Some True" "node_size ?n < node_size n"
      by (auto intro: node_step.main simp: node_size_def)
    with I show ?thesis by (blast intro: node.I_step)
  next
    case monitor
    let ?n = "n\<lparr>nd_live := TrackUptime # ProcessAlerts # MonitorPerformance # remove1 MonitoringStart (nd_live n)\<rparr>"
    from monitor I have "node_step op n MonitorStarted ?n" "nd_ctx ?n = Some True" "node_size ?n < node_size n"
      by (auto intro: node_step.monitor simp: node_size_def size_remove)
    with I show ?thesis by (blast intro: node.I_step)
  next
    case live
    let ?n = "n\<lparr>nd_live := remove1 p (nd_live n)\<rparr>"
    from live I have "node_step op n (RoutineReturn p) ?n" "nd_ctx ?n = Some True" "node_size ?n < node_size n"
      by (auto intro: node_step.return simp: node_size_def size_remove [of p])
    with I show ?thesis by (blast intro: node.I_step)
  qed
qed

section \<open>Properties\<close>

text \<open>C34: No node can be made: the constructor always returns an error, since loading the keys is not
  implemented; only a failing Ethereum client is reported before that. With working key loaders in
  their place it fails only if the Ethereum client does, and panics only if the registry does.\<close>

theorem NewOperator_never:
  "NewOperator S register config r = Inr (Inl (case eth_NewClient S (cfg_EthRpcUrl config) of
       Inl e \<Rightarrow> ''failed to create eth client: '' @ e
     | Inr _ \<Rightarrow> ''failed to load ecdsa private key: not implemented'')) \<and>
   (case eth_NewClient S (cfg_EthRpcUrl config) of
      Inl e \<Rightarrow> NewOperator_with (\<lambda>_. Inr sk) (\<lambda>_. Inr kp) S register config r = Inr (Inl (''failed to create eth client: '' @ e))
    | Inr c \<Rightarrow> (case register_all register monitor_names r of
        Inl p \<Rightarrow> NewOperator_with (\<lambda>_. Inr sk) (\<lambda>_. Inr kp) S register config r = Inl p
      | Inr r' \<Rightarrow> \<exists>op. NewOperator_with (\<lambda>_. Inr sk) (\<lambda>_. Inr kp) S register config r = Inr (Inr (op, r')) \<and>
          on_ethClient op = c \<and> on_operatorAddr op = PrivateKeyToAddress S sk \<and> on_operatorId op = OperatorIdFromKeyPair S kp))"
proof -
  obtain m where "newBlockchainClients (cfg_SupportedChains config) [] = Inr m"
    using newBlockchainClients_get by blast
  then show ?thesis
    by (auto simp: NewOperator_def NewOperator_with_def loadEcdsaPrivateKey_def eigen_NewClient_def pkg_NewClient_def
        NewMonitor_in_def Let_def split: sum.splits)
qed


text \<open>Stopping a node. In every run \<open>Start\<close> returns only after the context is done, and never with an
  error; a \<open>Stop\<close> before \<open>Start\<close> changes nothing; and once \<open>Stop\<close> is called on a started node, it can
  always run to the end in which \<open>Start\<close> has returned and no goroutine is left but the node API,
  which nothing stops.\<close>

theorem node_shutdown:
  assumes "run (node_step op) new_node es n"
  shows "(\<forall>e. nd_main n = Returned e \<longrightarrow> e = None \<and> nd_ctx n = Some True) \<and>
    (nd_main n = NotStarted \<longrightarrow> operator_Stop n = n) \<and>
    (nd_main n \<noteq> NotStarted \<longrightarrow> (\<exists>fs n'. run (node_step op) (operator_Stop n) fs n' \<and> nd_main n' = Returned None \<and>
        set (nd_live n') \<subseteq> {NodeApiStart}))"
proof -
  have "node_inv new_node" by (simp add: node_inv_def new_node_def)
  with assms have I: "node_inv n" by (rule node.I_run)
  then have stop: "node_inv (operator_Stop n)" by (rule node.I_step) (rule node_step.stop [of undefined])
  have "\<exists>fs n'. run (node_step op) (operator_Stop n) fs n' \<and> nd_main n' = Returned None \<and> set (nd_live n') \<subseteq> {NodeApiStart}"
    if "nd_main n \<noteq> NotStarted"
  proof -
    from that I have "nd_ctx (operator_Stop n) = Some True" by (auto simp: node_inv_def operator_Stop_def)
    with stop shutdown.reaches_final [of "operator_Stop n" op] show ?thesis by (auto simp: node_final_def)
  qed
  with I show ?thesis by (auto simp: node_inv_def operator_Stop_def)
qed

section \<open>Witnesses\<close>

definition ex_sdk :: "(string, nat, nat, nat, string list, string, string) sdk" where
  "ex_sdk = \<lparr>eth_NewClient = Inr, PrivateKeyToAddress = (\<lambda>k. [word_of_nat k]), OperatorIdFromKeyPair = id, NewRegistry = [],
     NewEigenMetrics = (\<lambda>n a m. (a, n # m)), NewNodeApi = (\<lambda>n v a. a), sdk_HexToAddress = (\<lambda>_. [])\<rparr>"

lemma ex_node_made:
  "\<exists>op :: (string, nat, nat, nat, string list, string, string, unit, unit) Operator. \<exists>r'.
     NewOperator_with (\<lambda>_. Inr 1) (\<lambda>_. Inr 2) ex_sdk (\<lambda>n r. Inr (n # r)) GetDefaultConfig [] = Inr (Inr (op, r'))"
  by (simp add: NewOperator_with_def ex_sdk_def eigen_NewClient_def pkg_NewClient_def GetDefaultConfig_def client_New_def
      NewMonitor_in_def register_all_def monitor_names_def Let_def)


theorem node_shutdown_witness:
  "\<exists>op :: (string, nat, nat, nat, string list, string, string, unit, unit) Operator. \<exists>n fs n'.
     run (node_step op) new_node [StartCall] n \<and> nd_live n \<noteq> [] \<and>
     run (node_step op) (operator_Stop n) fs n' \<and> nd_main n' = Returned None"
proof -
  obtain op :: "(string, nat, nat, nat, string list, string, string, unit, unit) Operator" and r' where
    "NewOperator_with (\<lambda>_. Inr 1) (\<lambda>_. Inr 2) ex_sdk (\<lambda>n r. Inr (n # r)) GetDefaultConfig [] = Inr (Inr (op, r'))"
    using ex_node_made by blast
  let ?n = "operator_Start op new_node"
  have "nd_main new_node = NotStarted" by (simp add: new_node_def)
  then have "run (node_step op) new_node [StartCall] ?n" by (auto simp: run_Cons_iff intro: node_step.start)
  moreover have "nd_live ?n \<noteq> []" "nd_main ?n \<noteq> NotStarted"
    by (simp_all add: operator_Start_def registerOperator_def Let_def)
  ultimately show ?thesis using node_shutdown [of op "[StartCall]" ?n] by blast
qed

end
