(* ===== verification/Internal_Config.thy ===== *)
theory Internal_Config
  imports Eigen_Registration Across_Bridge
begin

text \<open>
  What the internal operator is configured from and writes to: \<^verbatim>\<open>internal/config/config.go\<close>,
  \<^verbatim>\<open>internal/database/database.go\<close> and \<^verbatim>\<open>internal/logger/logger.go\<close>. The environment and the global
  viper object are one state \<open>'v\<close>, changed by the functions of the record \<open>viper\<close>; GORM and logrus
  are parameters too.
\<close>

section \<open>Configuration\<close>

record ServerConfig =
  sv_Host :: string
  sv_Port :: int

record InternalDatabaseConfig =
  idb_Host :: string
  idb_Port :: int
  idb_User :: string
  idb_Password :: string
  idb_DBName :: string
  idb_SSLMode :: string

record InternalChainConfig =
  icc_ID :: u64
  icc_Name :: string
  icc_RPCURL :: string
  icc_WSURL :: string
  icc_PrivateKey :: string
  icc_SyncAVS :: string
  icc_PoolManager :: string
  icc_SyncHook :: string
  icc_Confirmations :: int

record LogConfig =
  lc_Level :: string
  lc_Format :: string
  lc_Output :: string

record OperatorConfig =
  oc_StateUpdateInterval :: int
  oc_RebalanceThreshold :: float64
  oc_MaxRebalanceAmount :: string
  oc_MinRebalanceAmount :: string
  oc_RebalanceCooldown :: int

record InternalConfig =
  ic_Server :: ServerConfig
  ic_Database :: InternalDatabaseConfig
  ic_Chains :: "InternalChainConfig list"
  ic_EigenLayer :: EigenLayerConfig
  ic_Across :: AcrossConfig
  ic_Log :: LogConfig
  ic_Operator :: OperatorConfig

subsection \<open>Validation\<close>

fun validate_chains :: "nat \<Rightarrow> InternalChainConfig list \<Rightarrow> error option" where
  "validate_chains i [] = None"
| "validate_chains i (chain # cs) =
     (if icc_RPCURL chain = [] then Some (''chain '' @ big_String (int i) @ '': RPC URL is required'')
      else if icc_PrivateKey chain = [] then Some (''chain '' @ big_String (int i) @ '': private key is required'')
      else if icc_SyncAVS chain = [] then Some (''chain '' @ big_String (int i) @ '': SyncAVS address is required'')
      else if icc_PoolManager chain = [] then Some (''chain '' @ big_String (int i) @ '': PoolManager address is required'')
      else validate_chains (Suc i) cs)"

definition validate :: "InternalConfig \<Rightarrow> error option" where
  "validate config =
     (if length (ic_Chains config) = 0 then Some ''at least one chain must be configured''
      else case validate_chains 0 (ic_Chains config) of
        Some e \<Rightarrow> Some e
      | None \<Rightarrow>
         if elc_RegistryCoordinator (ic_EigenLayer config) = [] then Some ''EigenLayer registry coordinator address is required''
         else if axc_SpokePool (ic_Across config) = [] then Some ''Across spoke pool address is required''
         else None)"

subsection \<open>Loading\<close>

datatype default_value = DString string | DInt int | DFloat float64

datatype read_error = ConfigFileNotFound error | ReadError error

record 'v viper =
  godotenv_Load :: "'v \<Rightarrow> error option \<times> 'v"
  SetConfigFile :: "string \<Rightarrow> 'v \<Rightarrow> 'v"
  SetConfigType :: "string \<Rightarrow> 'v \<Rightarrow> 'v"
  AutomaticEnv :: "'v \<Rightarrow> 'v"
  SetDefault :: "string \<Rightarrow> default_value \<Rightarrow> 'v \<Rightarrow> 'v"
  ReadInConfig :: "'v \<Rightarrow> read_error option \<times> 'v"
  Unmarshal :: "'v \<Rightarrow> error + InternalConfig"

definition default_values :: "(string \<times> default_value) list" where
  "default_values = [
     (''server.host'', DString ''0.0.0.0''), (''server.port'', DInt 8080),
     (''database.host'', DString ''localhost''), (''database.port'', DInt 5432), (''database.user'', DString ''synchook''),
     (''database.dbname'', DString ''synchook''), (''database.sslmode'', DString ''disable''),
     (''log.level'', DString ''info''), (''log.format'', DString ''json''), (''log.output'', DString ''stdout''),
     (''operator.state_update_interval'', DString ''30s''), (''operator.rebalance_threshold'', DFloat (f_lit (1/5))),
     (''operator.max_rebalance_amount'', DString ''1000000000000000000000''),
     (''operator.min_rebalance_amount'', DString ''1000000000000000000''),
     (''operator.rebalance_cooldown'', DString ''300s'')]"

definition setDefaults :: "'v viper \<Rightarrow> 'v \<Rightarrow> 'v" where
  "setDefaults V v = fold (\<lambda>(k, d) v. SetDefault V k d v) default_values v"

text \<open>The state \<open>ReadInConfig\<close> is called in.\<close>

definition prepared :: "'v viper \<Rightarrow> string \<Rightarrow> 'v \<Rightarrow> 'v" where
  "prepared V configFile v =
     setDefaults V (AutomaticEnv V (SetConfigType V ''yaml'' (SetConfigFile V configFile (snd (godotenv_Load V v)))))"

definition Load :: "'v viper \<Rightarrow> string \<Rightarrow> 'v \<Rightarrow> (error + InternalConfig) \<times> 'v" where
  "Load V configFile v =
     (case ReadInConfig V (prepared V configFile v) of
        (Some (ReadError e), v') \<Rightarrow> (Inl (''failed to read config file: '' @ e), v')
      | (_, v') \<Rightarrow> (case Unmarshal V v' of
          Inl e \<Rightarrow> (Inl (''failed to unmarshal config: '' @ e), v')
        | Inr config \<Rightarrow> (case validate config of
            Some e \<Rightarrow> (Inl (''invalid configuration: '' @ e), v')
          | None \<Rightarrow> (Inr config, v'))))"

subsection \<open>The connection string\<close>

definition GetDatabaseDSN :: "(string \<Rightarrow> string) \<Rightarrow> InternalConfig \<Rightarrow> string" where
  "GetDatabaseDSN Getenv c =
     (let password = (if idb_Password (ic_Database c) = [] then Getenv ''DATABASE_PASSWORD'' else idb_Password (ic_Database c))
      in ''host='' @ idb_Host (ic_Database c) @ '' port='' @ big_String (idb_Port (ic_Database c)) @
         '' user='' @ idb_User (ic_Database c) @ '' password='' @ password @
         '' dbname='' @ idb_DBName (ic_Database c) @ '' sslmode='' @ idb_SSLMode (ic_Database c))"

section \<open>Database\<close>

record 'g Database =
  db_DB :: 'g

text \<open>GORM: opening a connection string, the connection pool underneath, the settings of the pool and
  its closing, over a state \<open>'d\<close>.\<close>

record ('g, 'sql, 'd) gorm =
  gorm_Open :: "string \<Rightarrow> 'd \<Rightarrow> (error + 'g) \<times> 'd"
  gorm_DB :: "'g \<Rightarrow> 'd \<Rightarrow> error + 'sql"
  SetPool :: "'sql \<Rightarrow> int \<Rightarrow> int \<Rightarrow> int \<Rightarrow> 'd \<Rightarrow> 'd"
  sql_Close :: "'sql \<Rightarrow> 'd \<Rightarrow> error option \<times> 'd"

definition database_New :: "('g, 'sql, 'd) gorm \<Rightarrow> string \<Rightarrow> 'd \<Rightarrow> (error + 'g Database) \<times> 'd" where
  "database_New G dsn d =
     (case gorm_Open G dsn d of
        (Inl e, d') \<Rightarrow> (Inl (''failed to connect to database: '' @ e), d')
      | (Inr db, d') \<Rightarrow> (case gorm_DB G db d' of
          Inl e \<Rightarrow> (Inl (''failed to get underlying sql.DB: '' @ e), d')
        | Inr sqlDB \<Rightarrow> (Inr \<lparr>db_DB = db\<rparr>, SetPool G sqlDB 10 100 (3600 * 10 ^ 9) d')))"

definition autoMigrate :: "'g Database \<Rightarrow> error option" where
  "autoMigrate db = None"

definition database_Start :: "'g Database \<Rightarrow> error option" where
  "database_Start db = (case autoMigrate db of Some e \<Rightarrow> Some (''failed to auto-migrate: '' @ e) | None \<Rightarrow> None)"

definition database_Stop :: "('g, 'sql, 'd) gorm \<Rightarrow> 'g Database \<Rightarrow> 'd \<Rightarrow> error option \<times> 'd" where
  "database_Stop G db d = (case gorm_DB G (db_DB db) d of Inl e \<Rightarrow> (Some e, d) | Inr sqlDB \<Rightarrow> sql_Close G sqlDB d)"

section \<open>Logger\<close>

datatype formatter = JSONFormatter string | TextFormatter bool string

datatype stream = Stdout | Stderr

record 'l Logger =
  lg_level :: 'l
  lg_formatter :: formatter
  lg_output :: stream

text \<open>\<open>strings.ToLower\<close> on ASCII; no other letter is mapped to one of the words compared here.\<close>

definition lower_char :: "char \<Rightarrow> char" where
  "lower_char c = (let v = of_char c :: nat in if 65 \<le> v \<and> v \<le> 90 then char_of (v + 32) else c)"

definition ToLower :: "string \<Rightarrow> string" where
  "ToLower s = map lower_char s"

definition logger_New :: "(string \<Rightarrow> error + 'l) \<Rightarrow> LogConfig \<Rightarrow> error + 'l Logger" where
  "logger_New ParseLevel cfg = (case ParseLevel (lc_Level cfg) of
       Inl e \<Rightarrow> Inl e
     | Inr level \<Rightarrow> Inr \<lparr>lg_level = level,
         lg_formatter = (let f = ToLower (lc_Format cfg) in
            if f = ''json'' then JSONFormatter ''2006-01-02T15:04:05.000Z07:00''
            else if f = ''text'' then TextFormatter True ''2006-01-02 15:04:05''
            else JSONFormatter ''2006-01-02T15:04:05.000Z07:00''),
         lg_output = (let out = ToLower (lc_Output cfg) in
            if out = ''stdout'' then Stdout
            else if out = ''stderr'' then Stderr
            else if out = ''file'' then Stdout
            else Stdout)\<rparr>)"

definition NewFromViper :: "(string \<Rightarrow> error + 'l) \<Rightarrow> (string \<Rightarrow> error + LogConfig) \<Rightarrow> error + 'l Logger" where
  "NewFromViper ParseLevel UnmarshalKey = (case UnmarshalKey ''log'' of
       Inl e \<Rightarrow> Inl e
     | Inr cfg \<Rightarrow> logger_New ParseLevel cfg)"

section \<open>What validation accepts\<close>

definition chain_complete :: "InternalChainConfig \<Rightarrow> bool" where
  "chain_complete chain \<longleftrightarrow> icc_RPCURL chain \<noteq> [] \<and> icc_PrivateKey chain \<noteq> [] \<and> icc_SyncAVS chain \<noteq> [] \<and> icc_PoolManager chain \<noteq> []"

text \<open>The first field a chain misses, as the message names it.\<close>

definition chain_missing :: "InternalChainConfig \<Rightarrow> string" where
  "chain_missing chain =
     (if icc_RPCURL chain = [] then ''RPC URL'' else if icc_PrivateKey chain = [] then ''private key''
      else if icc_SyncAVS chain = [] then ''SyncAVS address'' else ''PoolManager address'')"

lemma validate_chains_accepts: "validate_chains k cs = None \<longleftrightarrow> (\<forall>c \<in> set cs. chain_complete c)"
  by (induction cs arbitrary: k) (auto simp: chain_complete_def)

lemma validate_chains_first:
  "i < length cs \<Longrightarrow> \<forall>c \<in> set (take i cs). chain_complete c \<Longrightarrow> \<not> chain_complete (cs ! i) \<Longrightarrow>
    validate_chains k cs = Some (''chain '' @ big_String (int (k + i)) @ '': '' @ chain_missing (cs ! i) @ '' is required'')"
proof (induction cs arbitrary: i k)
  case (Cons c cs)
  show ?case
  proof (cases i)
    case 0
    with Cons.prems show ?thesis by (auto simp: chain_complete_def chain_missing_def)
  next
    case (Suc j)
    with Cons.prems have c: "chain_complete c" by simp
    from Cons.IH [of j "Suc k"] Cons.prems Suc
    have "validate_chains (Suc k) cs =
        Some (''chain '' @ big_String (int (k + i)) @ '': '' @ chain_missing (cs ! j) @ '' is required'')" by simp
    with c Suc show ?thesis by (simp add: chain_complete_def)
  qed
qed simp

lemma validate_None_iff:
  "validate c = None \<longleftrightarrow> ic_Chains c \<noteq> [] \<and> (\<forall>ch \<in> set (ic_Chains c). chain_complete ch) \<and>
     elc_RegistryCoordinator (ic_EigenLayer c) \<noteq> [] \<and> axc_SpokePool (ic_Across c) \<noteq> []"
  using validate_chains_accepts [of 0 "ic_Chains c"] by (auto simp: validate_def split: option.splits)

lemma Load_Inr_iff:
  "fst (Load V file v) = Inr config \<longleftrightarrow> (\<forall>e. fst (ReadInConfig V (prepared V file v)) \<noteq> Some (ReadError e)) \<and>
     Unmarshal V (snd (ReadInConfig V (prepared V file v))) = Inr config \<and> validate config = None"
  by (auto simp: Load_def split: prod.splits option.splits read_error.splits sum.splits)

section \<open>Reading a connection string back\<close>

text \<open>The reference reader: settings separated by single spaces, each a name and a value around the
  first equals sign.\<close>

fun split_on :: "char \<Rightarrow> string \<Rightarrow> string list" where
  "split_on c [] = [[]]"
| "split_on c (x # xs) = (if x = c then [] # split_on c xs
     else case split_on c xs of [] \<Rightarrow> [[x]] | y # ys \<Rightarrow> (x # y) # ys)"

definition setting :: "string \<Rightarrow> string \<times> string" where
  "setting s = (takeWhile (\<lambda>c. c \<noteq> CHR ''='') s, tl (dropWhile (\<lambda>c. c \<noteq> CHR ''='') s))"

definition parse_dsn :: "string \<Rightarrow> (string \<times> string) list" where
  "parse_dsn s = map setting (split_on (CHR '' '') s)"

lemma split_on_last: "c \<notin> set xs \<Longrightarrow> split_on c xs = [xs]"
  by (induction xs) auto

lemma split_on_sep: "c \<notin> set xs \<Longrightarrow> split_on c (xs @ c # ys) = xs # split_on c ys"
  by (induction xs) auto

lemma big_String_no_space: "CHR '' '' \<notin> set (big_String x)"
proof -
  have "digit_value (CHR '' '') = None" by (simp add: digit_value_def)
  then have "CHR '' '' \<notin> set (nat_String n)" for n using nat_String_digits [of n] by auto
  then show ?thesis by (simp add: big_String_def)
qed

text \<open>The settings of the string a configuration gives, with the password taken from the environment
  where the configuration has none.\<close>

definition dsn_settings :: "(string \<Rightarrow> string) \<Rightarrow> InternalDatabaseConfig \<Rightarrow> (string \<times> string) list" where
  "dsn_settings Getenv d = [(''host'', idb_Host d), (''port'', big_String (idb_Port d)), (''user'', idb_User d),
     (''password'', if idb_Password d = [] then Getenv ''DATABASE_PASSWORD'' else idb_Password d),
     (''dbname'', idb_DBName d), (''sslmode'', idb_SSLMode d)]"

lemma GetDatabaseDSN_settings:
  "GetDatabaseDSN Getenv c =
     concat (map (\<lambda>(k, v). k @ ''='' @ v @ '' '') (butlast (dsn_settings Getenv (ic_Database c)))) @
     ''sslmode='' @ idb_SSLMode (ic_Database c)"
  by (simp add: GetDatabaseDSN_def dsn_settings_def Let_def)

lemma setting_pair: "CHR ''='' \<notin> set k \<Longrightarrow> setting (k @ CHR ''='' # v) = (k, v)"
  by (induction k) (auto simp: setting_def)

lemma parse_dsn_last: "CHR '' '' \<notin> set k \<union> set v \<Longrightarrow> CHR ''='' \<notin> set k \<Longrightarrow> parse_dsn (k @ ''='' @ v) = [(k, v)]"
  by (simp add: parse_dsn_def split_on_last setting_pair)

lemma parse_dsn_more:
  assumes "CHR '' '' \<notin> set k \<union> set v" and "CHR ''='' \<notin> set k"
  shows "parse_dsn (k @ ''='' @ v @ '' '' @ s) = (k, v) # parse_dsn s"
  using assms split_on_sep [of "CHR '' ''" "k @ ''='' @ v" s]
  by (simp add: parse_dsn_def setting_pair)

lemma parse_dsn_settings:
  "\<forall>(k, v) \<in> set kvs. CHR '' '' \<notin> set k \<union> set v \<and> CHR ''='' \<notin> set k \<Longrightarrow>
    parse_dsn (concat (map (\<lambda>(k, v). k @ ''='' @ v @ '' '') kvs) @ s) = kvs @ parse_dsn s"
proof (induction kvs)
  case (Cons kv kvs)
  then show ?case using parse_dsn_more [of "fst kv" "snd kv"] by (cases kv) simp
qed simp

section \<open>Properties\<close>

text \<open>C32: Loading succeeds exactly when the file was read or not found, the settings decode, and the
  configuration has a chain, the four required fields of every chain, a registry coordinator and a
  spoke pool; it then returns the decoded configuration unchanged. The error for an incomplete
  chain names the first such chain by its position and the first field it misses, and a missing
  file is no error. Nothing about the intervals is checked.\<close>

theorem Load_exact:
  "(fst (Load V file v) = Inr config \<longleftrightarrow>
      (\<forall>e. fst (ReadInConfig V (prepared V file v)) \<noteq> Some (ReadError e)) \<and>
      Unmarshal V (snd (ReadInConfig V (prepared V file v))) = Inr config \<and>
      ic_Chains config \<noteq> [] \<and> (\<forall>c \<in> set (ic_Chains config). chain_complete c) \<and>
      elc_RegistryCoordinator (ic_EigenLayer config) \<noteq> [] \<and> axc_SpokePool (ic_Across config) \<noteq> []) \<and>
   (i < length (ic_Chains config) \<and> (\<forall>c \<in> set (take i (ic_Chains config)). chain_complete c) \<and>
      \<not> chain_complete (ic_Chains config ! i) \<longrightarrow>
      validate config = Some (''chain '' @ big_String (int i) @ '': '' @ chain_missing (ic_Chains config ! i) @ '' is required'')) \<and>
   validate (config\<lparr>ic_Operator := oc\<rparr>) = validate config"
proof -
  have "validate (config\<lparr>ic_Operator := oc\<rparr>) = validate config" by (simp add: validate_def)
  moreover have "validate config = Some (''chain '' @ big_String (int i) @ '': '' @ chain_missing (ic_Chains config ! i) @ '' is required'')"
    if "i < length (ic_Chains config)" "\<forall>c \<in> set (take i (ic_Chains config)). chain_complete c" "\<not> chain_complete (ic_Chains config ! i)"
    using validate_chains_first [OF that, of 0] that(1) by (auto simp: validate_def)
  ultimately show ?thesis by (auto simp: Load_Inr_iff validate_None_iff)
qed

text \<open>C31: The connection string can be read back. When no text field contains a space, splitting it at
  the spaces and each part at its first equals sign gives the six settings in order, the port as a
  decimal that parses to the configured number, and the password of the environment exactly when
  the configuration has none.\<close>

theorem GetDatabaseDSN_roundtrip:
  assumes "CHR '' '' \<notin> set (idb_Host d) \<union> set (idb_User d) \<union> set (idb_Password d) \<union> set (Getenv ''DATABASE_PASSWORD'') \<union>
      set (idb_DBName d) \<union> set (idb_SSLMode d)"
    and "ic_Database c = d"
  shows "parse_dsn (GetDatabaseDSN Getenv c) = dsn_settings Getenv d \<and>
    Option.bind (map_of (parse_dsn (GetDatabaseDSN Getenv c)) ''port'') SetString10 = Some (idb_Port d)"
proof -
  have kvs: "\<forall>(k, v) \<in> set (dsn_settings Getenv d). CHR '' '' \<notin> set k \<union> set v \<and> CHR ''='' \<notin> set k"
    using assms(1) by (auto simp: dsn_settings_def big_String_no_space)
  then have "\<forall>(k, v) \<in> set (butlast (dsn_settings Getenv d)). CHR '' '' \<notin> set k \<union> set v \<and> CHR ''='' \<notin> set k"
    by (auto dest: in_set_butlastD)
  from parse_dsn_settings [OF this] parse_dsn_last [of "''sslmode''" "idb_SSLMode d"] assms
  have "parse_dsn (GetDatabaseDSN Getenv c) = butlast (dsn_settings Getenv d) @ [(''sslmode'', idb_SSLMode d)]"
    by (simp add: GetDatabaseDSN_settings)
  also have "\<dots> = dsn_settings Getenv d" by (simp add: dsn_settings_def)
  finally show ?thesis by (simp add: dsn_settings_def SetString10_big_String)
qed

section \<open>Witnesses\<close>

definition ex_chain :: "u64 \<Rightarrow> string \<Rightarrow> InternalChainConfig" where
  "ex_chain i key = \<lparr>icc_ID = i, icc_Name = ''c'', icc_RPCURL = ''http://c'', icc_WSURL = [], icc_PrivateKey = key,
     icc_SyncAVS = ''0x1'', icc_PoolManager = ''0x2'', icc_SyncHook = [], icc_Confirmations = 1\<rparr>"

definition ex_internal :: "InternalChainConfig list \<Rightarrow> InternalConfig" where
  "ex_internal cs = \<lparr>ic_Server = \<lparr>sv_Host = ''0.0.0.0'', sv_Port = 8080\<rparr>,
     ic_Database = \<lparr>idb_Host = ''localhost'', idb_Port = 5432, idb_User = ''synchook'', idb_Password = [],
       idb_DBName = ''synchook'', idb_SSLMode = ''disable''\<rparr>,
     ic_Chains = cs,
     ic_EigenLayer = \<lparr>elc_RegistryCoordinator = ''0x3'', elc_StakeRegistry = [], elc_BLSApkRegistry = [], elc_IndexRegistry = [],
       elc_OperatorID = 1, elc_QuorumNumber = 0\<rparr>,
     ic_Across = \<lparr>axc_SpokePool = ''0x4'', axc_HubPool = [], axc_RelayerFeePct = ''1000'', axc_MaxGasPrice = ''5''\<rparr>,
     ic_Log = \<lparr>lc_Level = ''info'', lc_Format = ''json'', lc_Output = ''stdout''\<rparr>,
     ic_Operator = \<lparr>oc_StateUpdateInterval = 30 * 10 ^ 9, oc_RebalanceThreshold = f_lit (1/5), oc_MaxRebalanceAmount = ''10'',
       oc_MinRebalanceAmount = ''1'', oc_RebalanceCooldown = 300 * 10 ^ 9\<rparr>\<rparr>"

definition ex_viper :: "InternalConfig viper" where
  "ex_viper = \<lparr>godotenv_Load = (\<lambda>v. (Some ''no .env'', v)), SetConfigFile = (\<lambda>_ v. v), SetConfigType = (\<lambda>_ v. v),
     AutomaticEnv = id, SetDefault = (\<lambda>_ _ v. v), ReadInConfig = (\<lambda>v. (Some (ConfigFileNotFound ''c.yaml''), v)), Unmarshal = Inr\<rparr>"

lemma ex_viper_prepared: "prepared ex_viper f v = v"
proof -
  have "fold (\<lambda>(k, d) v. v) kds w = w" for kds :: "(string \<times> default_value) list" and w :: InternalConfig
    by (induction kds) auto
  then show ?thesis by (simp add: prepared_def setDefaults_def ex_viper_def)
qed

theorem Load_exact_witness:
  "fst (Load ex_viper ''c.yaml'' (ex_internal [ex_chain 1 ''k''])) = Inr (ex_internal [ex_chain 1 ''k'']) \<and>
   validate (ex_internal [ex_chain 1 ''k'', ex_chain 10 []]) = Some ''chain 1: private key is required''"
proof -
  let ?c = "ex_internal [ex_chain 1 ''k'']" and ?d = "ex_internal [ex_chain 1 ''k'', ex_chain 10 []]"
  have one: "big_String 1 = ''1''" by (simp add: big_String_def nat_String_small digit_char_def char_of_def bit_0)
  have "ReadInConfig ex_viper ?c = (Some (ConfigFileNotFound ''c.yaml''), ?c)" "Unmarshal ex_viper ?c = Inr ?c"
    by (simp_all add: ex_viper_def)
  then have "fst (Load ex_viper ''c.yaml'' ?c) = Inr ?c"
    using Load_exact [of ex_viper "''c.yaml''" ?c ?c 0 "ic_Operator ?c"]
    by (simp add: ex_viper_prepared) (simp add: ex_internal_def ex_chain_def chain_complete_def)
  moreover have "validate ?d = Some ''chain 1: private key is required''"
    using Load_exact [of ex_viper "''c.yaml''" ?d ?d 1 "ic_Operator ?d"]
    by (simp add: ex_internal_def ex_chain_def chain_complete_def chain_missing_def one)
  ultimately show ?thesis by blast
qed

theorem GetDatabaseDSN_roundtrip_witness:
  "parse_dsn (GetDatabaseDSN (\<lambda>_. ''secret'') (ex_internal [])) = [(''host'', ''localhost''), (''port'', big_String 5432),
     (''user'', ''synchook''), (''password'', ''secret''), (''dbname'', ''synchook''), (''sslmode'', ''disable'')]"
  using GetDatabaseDSN_roundtrip [of "ic_Database (ex_internal [])" "\<lambda>_. ''secret''" "ex_internal []"]
  by (simp add: ex_internal_def dsn_settings_def)

end
