(* ===== verification/Internal_Chain.thy ===== *)
theory Internal_Chain
  imports Internal_Config Go_Time
begin

text \<open>
  The connection to one chain, \<^verbatim>\<open>internal/blockchain/chain.go\<close>, and what the state monitor of
  \<^verbatim>\<open>internal/monitor/monitor.go\<close> does with it. go-ethereum is the record \<open>geth\<close>: parsing and
  properties of keys, dialling a URL, signing, and the answers of a connection at the time of a
  call. The loop that waits for a receipt is a function of what its polls see.
\<close>

section \<open>Data\<close>

record ('sk, 'pk, 'ec, 'tx) geth =
  HexToECDSA :: "string \<Rightarrow> error + 'sk"
  PublicECDSA :: "'sk \<Rightarrow> 'pk option"
  geth_PubkeyToAddress :: "'pk \<Rightarrow> address"
  ethclient_Dial :: "string \<Rightarrow> error + 'ec"
  geth_HexToAddress :: "string \<Rightarrow> address"
  eth_BlockNumber :: "'ec \<Rightarrow> error + u64"
  eth_ChainID :: "'ec \<Rightarrow> error + int"
  SignTx :: "'tx \<Rightarrow> int option \<Rightarrow> 'sk \<Rightarrow> error + 'tx"

record ('sk, 'ec) Chain =
  ch_ID :: u64
  ch_Name :: string
  ch_Client :: 'ec
  ch_WSClient :: "'ec option"
  ch_PrivateKey :: 'sk
  ch_Address :: address
  ch_SyncAVS :: address
  ch_PoolManager :: address
  ch_SyncHook :: address
  ch_Confirmations :: int

text \<open>The values of a \<open>map[string]interface{}\<close> that a chain reports.\<close>

datatype chain_value = VUint u64 | VInt int | VPools "(string, string) gomap list"

type_synonym chain_states = "(string, chain_value) gomap"

section \<open>The connection\<close>

definition NewChain :: "('sk, 'pk, 'ec, 'tx) geth \<Rightarrow> InternalChainConfig \<Rightarrow> error + ('sk, 'ec) Chain" where
  "NewChain G cfg = (case HexToECDSA G (icc_PrivateKey cfg) of
       Inl e \<Rightarrow> Inl (''invalid private key: '' @ e)
     | Inr privateKey \<Rightarrow> (case PublicECDSA G privateKey of
         None \<Rightarrow> Inl ''error casting public key to ECDSA''
       | Some publicKeyECDSA \<Rightarrow> (case ethclient_Dial G (icc_RPCURL cfg) of
           Inl e \<Rightarrow> Inl (''failed to connect to RPC: '' @ e)
         | Inr client \<Rightarrow>
            (let wsClient = (if icc_WSURL cfg \<noteq> [] then
                   (case ethclient_Dial G (icc_WSURL cfg) of Inl e \<Rightarrow> None | Inr c \<Rightarrow> Some c) else None)
             in Inr \<lparr>ch_ID = icc_ID cfg, ch_Name = icc_Name cfg, ch_Client = client, ch_WSClient = wsClient,
                  ch_PrivateKey = privateKey, ch_Address = geth_PubkeyToAddress G publicKeyECDSA,
                  ch_SyncAVS = geth_HexToAddress G (icc_SyncAVS cfg),
                  ch_PoolManager = geth_HexToAddress G (icc_PoolManager cfg),
                  ch_SyncHook = geth_HexToAddress G (icc_SyncHook cfg),
                  ch_Confirmations = icc_Confirmations cfg\<rparr>))))"

definition chain_Start :: "('sk, 'ec) Chain \<Rightarrow> error option" where
  "chain_Start c = None"

text \<open>The connections closed, and the error.\<close>

definition chain_Stop :: "('sk, 'ec) Chain \<Rightarrow> 'ec list \<times> error option" where
  "chain_Stop c = (ch_Client c # (case ch_WSClient c of None \<Rightarrow> [] | Some w \<Rightarrow> [w]), None)"

definition GetPoolStates :: "('sk, 'pk, 'ec, 'tx) geth \<Rightarrow> int \<Rightarrow> ('sk, 'ec) Chain \<Rightarrow> error + chain_states" where
  "GetPoolStates G now c = (case eth_BlockNumber G (ch_Client c) of
       Inl e \<Rightarrow> Inl (''failed to get block number: '' @ e)
     | Inr blockNumber \<Rightarrow> (case eth_ChainID G (ch_Client c) of
         Inl e \<Rightarrow> Inl (''failed to get chain ID: '' @ e)
       | Inr chainID \<Rightarrow> Inr (
           map_put ''pools'' (VPools [[
             (''pool_id'', ''0x1234567890abcdef''), (''liquidity'', ''1000000000000000000000''),
             (''price'', ''2000000000000000000000''), (''volume_24h'', ''500000000000000000000''),
             (''fees_24h'', ''1000000000000000000'')]])
          (map_put ''timestamp'' (VInt now)
          (map_put ''chain_id'' (VUint (uint64 \<bar>chainID\<bar>))
          (map_put ''block_number'' (VUint blockNumber) []))))))"

definition chain_SubmitStateUpdate :: "('sk, 'ec) Chain \<Rightarrow> chain_states \<Rightarrow> error option" where
  "chain_SubmitStateUpdate c state = None"

record 'tx TransactOpts =
  to_From :: address
  to_Signer :: "address \<Rightarrow> 'tx \<Rightarrow> error + 'tx"
  to_GasLimit :: u64
  to_GasPrice :: int

definition getSigner ::
  "('sk, 'pk, 'ec, 'tx) geth \<Rightarrow> ('sk, 'ec) Chain \<Rightarrow> int option \<Rightarrow> address \<Rightarrow> 'tx \<Rightarrow> error + 'tx" where
  "getSigner G c chainID addr tx = SignTx G tx chainID (ch_PrivateKey c)"

text \<open>The error of the chain identifier is dropped and leaves a nil identifier.\<close>

definition GetTransactor :: "('sk, 'pk, 'ec, 'tx) geth \<Rightarrow> ('sk, 'ec) Chain \<Rightarrow> 'tx TransactOpts" where
  "GetTransactor G c =
     (let chainID = (case eth_ChainID G (ch_Client c) of Inl e \<Rightarrow> None | Inr i \<Rightarrow> Some i)
      in \<lparr>to_From = ch_Address c, to_Signer = getSigner G c chainID, to_GasLimit = 300000, to_GasPrice = 20000000000\<rparr>)"

subsection \<open>Waiting for a receipt\<close>

text \<open>A poll is the time of the \<open>select\<close> and what the query for the receipt answers then: an error or the
  status of the receipt. The context is done from the deadline on, five minutes after the call at
  \<open>t0\<close>. The result is \<open>None\<close> while the loop is still waiting after the polls, else what it returns.\<close>

fun wait_polls :: "gotime \<Rightarrow> (gotime \<times> (error + u64)) list \<Rightarrow> error option option" where
  "wait_polls deadline [] = None"
| "wait_polls deadline ((t, receipt) # polls) =
     (if deadline \<le> t then Some (Some ''timeout waiting for confirmation'')
      else case receipt of
        Inl e \<Rightarrow> wait_polls deadline polls
      | Inr status \<Rightarrow> if status = 1 then Some None else Some (Some ''transaction failed''))"

definition WaitForConfirmation :: "gotime \<Rightarrow> (gotime \<times> (error + u64)) list \<Rightarrow> error option option" where
  "WaitForConfirmation t0 polls = wait_polls (t0 + 5 * 60 * 10 ^ 9) polls"

text \<open>After an error the loop sleeps for a second: successive polls are at least that far apart.\<close>

definition spaced :: "gotime \<Rightarrow> (gotime \<times> (error + u64)) list \<Rightarrow> bool" where
  "spaced t0 polls \<longleftrightarrow> (\<forall>t \<in> set (map fst polls). t0 \<le> t) \<and>
     (\<forall>i. Suc i < length polls \<longrightarrow> fst (polls ! i) + 10 ^ 9 \<le> fst (polls ! Suc i))"

section \<open>The state monitor\<close>

record ('sk, 'ec, 'g) StateMonitor =
  sm_config :: InternalConfig
  sm_chains :: "(u64, ('sk, 'ec) Chain) gomap"
  sm_database :: "'g Database"

definition monitor_New ::
  "InternalConfig \<Rightarrow> (u64, ('sk, 'ec) Chain) gomap \<Rightarrow> 'g Database \<Rightarrow> ('sk, 'ec, 'g) StateMonitor \<times> error option" where
  "monitor_New cfg cs db = (\<lparr>sm_config = cfg, sm_chains = cs, sm_database = db\<rparr>, None)"

definition processStateChanges :: "('sk, 'ec, 'g) StateMonitor \<Rightarrow> u64 \<Rightarrow> chain_states \<Rightarrow> error option" where
  "processStateChanges m chainID states = None"

text \<open>The error that is logged, or the states that were processed.\<close>

definition checkChainState ::
  "('sk, 'pk, 'ec, 'tx) geth \<Rightarrow> int \<Rightarrow> ('sk, 'ec, 'g) StateMonitor \<Rightarrow> u64 \<Rightarrow> ('sk, 'ec) Chain \<Rightarrow> error + chain_states" where
  "checkChainState G now m chainID chain = (case GetPoolStates G now chain of
       Inl e \<Rightarrow> Inl e
     | Inr states \<Rightarrow> (case processStateChanges m chainID states of Some e \<Rightarrow> Inl e | None \<Rightarrow> Inr states))"

section \<open>Lemmas\<close>

lemma spaced_distance: "spaced t0 polls \<Longrightarrow> k < length polls \<Longrightarrow> t0 + int k * 10 ^ 9 \<le> fst (polls ! k)"
proof (induction k)
  case 0
  then show ?case by (auto simp: spaced_def)
next
  case (Suc k)
  then have "t0 + int k * 10 ^ 9 \<le> fst (polls ! k)" "fst (polls ! k) + 10 ^ 9 \<le> fst (polls ! Suc k)"
    by (simp_all add: spaced_def)
  then show ?case by (simp add: algebra_simps)
qed

lemma wait_polls_late: "k < length polls \<Longrightarrow> deadline \<le> fst (polls ! k) \<Longrightarrow> wait_polls deadline polls \<noteq> None"
proof (induction polls arbitrary: k)
  case (Cons p polls)
  then show ?case by (cases p; cases k) (auto split: sum.splits)
qed simp

text \<open>The first poll that is past the deadline or sees a receipt decides.\<close>

lemma wait_polls_result:
  "wait_polls deadline polls = Some r \<longleftrightarrow>
     (\<exists>t receipt late. dropWhile (\<lambda>q. fst q < deadline \<and> isl (snd q)) polls = (t, receipt) # late \<and>
        (if deadline \<le> t then r = Some ''timeout waiting for confirmation''
         else r = (if receipt = Inr 1 then None else Some ''transaction failed'')))"
proof (induction polls)
  case (Cons p polls)
  then show ?case by (cases p; cases "snd p") auto
qed simp

section \<open>Properties\<close>

text \<open>C30: Waiting for a transaction ends. The polls are a second or more apart, so after 301 of them the
  loop has returned, whatever they answered. The first poll that is past the five minutes or sees a
  receipt decides: the former is the timeout, a receipt with status 1 is success, and a receipt
  with any other status is a failure.\<close>

theorem WaitForConfirmation_returns:
  "(spaced t0 polls \<and> 301 \<le> length polls \<longrightarrow> WaitForConfirmation t0 polls \<noteq> None) \<and>
   (WaitForConfirmation t0 polls = Some r \<longleftrightarrow>
     (\<exists>t receipt late. dropWhile (\<lambda>q. fst q < t0 + 300 * 10 ^ 9 \<and> isl (snd q)) polls = (t, receipt) # late \<and>
        (if t0 + 300 * 10 ^ 9 \<le> t then r = Some ''timeout waiting for confirmation''
         else r = (if receipt = Inr 1 then None else Some ''transaction failed''))))"
proof -
  have "WaitForConfirmation t0 polls \<noteq> None" if "spaced t0 polls" "301 \<le> length polls"
    using spaced_distance [OF that(1), of 300] that(2) wait_polls_late [of 300 polls "t0 + 300 * 10 ^ 9"]
    by (simp add: WaitForConfirmation_def)
  moreover have "WaitForConfirmation t0 polls = wait_polls (t0 + 300 * 10 ^ 9) polls" by (simp add: WaitForConfirmation_def)
  ultimately show ?thesis using wait_polls_result by simp
qed

theorem WaitForConfirmation_returns_witness:
  "WaitForConfirmation 0 (map (\<lambda>k. (int k * 10 ^ 9, Inl ''not found'')) [0..<301]) \<noteq> None \<and>
   WaitForConfirmation 0 [(0, Inl ''not found''), (10 ^ 9, Inr 1)] = Some None"
proof -
  let ?polls = "map (\<lambda>k. (int k * 10 ^ 9, Inl ''not found'' :: error + u64)) [0..<301]"
  have "spaced 0 ?polls" by (auto simp: spaced_def)
  then have "WaitForConfirmation 0 ?polls \<noteq> None" using WaitForConfirmation_returns [of 0 ?polls None] by simp
  moreover have "WaitForConfirmation 0 [(0, Inl ''not found''), (10 ^ 9, Inr 1)] = Some None"
    using WaitForConfirmation_returns [of 0 "[(0, Inl ''not found''), (10 ^ 9, Inr 1)]" None] by simp
  ultimately show ?thesis by blast
qed

end
