(* ===== verification/Internal_Operator.thy ===== *)
theory Internal_Operator
  imports Internal_Chain Step_Systems
begin

text \<open>
  The internal operator of \<^verbatim>\<open>internal/operator/operator.go\<close>: its construction from the configuration,
  the starting and stopping of its services, the periodic state update, and its goroutines with
  those of the state monitor (\<^verbatim>\<open>internal/monitor\<close>) and of the rebalancer (\<^verbatim>\<open>internal/rebalancer\<close>)
  as a step relation over the routines that are live.
\<close>

section \<open>Construction\<close>

record ('sk, 'ec, 'g) InternalOperator =
  io_config :: InternalConfig
  io_database :: "'g Database"
  io_monitor :: "('sk, 'ec, 'g) StateMonitor"
  io_rebalancer :: Rebalancer
  io_chains :: "(u64, ('sk, 'ec) Chain) gomap"
  io_eigenlayer :: "'ec InternalEigenClient"

fun newChains ::
  "('sk, 'pk, 'ec, 'tx) geth \<Rightarrow> InternalChainConfig list \<Rightarrow> (u64, ('sk, 'ec) Chain) gomap \<Rightarrow> error + (u64, ('sk, 'ec) Chain) gomap" where
  "newChains G [] m = Inr m"
| "newChains G (chainCfg # cs) m = (case NewChain G chainCfg of
       Inl e \<Rightarrow> Inl (''failed to initialize chain '' @ big_String (uint (icc_ID chainCfg)) @ '': '' @ e)
     | Inr chain \<Rightarrow> newChains G cs (map_put (icc_ID chainCfg) chain m))"

text \<open>The state \<open>'d\<close> is that of the database library. Nothing is released on an error.\<close>

definition internal_New ::
  "('sk, 'pk, 'ec, 'tx) geth \<Rightarrow> ('g, 'sql, 'd) gorm \<Rightarrow> (string \<Rightarrow> string) \<Rightarrow> InternalConfig \<Rightarrow> 'd \<Rightarrow>
    (error + ('sk, 'ec, 'g) InternalOperator) \<times> 'd" where
  "internal_New G D Getenv cfg d =
     (case database_New D (GetDatabaseDSN Getenv cfg) d of
        (Inl e, d') \<Rightarrow> (Inl (''failed to initialize database: '' @ e), d')
      | (Inr db, d') \<Rightarrow> (case newChains G (ic_Chains cfg) [] of
          Inl e \<Rightarrow> (Inl e, d')
        | Inr chainMap \<Rightarrow> (case internal_NewEigenClient (geth_HexToAddress G) (ethclient_Dial G) (ic_EigenLayer cfg) of
            Inl e \<Rightarrow> (Inl (''failed to initialize EigenLayer client: '' @ e), d')
          | Inr eigenlayerClient \<Rightarrow> (case monitor_New cfg chainMap db of
              (_, Some e) \<Rightarrow> (Inl (''failed to initialize monitor: '' @ e), d')
            | (monitor, None) \<Rightarrow> (case rebalancer_New (geth_HexToAddress G) (ic_Across cfg) (map_each ch_Address chainMap) of
                Inl e \<Rightarrow> (Inl (''failed to initialize rebalancer: '' @ e), d')
              | Inr rebalancer \<Rightarrow>
                 (Inr \<lparr>io_config = cfg, io_database = db, io_monitor = monitor, io_rebalancer = rebalancer,
                    io_chains = chainMap, io_eigenlayer = eigenlayerClient\<rparr>, d'))))))"

section \<open>Services\<close>

text \<open>The services \<open>Run\<close> starts one after the other, each with its deferred stop.\<close>

datatype service = DatabaseService | ChainService u64 | EigenService

definition services :: "('sk, 'ec, 'g) InternalOperator \<Rightarrow> service list" where
  "services op = DatabaseService # map ChainService (map_keys (io_chains op)) @ [EigenService]"

fun service_Start :: "('sk, 'ec, 'g) InternalOperator \<Rightarrow> service \<Rightarrow> error option" where
  "service_Start op DatabaseService = map_option (\<lambda>e. ''failed to start database: '' @ e) (database_Start (io_database op))"
| "service_Start op (ChainService chainID) = (case map_get (io_chains op) chainID of
       None \<Rightarrow> None
     | Some chain \<Rightarrow> map_option (\<lambda>e. ''failed to start chain '' @ big_String (uint chainID) @ '': '' @ e) (chain_Start chain))"
| "service_Start op EigenService = map_option (\<lambda>e. ''failed to start EigenLayer client: '' @ e) (iel_Start (io_eigenlayer op))"

datatype run_event = Started service | Body | Stopped service

text \<open>Starting in order; an error returns at once. \<open>deferred\<close> is the stack of deferred stops, the
  last one deferred first, which runs when \<open>Run\<close> returns. \<open>Body\<close> is the part of \<open>Run\<close> after the
  starts: the goroutines, until all of them have finished.\<close>

fun run_services :: "(service \<Rightarrow> error option) \<Rightarrow> service list \<Rightarrow> service list \<Rightarrow> run_event list \<times> error option" where
  "run_services start_of [] deferred = (Body # map Stopped deferred, None)"
| "run_services start_of (s # ss) deferred = (case start_of s of
       Some e \<Rightarrow> (map Stopped deferred, Some e)
     | None \<Rightarrow> map_prod ((#) (Started s)) id (run_services start_of ss (s # deferred)))"

definition Run :: "('sk, 'ec, 'g) InternalOperator \<Rightarrow> run_event list \<times> error option" where
  "Run op = run_services (service_Start op) (services op) []"

text \<open>The connections a stop closes.\<close>

fun service_closes :: "('sk, 'ec, 'g) InternalOperator \<Rightarrow> service \<Rightarrow> 'ec list" where
  "service_closes op DatabaseService = []"
| "service_closes op (ChainService chainID) = (case map_get (io_chains op) chainID of None \<Rightarrow> [] | Some c \<Rightarrow> fst (chain_Stop c))"
| "service_closes op EigenService = fst (iel_Stop (io_eigenlayer op))"

section \<open>State update\<close>

text \<open>The submissions, each with its error; \<open>now\<close> is the clock when a chain is read. A chain that cannot
  be read is skipped.\<close>

definition updateState ::
  "('sk, 'pk, 'ec, 'tx) geth \<Rightarrow> (u64 \<Rightarrow> int) \<Rightarrow> ('sk, 'ec, 'g) InternalOperator \<Rightarrow> (u64 \<times> chain_states \<times> error option) list" where
  "updateState G now op =
     (let states = fold (\<lambda>(chainID, chain) m. case GetPoolStates G (now chainID) chain of
             Inl e \<Rightarrow> m | Inr state \<Rightarrow> map_put chainID state m) (io_chains op) []
      in map (\<lambda>(chainID, state). (chainID, state, iel_SubmitStateUpdate (io_eigenlayer op) chainID state)) states)"

section \<open>Goroutines\<close>

text \<open>The goroutines \<open>Run\<close> starts and those they start: the monitor's \<open>Start\<close> before and after it has
  started its watch on each chain, the rebalancer's \<open>Start\<close> before and after it has started its
  routine, the watch on a transfer, and the state update routine before and after it has made its
  ticker.\<close>

datatype svc_routine = MonitorStarting | MonitorWaiting | ChainWatch u64
  | RebalancerStarting | RebalancerWaiting | RebalancingRoutine | TransferWatch int
  | StateStarting | StateRoutine

datatype run_state = Blocked | Draining | Finished_run | Crashed panic

text \<open>\<open>sc_ext\<close>: the context given to \<open>Run\<close> is done; \<open>sc_cancelled\<close>: the operator's own context is,
  from which monitor and rebalancer derive theirs.\<close>

record svc =
  sc_ext :: bool
  sc_cancelled :: bool
  sc_main :: run_state
  sc_live :: "svc_routine list"

definition svc_init :: svc where
  "svc_init = \<lparr>sc_ext = False, sc_cancelled = False, sc_main = Blocked, sc_live = [MonitorStarting, RebalancerStarting, StateStarting]\<rparr>"

definition chain_watches :: "('sk, 'ec, 'g) InternalOperator \<Rightarrow> svc_routine list" where
  "chain_watches op = map ChainWatch (map_keys (io_chains op))"

fun is_watch :: "svc_routine \<Rightarrow> bool" where
  "is_watch (ChainWatch i) = True"
| "is_watch _ = False"

definition replace :: "svc_routine \<Rightarrow> svc_routine list \<Rightarrow> svc \<Rightarrow> svc" where
  "replace p ps s = s\<lparr>sc_live := ps @ remove1 p (sc_live s)\<rparr>"

datatype svc_event = ExtDone | StopCancel | InnerCancel | RunReturn | Begin svc_routine | LoopTick svc_routine
  | NewTransfer int | End svc_routine

text \<open>The goroutines of the state monitor: \<open>Start\<close> starts a watch per chain, waits for its context and
  then for the watches; a watch checks its chain at each tick until the context is done. \<open>select\<close> may
  still take a tick when the context is done.\<close>

inductive monitor_routine :: "('sk, 'ec, 'g) InternalOperator \<Rightarrow> svc \<Rightarrow> svc_event \<Rightarrow> svc \<Rightarrow> bool" for op where
  monitor_begin: "MonitorStarting \<in> set (sc_live s) \<Longrightarrow>
    monitor_routine op s (Begin MonitorStarting) (replace MonitorStarting (MonitorWaiting # chain_watches op) s)"
| watch_tick: "ChainWatch i \<in> set (sc_live s) \<Longrightarrow> monitor_routine op s (LoopTick (ChainWatch i)) s"
| watch_end: "ChainWatch i \<in> set (sc_live s) \<Longrightarrow> sc_cancelled s \<Longrightarrow>
    monitor_routine op s (End (ChainWatch i)) (replace (ChainWatch i) [] s)"
| monitor_end: "MonitorWaiting \<in> set (sc_live s) \<Longrightarrow> sc_cancelled s \<Longrightarrow> \<forall>q \<in> set (sc_live s). \<not> is_watch q \<Longrightarrow>
    monitor_routine op s (End MonitorWaiting) (replace MonitorWaiting [] s)"

text \<open>Those of the rebalancer: \<open>Start\<close> starts one routine and waits for it; at a tick the routine may
  initiate transfers, each with a watch of its own, which ends when the transfer is complete or the
  context is done, and for which nobody waits.\<close>

inductive rebalancer_routine :: "svc \<Rightarrow> svc_event \<Rightarrow> svc \<Rightarrow> bool" where
  rebalancer_begin: "RebalancerStarting \<in> set (sc_live s) \<Longrightarrow>
    rebalancer_routine s (Begin RebalancerStarting) (replace RebalancerStarting [RebalancerWaiting, RebalancingRoutine] s)"
| rebalancing_tick: "RebalancingRoutine \<in> set (sc_live s) \<Longrightarrow> rebalancer_routine s (LoopTick RebalancingRoutine) s"
| rebalancing_transfer: "RebalancingRoutine \<in> set (sc_live s) \<Longrightarrow>
    rebalancer_routine s (NewTransfer d) (s\<lparr>sc_live := TransferWatch d # sc_live s\<rparr>)"
| rebalancing_end: "RebalancingRoutine \<in> set (sc_live s) \<Longrightarrow> sc_cancelled s \<Longrightarrow>
    rebalancer_routine s (End RebalancingRoutine) (replace RebalancingRoutine [] s)"
| transfer_tick: "TransferWatch d \<in> set (sc_live s) \<Longrightarrow> rebalancer_routine s (LoopTick (TransferWatch d)) s"
| transfer_end: "TransferWatch d \<in> set (sc_live s) \<Longrightarrow>
    rebalancer_routine s (End (TransferWatch d)) (replace (TransferWatch d) [] s)"
| rebalancer_end: "RebalancerWaiting \<in> set (sc_live s) \<Longrightarrow> sc_cancelled s \<Longrightarrow> RebalancingRoutine \<notin> set (sc_live s) \<Longrightarrow>
    rebalancer_routine s (End RebalancerWaiting) (replace RebalancerWaiting [] s)"

text \<open>The state update routine: making its ticker may panic, which ends the process.\<close>

inductive state_routine :: "int \<Rightarrow> svc \<Rightarrow> svc_event \<Rightarrow> svc \<Rightarrow> bool" for iv where
  state_begin: "StateStarting \<in> set (sc_live s) \<Longrightarrow> NewTicker iv = Inr u \<Longrightarrow>
    state_routine iv s (Begin StateStarting) (replace StateStarting [StateRoutine] s)"
| state_panic: "StateStarting \<in> set (sc_live s) \<Longrightarrow> NewTicker iv = Inl p \<Longrightarrow>
    state_routine iv s (Begin StateStarting) (s\<lparr>sc_main := Crashed p\<rparr>)"
| state_tick: "StateRoutine \<in> set (sc_live s) \<Longrightarrow> state_routine iv s (LoopTick StateRoutine) s"
| state_end: "StateRoutine \<in> set (sc_live s) \<Longrightarrow> sc_cancelled s \<Longrightarrow> state_routine iv s (End StateRoutine) (replace StateRoutine [] s)"

text \<open>The goroutines the operator's wait group counts.\<close>

definition counted :: "svc_routine set" where
  "counted = {MonitorStarting, MonitorWaiting, RebalancerStarting, RebalancerWaiting, StateStarting, StateRoutine}"

definition alive :: "svc \<Rightarrow> bool" where
  "alive s \<longleftrightarrow> (\<forall>p. sc_main s \<noteq> Crashed p)"

definition update_interval :: "('sk, 'ec, 'g) InternalOperator \<Rightarrow> int" where
  "update_interval op = oc_StateUpdateInterval (ic_Operator (io_config op))"

text \<open>\<open>internal_Stop\<close> is the cancellation in \<open>Stop\<close>, which then waits like \<open>Run\<close>.\<close>

definition internal_Stop :: "svc \<Rightarrow> svc" where
  "internal_Stop s = s\<lparr>sc_cancelled := True\<rparr>"

inductive svc_step :: "('sk, 'ec, 'g) InternalOperator \<Rightarrow> svc \<Rightarrow> svc_event \<Rightarrow> svc \<Rightarrow> bool" for op where
  ext: "alive s \<Longrightarrow> svc_step op s ExtDone (s\<lparr>sc_ext := True\<rparr>)"
| stop: "alive s \<Longrightarrow> svc_step op s StopCancel (internal_Stop s)"
| cancel: "sc_main s = Blocked \<Longrightarrow> sc_ext s \<Longrightarrow> svc_step op s InnerCancel (s\<lparr>sc_cancelled := True, sc_main := Draining\<rparr>)"
| return: "sc_main s = Draining \<Longrightarrow> set (sc_live s) \<inter> counted = {} \<Longrightarrow> svc_step op s RunReturn (s\<lparr>sc_main := Finished_run\<rparr>)"
| monitor: "alive s \<Longrightarrow> monitor_routine op s e s' \<Longrightarrow> svc_step op s e s'"
| rebalancer: "alive s \<Longrightarrow> rebalancer_routine s e s' \<Longrightarrow> svc_step op s e s'"
| state: "alive s \<Longrightarrow> state_routine (update_interval op) s e s' \<Longrightarrow> svc_step op s e s'"

lemmas routine_steps = svc_step.monitor [OF _ monitor_begin] svc_step.monitor [OF _ monitor_end]
  svc_step.rebalancer [OF _ rebalancer_begin] svc_step.rebalancer [OF _ rebalancer_end] svc_step.state [OF _ state_begin]
  svc_step.monitor [OF _ watch_end] svc_step.rebalancer [OF _ rebalancing_end] svc_step.rebalancer [OF _ transfer_end]
  svc_step.state [OF _ state_end]

text \<open>The routines that loop over a ticker and the context.\<close>

fun is_loop :: "svc_routine \<Rightarrow> bool" where
  "is_loop (ChainWatch i) = True"
| "is_loop RebalancingRoutine = True"
| "is_loop (TransferWatch d) = True"
| "is_loop StateRoutine = True"
| "is_loop _ = False"

lemma loop_end:
  "alive s \<Longrightarrow> q \<in> set (sc_live s) \<Longrightarrow> is_loop q \<Longrightarrow> sc_cancelled s \<Longrightarrow> svc_step op s (End q) (replace q [] s)"
  by (cases q) (auto intro: routine_steps)

section \<open>Lemmas on the construction\<close>

lemma NewChain_ID: "NewChain G cfg = Inr c \<Longrightarrow> ch_ID c = icc_ID cfg"
  by (auto simp: NewChain_def Let_def split: sum.splits option.splits)

lemma newChains_dom: "newChains G cs m = Inr m' \<Longrightarrow> dom (map_get m') = icc_ID ` set cs \<union> dom (map_get m)"
  by (induction G cs m rule: newChains.induct) (auto simp del: map_laws split: sum.splits)

lemma newChains_ok: "newChains G cs m = Inr m' \<Longrightarrow> map_ok m \<Longrightarrow> map_ok m'"
  by (induction G cs m rule: newChains.induct) (auto simp: map_ok_put split: sum.splits)

lemma newChains_ID:
  "newChains G cs m = Inr m' \<Longrightarrow> \<forall>i c. map_get m i = Some c \<longrightarrow> ch_ID c = i \<Longrightarrow> \<forall>i c. map_get m' i = Some c \<longrightarrow> ch_ID c = i"
proof (induction G cs m rule: newChains.induct)
  case (2 G cfg cs m)
  from "2.prems"(1) obtain c where c: "NewChain G cfg = Inr c" "newChains G cs (map_put (icc_ID cfg) c m) = Inr m'"
    by (auto split: sum.splits)
  from "2.IH" [OF c(1,2)] map_put_all [OF "2.prems"(2), where k' = "icc_ID cfg" and v' = c] NewChain_ID [OF c(1)] show ?case by blast
qed simp

definition across_step ::
  "(string \<Rightarrow> address) \<Rightarrow> AcrossConfig \<Rightarrow> u64 \<times> address \<Rightarrow> error + (u64, AcrossClient) gomap \<Rightarrow> error + (u64, AcrossClient) gomap" where
  "across_step Hex cfg = (\<lambda>(chainID, chain) r. case r of Inl e \<Rightarrow> Inl e | Inr m \<Rightarrow>
     (case across_NewClient Hex cfg of
        Inl e \<Rightarrow> Inl (''failed to create Across client for chain '' @ big_String (uint chainID) @ '': '' @ e)
      | Inr c \<Rightarrow> Inr (map_put chainID c m)))"

lemma across_fold_Inl: "fold (across_step Hex cfg) cs (Inl e) = Inl e"
  by (induction cs) (auto simp: across_step_def)

lemma across_step_Inr:
  assumes "fold (across_step Hex cfg) (p # cs) (Inr m) = Inr m'"
  obtains c where "across_NewClient Hex cfg = Inr c" "fold (across_step Hex cfg) cs (Inr (map_put (fst p) c m)) = Inr m'"
  using assms by (cases p; cases "across_NewClient Hex cfg") (auto simp: across_step_def across_fold_Inl [unfolded across_step_def])

lemma across_fold_dom:
  "fold (across_step Hex cfg) cs (Inr m) = Inr m' \<Longrightarrow> dom (map_get m') = fst ` set cs \<union> dom (map_get m)"
proof (induction cs arbitrary: m)
  case (Cons p cs)
  then obtain c where "fold (across_step Hex cfg) cs (Inr (map_put (fst p) c m)) = Inr m'" by (blast elim: across_step_Inr)
  from Cons.IH [OF this] show ?case by (simp del: map_laws)
qed simp

lemma across_fold_client:
  "fold (across_step Hex cfg) cs (Inr m) = Inr m' \<Longrightarrow> \<forall>i c. map_get m i = Some c \<longrightarrow> across_NewClient Hex cfg = Inr c \<Longrightarrow>
    \<forall>i c. map_get m' i = Some c \<longrightarrow> across_NewClient Hex cfg = Inr c"
proof (induction cs arbitrary: m)
  case (Cons p cs)
  then obtain c where c: "across_NewClient Hex cfg = Inr c" "fold (across_step Hex cfg) cs (Inr (map_put (fst p) c m)) = Inr m'"
    by (blast elim: across_step_Inr)
  from Cons.IH [OF c(2)] map_put_all [OF Cons.prems(2) c(1)] show ?case by blast
qed simp

lemma rebalancer_New_across:
  assumes "rebalancer_New Hex cfg cs = Inr r"
  shows "rb_chains r = cs" and "rb_transfers r = []" and "dom (map_get (rb_across r)) = dom (map_get cs)"
    and "map_get (rb_across r) i = Some c \<Longrightarrow> across_NewClient Hex cfg = Inr c"
proof -
  from assms obtain m where m: "fold (across_step Hex cfg) cs (Inr []) = Inr m" "r = \<lparr>rb_chains = cs, rb_across = m, rb_transfers = []\<rparr>"
    by (auto simp: rebalancer_New_def across_step_def split: sum.splits)
  then show "rb_chains r = cs" "rb_transfers r = []" by simp_all
  show "dom (map_get (rb_across r)) = dom (map_get cs)"
    using across_fold_dom [OF m(1)] m(2) by (simp add: dom_map_get [of cs] dom_map_get [of "[]"])
  show "map_get (rb_across r) i = Some c \<Longrightarrow> across_NewClient Hex cfg = Inr c"
    using across_fold_client [OF m(1)] m(2) by simp
qed

lemma internal_New_parts:
  assumes "internal_New G D Getenv cfg d = (Inr op, d')"
  obtains db where "database_New D (GetDatabaseDSN Getenv cfg) d = (Inr db, d')" "newChains G (ic_Chains cfg) [] = Inr (io_chains op)"
    "rebalancer_New (geth_HexToAddress G) (ic_Across cfg) (map_each ch_Address (io_chains op)) = Inr (io_rebalancer op)"
    "io_database op = db" "io_config op = cfg" "sm_chains (io_monitor op) = io_chains op"
  using assms by (auto simp: internal_New_def internal_NewEigenClient_def monitor_New_def split: prod.splits sum.splits)

lemma internal_New_chains:
  "internal_New G D Getenv cfg d = (Inr op, d') \<Longrightarrow> dom (map_get (io_chains op)) = icc_ID ` set (ic_Chains cfg)"
  by (erule internal_New_parts, drule newChains_dom) (simp add: dom_map_get [of "[]"])

lemma internal_New_error:
  assumes "internal_New G D Getenv cfg d = (Inl e, d')"
  shows "snd (database_New D (GetDatabaseDSN Getenv cfg) d) = d'"
  using assms by (auto simp: internal_New_def internal_NewEigenClient_def monitor_New_def split: prod.splits sum.splits)

section \<open>Lemmas on the services\<close>

fun stops :: "run_event list \<Rightarrow> service list" where
  "stops [] = []"
| "stops (Stopped s # es) = s # stops es"
| "stops (_ # es) = stops es"

fun starts :: "run_event list \<Rightarrow> service list" where
  "starts [] = []"
| "starts (Started s # es) = s # starts es"
| "starts (_ # es) = starts es"

lemma stops_map [simp]: "stops (map Stopped ss) = ss" "starts (map Stopped ss) = []"
  by (induction ss) auto

lemma starts_Started [simp]: "starts (map Started ss @ es) = ss @ starts es" "stops (map Started ss @ es) = stops es"
  by (induction ss) auto

lemma chain_service: "ChainService i \<in> set (services op) \<longleftrightarrow> i \<in> dom (map_get (io_chains op))"
  by (auto simp: services_def map_keys_def dom_map_get)

lemma run_services_trace:
  "stops (fst (run_services f ss deferred)) = rev (starts (fst (run_services f ss deferred))) @ deferred"
  "snd (run_services f ss deferred) = None \<longleftrightarrow> (\<forall>s \<in> set ss. f s = None)"
  "Body \<in> set (fst (run_services f ss deferred)) \<longleftrightarrow> (\<forall>s \<in> set ss. f s = None)"
  "starts (fst (run_services f ss deferred)) = takeWhile (\<lambda>s. f s = None) ss"
  by (induction ss arbitrary: deferred) (auto split: option.splits)

lemma service_Start_ok: "service_Start op s = None"
  by (cases s) (auto simp: database_Start_def autoMigrate_def chain_Start_def iel_Start_def split: option.splits)

lemma run_services_ok: "\<forall>s \<in> set ss. f s = None \<Longrightarrow>
    run_services f ss deferred = (map Started ss @ Body # map Stopped (rev ss @ deferred), None)"
  by (induction ss arbitrary: deferred) auto

lemma Run_trace: "Run op = (map Started (services op) @ Body # map Stopped (rev (services op)), None)"
  using run_services_ok [of "services op" "service_Start op" "[]"] by (simp add: Run_def service_Start_ok)

text \<open>The loop that collects what could be read, as it looks to a later lookup.\<close>

lemma map_get_readable:
  "distinct (map fst cs) \<Longrightarrow>
    map_get (fold (\<lambda>(k, c) m. case read k c of Inl e \<Rightarrow> m | Inr s \<Rightarrow> map_put k s m) cs m) i =
      (case map_of cs i of None \<Rightarrow> map_get m i
       | Some c \<Rightarrow> (case read i c of Inl e \<Rightarrow> map_get m i | Inr s \<Rightarrow> Some s))"
proof (induction cs arbitrary: m)
  case (Cons p cs)
  obtain k c where p: "p = (k, c)" by fastforce
  from Cons.prems p have "map_of cs k = None" by (simp add: map_of_eq_None_iff)
  with Cons p show ?case by (cases "i = k") (auto split: sum.split option.split)
qed simp

section \<open>Lemmas on the goroutines\<close>

text \<open>The watches on chains live only below the monitor, the rebalancing routine below the rebalancer;
  past the wait of \<open>Run\<close> only watches on transfers are left; a crash comes from the interval.\<close>

definition svc_inv :: "('sk, 'ec, 'g) InternalOperator \<Rightarrow> svc \<Rightarrow> bool" where
  "svc_inv op s \<longleftrightarrow> ((\<exists>q \<in> set (sc_live s). is_watch q) \<longrightarrow> MonitorWaiting \<in> set (sc_live s)) \<and>
     (RebalancingRoutine \<in> set (sc_live s) \<longrightarrow> RebalancerWaiting \<in> set (sc_live s)) \<and>
     (sc_main s = Draining \<or> sc_main s = Finished_run \<longrightarrow> sc_ext s \<and> sc_cancelled s) \<and>
     (sc_main s = Finished_run \<longrightarrow> set (sc_live s) \<subseteq> range TransferWatch) \<and>
     (\<forall>p. sc_main s = Crashed p \<longrightarrow> update_interval op \<le> 0)"

lemma uncounted: "q \<notin> counted \<Longrightarrow> \<not> is_watch q \<Longrightarrow> q \<noteq> RebalancingRoutine \<Longrightarrow> q \<in> range TransferWatch"
  by (cases q) (auto simp: counted_def)

lemma chain_watches_watch: "q \<in> set (chain_watches op) \<Longrightarrow> is_watch q"
  by (auto simp: chain_watches_def)

lemma watch_cases: "is_watch q \<Longrightarrow> q \<noteq> MonitorWaiting \<and> q \<noteq> RebalancerWaiting \<and> q \<noteq> RebalancingRoutine"
  by (cases q) auto

lemma live_replace: "set (sc_live (replace p ps s)) \<subseteq> set ps \<union> set (sc_live s)"
  by (auto simp: replace_def dest: in_set_remove1)

lemma live_replace_other: "q \<noteq> p \<Longrightarrow> q \<in> set (sc_live s) \<Longrightarrow> q \<in> set (sc_live (replace p ps s))"
  by (simp add: replace_def)

lemma replace_rest [simp]: "sc_ext (replace p ps s) = sc_ext s" "sc_cancelled (replace p ps s) = sc_cancelled s" "sc_main (replace p ps s) = sc_main s"
  by (simp_all add: replace_def)

text \<open>Replacing a routine keeps the invariant when the new ones bring their parents, no parent is
  removed before its children, and a finished operator only loses watches on transfers.\<close>

lemma svc_inv_replace:
  assumes "svc_inv op s"
    and "\<exists>q \<in> set ps. is_watch q \<Longrightarrow> MonitorWaiting \<in> set ps"
    and "RebalancingRoutine \<in> set ps \<Longrightarrow> RebalancerWaiting \<in> set ps"
    and "p = MonitorWaiting \<Longrightarrow> \<forall>q \<in> set (sc_live s). \<not> is_watch q"
    and "p = RebalancerWaiting \<Longrightarrow> RebalancingRoutine \<notin> set (sc_live s)"
    and "p \<in> set (sc_live s)" and "p \<in> range TransferWatch \<Longrightarrow> ps = []"
  shows "svc_inv op (replace p ps s)"
proof -
  have "MonitorWaiting \<in> set (sc_live (replace p ps s))" if "\<exists>q \<in> set (sc_live (replace p ps s)). is_watch q"
  proof (cases "\<exists>q \<in> set ps. is_watch q")
    case True
    with assms(2) show ?thesis by (simp add: replace_def)
  next
    case False
    with that live_replace [of p ps s] have "\<exists>q \<in> set (sc_live s). is_watch q" by blast
    with assms(1,4) have "MonitorWaiting \<in> set (sc_live s)" "p \<noteq> MonitorWaiting" by (auto simp: svc_inv_def)
    then show ?thesis by (auto intro: live_replace_other)
  qed
  moreover have "RebalancerWaiting \<in> set (sc_live (replace p ps s))" if "RebalancingRoutine \<in> set (sc_live (replace p ps s))"
  proof (cases "RebalancingRoutine \<in> set ps")
    case True
    with assms(3) show ?thesis by (simp add: replace_def)
  next
    case False
    with that live_replace [of p ps s] have "RebalancingRoutine \<in> set (sc_live s)" by blast
    with assms(1,5) have "RebalancerWaiting \<in> set (sc_live s)" "p \<noteq> RebalancerWaiting" by (auto simp: svc_inv_def)
    then show ?thesis by (auto intro: live_replace_other)
  qed
  moreover have "set (sc_live (replace p ps s)) \<subseteq> range TransferWatch" if "sc_main s = Finished_run"
  proof -
    from assms(1) that have live: "set (sc_live s) \<subseteq> range TransferWatch" by (simp add: svc_inv_def)
    with assms(6,7) have "ps = []" by blast
    with live live_replace [of p ps s] show ?thesis by (metis Un_empty_left list.set(1) subset_trans)
  qed
  ultimately show ?thesis using assms(1) by (simp add: svc_inv_def)
qed

lemma svc_inv_monitor:
  assumes "svc_inv op s" and "monitor_routine op s e s'"
  shows "svc_inv op s'"
proof -
  have "RebalancingRoutine \<notin> set (chain_watches op)" by (auto dest: chain_watches_watch)
  with assms(2) show ?thesis
    by cases (auto intro!: svc_inv_replace [OF assms(1)] assms(1))
qed

lemma svc_inv_rebalancer:
  assumes "svc_inv op s" and "rebalancer_routine s e s'"
  shows "svc_inv op s'"
  using assms(2)
proof cases
  case (rebalancing_transfer d)
  with assms(1) show ?thesis by (auto simp: svc_inv_def)
qed (auto intro!: svc_inv_replace [OF assms(1)] assms(1))

lemma svc_inv_state:
  assumes "svc_inv op s" and "alive s" and "state_routine (update_interval op) s e s'"
  shows "svc_inv op s'"
  using assms(3)
proof cases
  case (state_panic p)
  with assms(1) show ?thesis by (auto simp: svc_inv_def NewTicker_def split: if_splits)
qed (auto intro!: svc_inv_replace [OF assms(1)] assms(1))

lemma svc_inv_step:
  assumes "svc_inv op s" and "svc_step op s e s'"
  shows "svc_inv op s'"
  using assms(2)
proof cases
  case return
  with assms(1) have "\<forall>q \<in> set (sc_live s). \<not> is_watch q" "RebalancingRoutine \<notin> set (sc_live s)"
    by (auto simp: svc_inv_def counted_def)
  with return(4) have "set (sc_live s) \<subseteq> range TransferWatch" using uncounted by blast
  with return assms(1) show ?thesis by (auto simp: svc_inv_def)
next
  case monitor
  with assms(1) show ?thesis by (blast intro: svc_inv_monitor)
next
  case rebalancer
  with assms(1) show ?thesis by (blast intro: svc_inv_rebalancer)
next
  case state
  with assms(1) show ?thesis by (blast intro: svc_inv_state)
qed (use assms(1) in \<open>auto simp: svc_inv_def alive_def internal_Stop_def\<close>)

interpretation svc: steps_invariant "svc_step op" "svc_inv op" for op
  by unfold_locales (rule svc_inv_step)

fun weight :: "('sk, 'ec, 'g) InternalOperator \<Rightarrow> svc_routine \<Rightarrow> nat" where
  "weight op MonitorStarting = 2 + length (io_chains op)"
| "weight op RebalancerStarting = 3"
| "weight op StateStarting = 2"
| "weight op _ = 1"

definition svc_size :: "('sk, 'ec, 'g) InternalOperator \<Rightarrow> svc \<Rightarrow> nat" where
  "svc_size op s = (case sc_main s of Blocked \<Rightarrow> 2 | Draining \<Rightarrow> 1 | _ \<Rightarrow> 0) + sum_list (map (weight op) (sc_live s))"

lemma weight_pos: "0 < weight op q"
  by (cases q) auto

lemma weight_watches: "sum_list (map (weight op) (map ChainWatch ids)) = length ids"
  by (induction ids) auto

lemma weight_chain_watches: "sum_list (map (weight op) (chain_watches op)) = length (io_chains op)"
  using weight_watches [of op "map_keys (io_chains op)"] by (simp add: chain_watches_def map_keys_def del: map_map)

lemma sum_list_remove1: "p \<in> set xs \<Longrightarrow> sum_list (map f (remove1 p xs)) + f p = (sum_list (map f xs) :: nat)"
  by (induction xs) auto

lemma svc_size_replace:
  "p \<in> set (sc_live s) \<Longrightarrow> sum_list (map (weight op) ps) < weight op p \<Longrightarrow> svc_size op (replace p ps s) < svc_size op s"
  using sum_list_remove1 [of p "sc_live s" "weight op"] by (simp add: svc_size_def replace_def)

definition draining :: "('sk, 'ec, 'g) InternalOperator \<Rightarrow> svc \<Rightarrow> bool" where
  "draining op s \<longleftrightarrow> svc_inv op s \<and> sc_ext s \<and> 0 < update_interval op"

lemma draining_replace:
  "draining op s \<Longrightarrow> svc_step op s e (replace p ps s) \<Longrightarrow> draining op (replace p ps s)"
  unfolding draining_def by (auto intro: svc_inv_step)

text \<open>A routine that is live while the context is done can take a step towards its end.\<close>

lemma live_progress:
  assumes "draining op s" and "alive s" and "sc_cancelled s" and "sc_live s \<noteq> []"
  obtains e p ps where "svc_step op s e (replace p ps s)" "p \<in> set (sc_live s)" "sum_list (map (weight op) ps) < weight op p"
proof (cases "\<exists>q \<in> set (sc_live s). is_loop q")
  case True
  then obtain q where "q \<in> set (sc_live s)" "is_loop q" by blast
  with assms that [of "End q" q "[]"] show ?thesis by (auto intro: loop_end simp: weight_pos)
next
  case False
  then have none: "\<forall>q \<in> set (sc_live s). \<not> is_watch q" "RebalancingRoutine \<notin> set (sc_live s)"
    by (metis is_loop.simps(1) is_watch.elims(2)) (use False in force)
  obtain u where u: "NewTicker (update_interval op) = Inr u"
    using assms(1) by (simp add: draining_def NewTicker_def)
  obtain q where q: "q \<in> set (sc_live s)" using assms(4) by (cases "sc_live s") auto
  with False have "\<not> is_loop q" by blast
  then show ?thesis
  proof (cases q)
    case MonitorStarting
    with q assms that [of "Begin q" q "MonitorWaiting # chain_watches op"] show ?thesis
      by (auto intro: routine_steps simp: weight_chain_watches)
  next
    case RebalancerStarting
    with q assms that [of "Begin q" q "[RebalancerWaiting, RebalancingRoutine]"] show ?thesis by (auto intro: routine_steps)
  next
    case StateStarting
    with q assms u that [of "Begin q" q "[StateRoutine]"] show ?thesis by (auto intro: routine_steps)
  next
    case MonitorWaiting
    with q assms none that [of "End q" q "[]"] show ?thesis by (auto intro: routine_steps)
  next
    case RebalancerWaiting
    with q assms none that [of "End q" q "[]"] show ?thesis by (auto intro: routine_steps)
  qed auto
qed

definition svc_final :: "svc \<Rightarrow> bool" where
  "svc_final s \<longleftrightarrow> sc_main s = Finished_run \<and> sc_live s = []"

lemma svc_progress:
  assumes "draining op s" and "\<not> svc_final s"
  shows "\<exists>e s'. svc_step op s e s' \<and> draining op s' \<and> svc_size op s' < svc_size op s"
proof -
  from assms(1) have inv: "svc_inv op s" "sc_ext s" and alive: "alive s" by (auto simp: draining_def svc_inv_def alive_def)
  have main_step: ?thesis if step: "svc_step op s e s'" and smaller: "svc_size op s' < svc_size op s" and "sc_ext s'" for e s'
    using that assms(1) svc_inv_step [OF inv(1) step] by (auto simp: draining_def)
  show ?thesis
  proof (cases "sc_main s = Blocked")
    case True
    with inv show ?thesis
      by (intro main_step [OF svc_step.cancel]) (simp_all add: svc_size_def)
  next
    case False
    with inv alive have cancelled: "sc_cancelled s" by (cases "sc_main s") (auto simp: svc_inv_def alive_def)
    show ?thesis
    proof (cases "sc_live s = []")
      case True
      with False assms(2) alive have "sc_main s = Draining" by (cases "sc_main s") (auto simp: svc_final_def alive_def)
      with True inv show ?thesis by (intro main_step [OF svc_step.return]) (simp_all add: svc_size_def)
    next
      case False
      from live_progress [OF assms(1) alive cancelled False] obtain e p ps where
        "svc_step op s e (replace p ps s)" "p \<in> set (sc_live s)" "sum_list (map (weight op) ps) < weight op p" by blast
      with assms(1) show ?thesis by (blast intro: draining_replace svc_size_replace)
    qed
  qed
qed

interpretation drain: steps_progress "svc_step op" "draining op" svc_final "svc_size op" for op
  by unfold_locales (rule svc_progress)

section \<open>Properties\<close>

text \<open>C28: The operator that \<open>New\<close> makes is consistent. It has a chain exactly for each identifier of the
  configuration, under its own identifier, and an Across client for each of them, so a transfer
  from a configured chain with a decimal amount is always initiated and one from any other chain is
  refused as such. When \<open>New\<close> fails, the database stays as it was opened: nothing closes it.\<close>

theorem internal_New_result:
  "case internal_New G D Getenv cfg d of
     (Inl e, d') \<Rightarrow> d' = snd (database_New D (GetDatabaseDSN Getenv cfg) d)
   | (Inr op, d') \<Rightarrow> dom (map_get (io_chains op)) = icc_ID ` set (ic_Chains cfg) \<and>
       (\<forall>i c. map_get (io_chains op) i = Some c \<longrightarrow> ch_ID c = i) \<and>
       dom (map_get (rb_across (io_rebalancer op))) = icc_ID ` set (ic_Chains cfg) \<and>
       (case executeRebalancingOperation Hex HexToHash nanos now opp (io_rebalancer op) of
          Inl p \<Rightarrow> False
        | Inr (r, err) \<Rightarrow>
            if op_FromChain opp \<notin> icc_ID ` set (ic_Chains cfg)
            then r = io_rebalancer op \<and> err = Some (''source chain '' @ big_String (uint (op_FromChain opp)) @ '' not found'')
            else (err = None \<longleftrightarrow> SetString10 (op_Amount opp) \<noteq> None) \<and> length (rb_transfers r) = (if err = None then 1 else 0))"
proof (cases "internal_New G D Getenv cfg d")
  case (Pair res d')
  show ?thesis
  proof (cases res)
    case (Inl e)
    with Pair internal_New_error show ?thesis by fastforce
  next
    case (Inr op)
    from Pair Inr have "internal_New G D Getenv cfg d = (Inr op, d')" by simp
    then obtain db where n: "newChains G (ic_Chains cfg) [] = Inr (io_chains op)"
      "rebalancer_New (geth_HexToAddress G) (ic_Across cfg) (map_each ch_Address (io_chains op)) = Inr (io_rebalancer op)"
      by (rule internal_New_parts)
    let ?ids = "icc_ID ` set (ic_Chains cfg)" and ?r = "io_rebalancer op" and ?i = "op_FromChain opp"
    from Pair Inr have dom: "dom (map_get (io_chains op)) = ?ids" by (simp add: internal_New_chains)
    have each: "dom (map_get (map_each ch_Address (io_chains op))) = dom (map_get (io_chains op))" by auto
    note r = rebalancer_New_across [OF n(2)]
    have across: "dom (map_get (rb_across ?r)) = ?ids" using r(3) each dom by simp
    note fresh = r(2)
    have "case executeRebalancingOperation Hex HexToHash nanos now opp ?r of Inl p \<Rightarrow> False | Inr (r', err) \<Rightarrow>
        if ?i \<notin> ?ids then r' = ?r \<and> err = Some (''source chain '' @ big_String (uint ?i) @ '' not found'')
        else (err = None \<longleftrightarrow> SetString10 (op_Amount opp) \<noteq> None) \<and> length (rb_transfers r') = (if err = None then 1 else 0)"
    proof (cases "?i \<in> ?ids")
      case False
      then have "map_get (rb_chains ?r) ?i = None" using r(1) dom by auto
      with False show ?thesis by (simp add: executeRebalancingOperation_def)
    next
      case True
      with dom across have "?i \<in> dom (map_get (io_chains op))" "?i \<in> dom (map_get (rb_across ?r))" by simp_all
      then obtain ch c where "map_get (io_chains op) ?i = Some ch" "map_get (rb_across ?r) ?i = Some c" by blast
      moreover from this have "map_get (rb_chains ?r) ?i = Some (ch_Address ch)" by (simp add: r(1))
      ultimately show ?thesis using True fresh
        by (auto simp: executeRebalancingOperation_def CalculateRelayerFee_def InitiateTransfer_def Let_def split: option.splits)
    qed
    moreover have "\<forall>i c. map_get (io_chains op) i = Some c \<longrightarrow> ch_ID c = i" using newChains_ID [OF n(1)] by simp
    ultimately show ?thesis using Pair Inr dom across by simp
  qed
qed


text \<open>C38: A state update submits, for every chain whose pool states could be read, exactly these states, once,
  and nothing for a chain that could not be read; one failing chain does not keep the others from
  being submitted.\<close>

theorem updateState_exact:
  assumes "map_ok (io_chains op)"
  shows "((i, states, err) \<in> set (updateState G now op) \<longleftrightarrow>
      err = None \<and> (\<exists>c. map_get (io_chains op) i = Some c \<and> GetPoolStates G (now i) c = Inr states)) \<and>
    distinct (map fst (updateState G now op))"
proof -
  let ?f = "\<lambda>(chainID, chain) m. case GetPoolStates G (now chainID) chain of Inl e \<Rightarrow> m | Inr state \<Rightarrow> map_put chainID state m"
  have ok: "map_ok m \<Longrightarrow> map_ok (fold ?f cs m)" for cs m
    by (induction cs arbitrary: m) (auto simp: map_ok_put split: sum.splits)
  let ?states = "fold ?f (io_chains op) []"
  have states_ok: "map_ok ?states" by (rule ok) simp
  then have "(i, states) \<in> set ?states \<longleftrightarrow> map_get ?states i = Some states"
    by (simp add: map_ok_def map_get_def)
  also have "\<dots> \<longleftrightarrow> (\<exists>c. map_get (io_chains op) i = Some c \<and> GetPoolStates G (now i) c = Inr states)"
    using map_get_readable [of "io_chains op" "\<lambda>i c. GetPoolStates G (now i) c" "[]" i] assms
    by (cases "map_get (io_chains op) i") (auto simp: map_ok_def map_get_def [of "io_chains op"] split: sum.splits)
  finally have read: "(i, states) \<in> set ?states \<longleftrightarrow> (\<exists>c. map_get (io_chains op) i = Some c \<and> GetPoolStates G (now i) c = Inr states)" .
  have upd: "updateState G now op = map (\<lambda>(i, s). (i, s, None)) ?states"
    by (simp add: updateState_def iel_SubmitStateUpdate_def)
  have "(i, s, e) \<in> set (map (\<lambda>(i, s). (i, s, None :: error option)) m) \<longleftrightarrow> e = None \<and> (i, s) \<in> set m"
    "map fst (map (\<lambda>(i, s). (i, s, None :: error option)) m) = map fst m" for i s e and m :: "(u64, chain_states) gomap" by force+
  then show ?thesis unfolding upd using read states_ok unfolding map_ok_def by (simp del: map_map)
qed

text \<open>C27: Shutting the operator down. In every run: when \<open>Run\<close> has returned, its context and the operator's
  are done and no goroutine is left but watches on transfers, which no wait group counts; the
  process can only crash on a state update interval that is not positive, and does so at once when
  it is not; and with a positive interval, once the context is done, the operator can always get to
  the end where \<open>Run\<close> has returned and no goroutine is left.\<close>

theorem Run_shutdown:
  assumes "run (svc_step op) svc_init es s"
  shows "(sc_main s = Finished_run \<longrightarrow> sc_ext s \<and> sc_cancelled s \<and> set (sc_live s) \<subseteq> range TransferWatch) \<and>
    (0 < update_interval op \<longrightarrow> (\<forall>p. sc_main s \<noteq> Crashed p) \<and>
       (sc_ext s \<longrightarrow> (\<exists>fs s'. run (svc_step op) s fs s' \<and> sc_main s' = Finished_run \<and> sc_live s' = []))) \<and>
    (update_interval op \<le> 0 \<longrightarrow>
       (\<exists>p s'. svc_step op svc_init (Begin StateStarting) s' \<and> sc_main s' = Crashed p))"
proof -
  have "svc_inv op svc_init" by (auto simp: svc_inv_def svc_init_def)
  with assms have inv: "svc_inv op s" by (rule svc.I_run)
  have "\<exists>fs s'. run (svc_step op) s fs s' \<and> sc_main s' = Finished_run \<and> sc_live s' = []"
    if "0 < update_interval op" "sc_ext s"
    using drain.reaches_final [of op s] inv that unfolding draining_def svc_final_def by blast
  moreover have "\<exists>p s'. svc_step op svc_init (Begin StateStarting) s' \<and> sc_main s' = Crashed p"
    if "update_interval op \<le> 0"
  proof -
    have "alive svc_init" "StateStarting \<in> set (sc_live svc_init)" by (simp_all add: alive_def svc_init_def)
    with that have "svc_step op svc_init (Begin StateStarting)
        (svc_init\<lparr>sc_main := Crashed (Explicit ''non-positive interval for NewTicker'')\<rparr>)"
      by (intro svc_step.state state_panic) (simp_all add: NewTicker_def)
    then show ?thesis by fastforce
  qed
  ultimately show ?thesis using inv by (auto simp: svc_inv_def)
qed

section \<open>Witnesses\<close>

definition ex_geth :: "(string, string, string, string) geth" where
  "ex_geth = \<lparr>HexToECDSA = Inr, PublicECDSA = Some, geth_PubkeyToAddress = (\<lambda>_. [1]), ethclient_Dial = Inr,
     geth_HexToAddress = (\<lambda>_. []), eth_BlockNumber = (\<lambda>_. Inr 7), eth_ChainID = (\<lambda>_. Inr 1), SignTx = (\<lambda>tx i k. Inr tx)\<rparr>"

definition ex_gorm :: "(string, string, nat) gorm" where
  "ex_gorm = \<lparr>gorm_Open = (\<lambda>dsn d. (Inr dsn, d + 1)), gorm_DB = (\<lambda>g d. Inr g), SetPool = (\<lambda>s a b c d. d),
     sql_Close = (\<lambda>s d. (None, d - 1))\<rparr>"

definition ex_operator :: "(string, string, string) InternalOperator" where
  "ex_operator = projr (fst (internal_New ex_geth ex_gorm (\<lambda>_. ''secret'') (ex_internal [ex_chain 1 ''k'']) 0))"

lemma ex_across_client:
  "across_NewClient Hex (ic_Across (ex_internal cs)) = Inr \<lparr>ax_config = ic_Across (ex_internal cs), ax_spokePool = Hex ''0x4'',
     ax_hubPool = Hex [], ax_relayerFeePct = 1000, ax_maxGasPrice = 5\<rparr>"
  by (simp add: across_NewClient_def ex_internal_def SetString10_def parse_nat_def digit_value_def)

lemma ex_operator_made:
  "internal_New ex_geth ex_gorm (\<lambda>_. ''secret'') (ex_internal [ex_chain 1 ''k'']) 0 = (Inr ex_operator, 1)"
proof -
  obtain c where c: "NewChain ex_geth (ex_chain 1 ''k'') = Inr c" by (simp add: NewChain_def ex_geth_def ex_chain_def Let_def)
  have db: "database_New ex_gorm dsn 0 = (Inr \<lparr>db_DB = dsn\<rparr>, 1)" for dsn by (simp add: database_New_def ex_gorm_def)
  have cs: "ic_Chains (ex_internal cs) = cs" for cs by (simp add: ex_internal_def)
  obtain r where r: "rebalancer_New (geth_HexToAddress ex_geth) (ic_Across (ex_internal [ex_chain 1 ''k''])) [(icc_ID (ex_chain 1 ''k''), ch_Address c)] = Inr r"
    by (simp add: rebalancer_New_def ex_across_client)
  have "\<exists>op. internal_New ex_geth ex_gorm (\<lambda>_. ''secret'') (ex_internal [ex_chain 1 ''k'']) 0 = (Inr op, 1)"
    by (simp add: internal_New_def db cs c r internal_NewEigenClient_def monitor_New_def map_put_def map_each_def)
  then show ?thesis by (auto simp: ex_operator_def)
qed

theorem internal_New_result_witness:
  "internal_New ex_geth ex_gorm (\<lambda>_. ''secret'') (ex_internal [ex_chain 1 ''k'']) 0 = (Inr ex_operator, 1) \<and>
   dom (map_get (rb_across (io_rebalancer ex_operator))) = {1}"
  using internal_New_result [where G = ex_geth and D = ex_gorm and Getenv = "\<lambda>_. ''secret''" and
      cfg = "ex_internal [ex_chain 1 ''k'']" and d = 0]
    ex_operator_made by (simp add: ex_internal_def ex_chain_def)

lemma ex_operator_chains:
  "map_get (io_chains ex_operator) 1 \<noteq> None" "map_ok (io_chains ex_operator)"
  "0 < update_interval ex_operator"
proof -
  obtain db where n: "newChains ex_geth [ex_chain 1 ''k''] [] = Inr (io_chains ex_operator)"
    "io_config ex_operator = ex_internal [ex_chain 1 ''k'']"
    using ex_operator_made by (rule internal_New_parts) (simp add: ex_internal_def)
  from newChains_dom [OF n(1)] have "1 \<in> dom (map_get (io_chains ex_operator))" by (simp add: ex_chain_def)
  then show "map_get (io_chains ex_operator) 1 \<noteq> None" by blast
  from newChains_ok [OF n(1)] show "map_ok (io_chains ex_operator)" by simp
  from n(2) show "0 < update_interval ex_operator" by (simp add: update_interval_def ex_internal_def)
qed

theorem updateState_exact_witness:
  "\<exists>states. (1, states, None) \<in> set (updateState ex_geth (\<lambda>_. 5) ex_operator)"
proof -
  obtain c where c: "map_get (io_chains ex_operator) 1 = Some c" using ex_operator_chains(1) by blast
  have "\<exists>states. GetPoolStates ex_geth 5 c = Inr states" by (simp add: GetPoolStates_def ex_geth_def)
  with c show ?thesis
    using updateState_exact [OF ex_operator_chains(2), of 1 _ None ex_geth "\<lambda>_. 5"] by blast
qed

theorem Run_shutdown_witness:
  "\<exists>s fs s'. run (svc_step ex_operator) svc_init [ExtDone] s \<and> sc_live s \<noteq> [] \<and>
     run (svc_step ex_operator) s fs s' \<and> sc_main s' = Finished_run \<and> sc_live s' = []"
proof -
  let ?s = "svc_init\<lparr>sc_ext := True\<rparr>"
  have "alive svc_init" by (simp add: alive_def svc_init_def)
  then have "svc_step ex_operator svc_init ExtDone ?s" by (rule svc_step.ext)
  then have "run (svc_step ex_operator) svc_init [ExtDone] ?s" by (auto simp: run_Cons_iff)
  moreover have "sc_live ?s \<noteq> []" "sc_ext ?s" by (simp_all add: svc_init_def)
  ultimately show ?thesis using Run_shutdown [of ex_operator "[ExtDone]" ?s] ex_operator_chains(3) by blast
qed

end
