(* ===== verification/Commands.thy ===== *)
theory Commands
  imports Task_History Avs_Config Metrics_Collector Internal_Operator
begin

text \<open>
  The three programs: the aggregator of \<^verbatim>\<open>cmd/aggregator/main.go\<close>, the operator of
  \<^verbatim>\<open>cmd/operator/main.go\<close>, which runs the internal operator, and the task performer of
  \<^verbatim>\<open>cmd/main.go\<close>. Flags, files, JSON, the logger of the SDK and the server of the performer are
  arguments. A program is modelled up to the point where it serves, the rest is the model of what
  it started.
\<close>

section \<open>The aggregator program\<close>

definition aggregator_default_config :: SHConfig where
  "aggregator_default_config = \<lparr>
     ac_ServerIpPortAddress = ''localhost:8090'', ac_EnableGrpc = True, ac_EnableHttp = True, ac_HttpPort = 8080,
     ac_RegistryCoordinatorAddress = ''0x0000000000000000000000000000000000000000'',
     ac_OperatorStateRetrieverAddress = ''0x0000000000000000000000000000000000000000'',
     ac_EthRpcUrl = ''http://localhost:8545'', ac_EthWsUrl = ''ws://localhost:8546'',
     ac_SyncAVSAddress = ''0x0000000000000000000000000000000000000000'',
     ac_AcrossAddress = ''0x0000000000000000000000000000000000000000'',
     ac_TaskTimeout = 300, ac_MaxConcurrentTasks = 100, ac_TaskRetryAttempts = 3, ac_TaskRetryDelay = 30,
     ac_StateUpdateInterval = 30, ac_StateValidationThreshold = f_lit (4/5), ac_MaxStateAge = 600,
     ac_RebalancingEnabled = True, ac_RebalancingThreshold = f_lit (1/20),
     ac_MaxRebalancingAmount = ''1000000000000000000000000'', ac_MinRebalancingAmount = ''1000000000000000000000'',
     ac_RebalancingTimeout = 1800, ac_EnableMetrics = True, ac_MetricsPort = 9090,
     ac_EnableHealthCheck = True, ac_HealthCheckInterval = 30, ac_LogLevel = ''info'', ac_LogFormat = ''json''\<rparr>"

definition loadConfig ::
  "(string \<Rightarrow> bool) \<Rightarrow> (string \<Rightarrow> error + bytes) \<Rightarrow> (bytes \<Rightarrow> error + SHConfig) \<Rightarrow> string \<Rightarrow> error + SHConfig" where
  "loadConfig IsNotExist open_file decode configPath =
     (if IsNotExist configPath then Inr aggregator_default_config
      else case open_file configPath of
        Inl e \<Rightarrow> Inl (''failed to open config file: '' @ e)
      | Inr file \<Rightarrow> (case decode file of
          Inl e \<Rightarrow> Inl (''failed to decode config: '' @ e)
        | Inr config \<Rightarrow> Inr config))"

text \<open>How a program ends or goes on: usage, a fatal log message with its error, a panic, or serving.\<close>

datatype 'a outcome = Usage | Fatal string error | Panicked panic | Serving 'a

definition aggregator_main ::
  "bool \<Rightarrow> error option \<Rightarrow> (string \<Rightarrow> bool) \<Rightarrow> (string \<Rightarrow> error + bytes) \<Rightarrow> (bytes \<Rightarrow> error + SHConfig) \<Rightarrow>
    (string \<Rightarrow> 'r \<Rightarrow> 'r go) \<Rightarrow> string \<Rightarrow> 'r \<Rightarrow> runtime outcome" where
  "aggregator_main help NewZapLogger IsNotExist open_file decode register configFile r =
     (if help then Usage
      else case NewZapLogger of
        Some e \<Rightarrow> Fatal ''Failed to create logger'' e
      | None \<Rightarrow> (case loadConfig IsNotExist open_file decode configFile of
          Inl e \<Rightarrow> Fatal ''Failed to load config'' e
        | Inr config \<Rightarrow> (case NewSyncHookAggregator_in register config r of
            Inl p \<Rightarrow> Panicked p
          | Inr ((agg, Some e), r') \<Rightarrow> Fatal ''Failed to create aggregator'' e
          | Inr ((agg, None), r') \<Rightarrow> (case Start agg of Inl p \<Rightarrow> Panicked p | Inr rt \<Rightarrow> Serving rt))))"

section \<open>The operator program\<close>

text \<open>The events of the services and the error; the environment is part of the state viper changes.\<close>

definition runOperator ::
  "'v viper \<Rightarrow> ('v \<Rightarrow> string \<Rightarrow> string) \<Rightarrow> (string \<Rightarrow> error + 'l) \<Rightarrow> ('sk, 'pk, 'ec, 'tx) geth \<Rightarrow> ('g, 'sql, 'd) gorm \<Rightarrow>
    string \<Rightarrow> 'v \<Rightarrow> 'd \<Rightarrow> run_event list \<times> error option" where
  "runOperator V Getenv ParseLevel G D configFile v d =
     (case Load V configFile v of
        (Inl e, v') \<Rightarrow> ([], Some (''failed to load config: '' @ e))
      | (Inr cfg, v') \<Rightarrow> (case logger_New ParseLevel (ic_Log cfg) of
          Inl e \<Rightarrow> ([], Some (''failed to initialize logger: '' @ e))
        | Inr logger \<Rightarrow> (case internal_New G D (Getenv v') cfg d of
            (Inl e, d') \<Rightarrow> ([], Some (''failed to create operator: '' @ e))
          | (Inr op, d') \<Rightarrow> (case Run op of
              (events, Some e) \<Rightarrow> (events, Some (''operator failed: '' @ e))
            | (events, None) \<Rightarrow> (events, None)))))"

text \<open>The monitoring mode. The method \<open>Monitor\<close> it calls on the operator is not declared in
  \<^verbatim>\<open>internal/operator\<close>; it is an argument.\<close>

definition runMonitor ::
  "'v viper \<Rightarrow> ('v \<Rightarrow> string \<Rightarrow> string) \<Rightarrow> (string \<Rightarrow> error + 'l) \<Rightarrow> ('sk, 'pk, 'ec, 'tx) geth \<Rightarrow> ('g, 'sql, 'd) gorm \<Rightarrow>
    (('sk, 'ec, 'g) InternalOperator \<Rightarrow> error option) \<Rightarrow> string \<Rightarrow> 'v \<Rightarrow> 'd \<Rightarrow> error option" where
  "runMonitor V Getenv ParseLevel G D Monitor_op configFile v d =
     (case Load V configFile v of
        (Inl e, v') \<Rightarrow> Some (''failed to load config: '' @ e)
      | (Inr cfg, v') \<Rightarrow> (case logger_New ParseLevel (ic_Log cfg) of
          Inl e \<Rightarrow> Some (''failed to initialize logger: '' @ e)
        | Inr logger \<Rightarrow> (case internal_New G D (Getenv v') cfg d of
            (Inl e, d') \<Rightarrow> Some (''failed to create operator: '' @ e)
          | (Inr op, d') \<Rightarrow> (case Monitor_op op of
              Some e \<Rightarrow> Some (''monitor failed: '' @ e)
            | None \<Rightarrow> None))))"

text \<open>The command table. What cobra makes of the arguments is a parameter: it gets the persistent
  flag with its default and the commands, and shows a text, refuses, or runs a command with the
  value of the flag. \<open>logrus.Fatal\<close> exits with status 1.\<close>

datatype cobra = ShowText | Refuse error | RunE string string

datatype exit_status = Exit_ok | Exit_fatal error

definition operator_main ::
  "(string \<times> string \<Rightarrow> string list \<Rightarrow> string list \<Rightarrow> cobra) \<Rightarrow> (string \<Rightarrow> error option) \<Rightarrow> (string \<Rightarrow> error option) \<Rightarrow>
    string list \<Rightarrow> exit_status" where
  "operator_main Execute run_operator run_monitor args =
     (let err = (case Execute (''config'', ''config.yaml'') [''start'', ''monitor''] args of
                   ShowText \<Rightarrow> None
                 | Refuse e \<Rightarrow> Some e
                 | RunE c configFile \<Rightarrow> if c = ''start'' then run_operator configFile else run_monitor configFile)
      in case err of Some e \<Rightarrow> Exit_fatal e | None \<Rightarrow> Exit_ok)"

section \<open>The performer\<close>

record TaskRequest =
  tq_TaskId :: bytes
  tq_Payload :: bytes

record TaskResponse =
  tp_TaskId :: bytes
  tp_Result :: bytes

definition ValidateTask :: "TaskRequest option \<Rightarrow> error option" where
  "ValidateTask t = None"

definition HandleTask :: "TaskRequest option \<Rightarrow> (TaskResponse \<times> error option) go" where
  "HandleTask t = go_bind (deref t) (\<lambda>req. Inr (\<lparr>tp_TaskId = tq_TaskId req, tp_Result = []\<rparr>, None))"

definition performer_main :: "(int \<Rightarrow> int \<Rightarrow> error + 'p) \<Rightarrow> ('p \<Rightarrow> error option) \<Rightarrow> unit go" where
  "performer_main NewPerformer performer_Start = (case NewPerformer 8080 (5 * 10 ^ 9) of
       Inl e \<Rightarrow> Inl (Explicit (''failed to create SyncHook performer: '' @ e))
     | Inr pp \<Rightarrow> (case performer_Start pp of Some e \<Rightarrow> Inl (Explicit e) | None \<Rightarrow> Inr ()))"

section \<open>Properties\<close>

lemma default_config_truncate: "aggregator_default_config = SHConfig.truncate GetDefaultAggregatorConfig"
  by (simp add: aggregator_default_config_def GetDefaultAggregatorConfig_def SHConfig.defs)



lemma runOperator_ok:
  "snd (runOperator V Getenv ParseLevel G D f v d) = None \<longleftrightarrow>
      (\<exists>cfg v' level op d'. Load V f v = (Inr cfg, v') \<and> ParseLevel (lc_Level (ic_Log cfg)) = Inr level \<and>
         internal_New G D (Getenv v') cfg d = (Inr op, d'))"
  by (auto simp: runOperator_def logger_New_def Run_trace split: prod.splits sum.splits)

text \<open>The operator program returns no error exactly when the configuration loads, its log level parses and
  the operator can be made. It then has run a validated configuration: every chain of it has its
  required fields and was started before the body, and the stops follow in the reverse order.\<close>

theorem runOperator_result:
  "(snd (runOperator V Getenv ParseLevel G D file v d) = None \<longleftrightarrow>
      (\<exists>cfg v' level op d'. Load V file v = (Inr cfg, v') \<and> ParseLevel (lc_Level (ic_Log cfg)) = Inr level \<and>
         internal_New G D (Getenv v') cfg d = (Inr op, d'))) \<and>
   (case runOperator V Getenv ParseLevel G D file v d of
      (events, Some e) \<Rightarrow> events = []
    | (events, None) \<Rightarrow> (\<exists>cfg ss. fst (Load V file v) = Inr cfg \<and> ic_Chains cfg \<noteq> [] \<and>
        (\<forall>c \<in> set (ic_Chains cfg). chain_complete c \<and> ChainService (icc_ID c) \<in> set ss) \<and>
        events = map Started ss @ Body # map Stopped (rev ss)))"
proof (cases "Load V file v")
  case load: (Pair res v')
  show ?thesis
  proof (cases "\<exists>cfg level. res = Inr cfg \<and> ParseLevel (lc_Level (ic_Log cfg)) = Inr level")
    case False
    with load show ?thesis
      by (auto simp: runOperator_def logger_New_def split: sum.splits)
  next
    case True
    then obtain cfg level where cfg: "res = Inr cfg" "ParseLevel (lc_Level (ic_Log cfg)) = Inr level" by blast
    with load have valid: "fst (Load V file v) = Inr cfg" "validate cfg = None"
      using Load_Inr_iff [of V "file" v cfg] by auto
    show ?thesis
    proof (cases "internal_New G D (Getenv v') cfg d")
      case (Pair made d')
      show ?thesis
      proof (cases made)
        case (Inl e)
        with load cfg Pair show ?thesis by (auto simp: runOperator_def logger_New_def)
      next
        case (Inr op)
        with Pair have "dom (map_get (io_chains op)) = icc_ID ` set (ic_Chains cfg)" by (simp add: internal_New_chains)
        then have "\<forall>c \<in> set (ic_Chains cfg). ChainService (icc_ID c) \<in> set (services op)" by (auto simp: chain_service)
        moreover have run: "runOperator V Getenv ParseLevel G D file v d =
            (map Started (services op) @ Body # map Stopped (rev (services op)), None)"
          using load cfg Pair Inr by (simp add: runOperator_def logger_New_def Run_trace)
        ultimately show ?thesis
          using valid load cfg Pair Inr by (auto simp: validate_None_iff intro!: exI [of _ "services op"])
      qed
    qed
  qed
qed

lemma runMonitor_fails:
  "snd (runOperator V Getenv ParseLevel G D f v d) = Some e \<Longrightarrow> runMonitor V Getenv ParseLevel G D M f v d = Some e"
  by (auto simp: runOperator_def runMonitor_def Run_trace split: prod.splits sum.splits)

lemma runMonitor_made:
  "Load V f v = (Inr cfg, v') \<Longrightarrow> ParseLevel (lc_Level (ic_Log cfg)) = Inr level \<Longrightarrow>
   internal_New G D (Getenv v') cfg d = (Inr op, d') \<Longrightarrow>
   runMonitor V Getenv ParseLevel G D M f v d = map_option (\<lambda>e. ''monitor failed: '' @ e) (M op)"
  by (simp add: runMonitor_def logger_New_def split: option.split)


section \<open>Witnesses\<close>



lemma ex_viper_Load: "Load ex_viper f (ex_internal [ex_chain 1 ''k'']) = (Inr (ex_internal [ex_chain 1 ''k'']), ex_internal [ex_chain 1 ''k''])"
proof -
  have "validate (ex_internal [ex_chain 1 ''k'']) = None"
    by (simp add: validate_None_iff) (simp add: ex_internal_def ex_chain_def chain_complete_def)
  then show ?thesis by (simp add: Load_def ex_viper_prepared) (simp add: ex_viper_def)
qed

theorem runOperator_result_witness:
  "snd (runOperator ex_viper (\<lambda>_ _. ''secret'') Inr ex_geth ex_gorm ''c.yaml'' (ex_internal [ex_chain 1 ''k'']) 0) = None"
proof -
  let ?c = "ex_internal [ex_chain 1 ''k'']"
  show ?thesis
    using ex_viper_Load [of "''c.yaml''"] runOperator_result [of ex_viper "\<lambda>_ _. ''secret''" Inr ex_geth ex_gorm "''c.yaml''" ?c 0] ex_operator_made by auto
qed

text \<open>Cobra on arguments without flags: help without a command, an error for an unknown one.\<close>

definition ex_cobra :: "string \<times> string \<Rightarrow> string list \<Rightarrow> string list \<Rightarrow> cobra" where
  "ex_cobra flag cmds args = (case args of [] \<Rightarrow> ShowText
     | c # _ \<Rightarrow> if c \<in> set cmds then RunE c (snd flag) else Refuse (''unknown command '' @ c))"


end
