(* ===== verification/Spec2Isabelle.thy ===== *)
theory Spec2Isabelle
  imports Monitoring_Loops State_History Task_History Operator_Node Commands
begin

text \<open>
  SyncHook: the off-chain part of an EigenLayer AVS that keeps the state of liquidity pools on
  several chains in step. The development verifies the Go code under \<^verbatim>\<open>src/AVS\<close>.

  \<^bold>\<open>The program.\<close> Operators report the state of a pool on a chain. The state aggregator
  (\<^verbatim>\<open>pkg/state/aggregator.go\<close>) keeps one global state per pool, with a liquidity-weighted average
  price and an imbalance score. The validator (\<^verbatim>\<open>pkg/state/validator.go\<close>) checks a report against the
  global state and checks signed task responses. The predictor (\<^verbatim>\<open>pkg/state/predictor.go\<close>) derives a
  trend, a predicted price and liquidity, and the need of rebalancing. The AVS aggregator
  (\<^verbatim>\<open>aggregator/aggregator.go\<close>) runs loops over tasks (expiry and consensus) and over its own copy of
  the pool states (aggregation, rebalancing check). \<^verbatim>\<open>pkg/monitoring\<close> has an alert manager with
  handlers, a monitor with its own alerts and a metrics collector; \<^verbatim>\<open>pkg/config\<close> the configurations;
  \<^verbatim>\<open>pkg/blockchain\<close> clients of single chains; \<^verbatim>\<open>pkg/eigenlayer\<close> the registration of operators;
  \<^verbatim>\<open>pkg/across\<close>, \<^verbatim>\<open>internal/across\<close> and \<^verbatim>\<open>internal/rebalancer\<close> the bridge clients and the routine that
  moves liquidity. \<^verbatim>\<open>operator/operator.go\<close> puts the packages together as a node; the packages under
  \<^verbatim>\<open>internal\<close> are a second operator with its own configuration, database, logger, chain connections,
  monitor and rebalancer, which \<^verbatim>\<open>cmd/operator\<close> runs; \<^verbatim>\<open>cmd/aggregator\<close> runs the AVS aggregator.

  \<^bold>\<open>Theories.\<close>

  \<^item> \<open>Go_Prelude\<close>, \<open>Go_Map\<close>, \<open>Go_Strings\<close>, \<open>Go_Float\<close>, \<open>Go_Time\<close>, \<open>Go_Sha256\<close>: the Go the
    components use.
    Panics are the left of a sum, errors ordinary results; \<open>big.Int\<close> is \<open>int\<close> with Euclidean division,
    a pointer to one an option; \<open>uint32\<close> and \<open>uint64\<close> are words; a map is an association list whose
    order is one of those \<open>range\<close> may choose; \<open>float64\<close> has rationals rounded to nearest even on the
    53-bit grid, infinities and NaN (the sign of a zero is not kept: the code never divides by one, and only the
    text of an alert message could show it); times are nanoseconds and durations saturate.
  \<^item> \<open>Int_Sqrt\<close>: the bisection that occurs three times, and the locale of its specification,
    interpreted on the copies in the code.
  \<^item> \<open>State_Aggregator\<close>, \<open>State_Validator\<close>, \<open>State_Predictor\<close>: the three files of \<^verbatim>\<open>pkg/state\<close>.
    \<open>State_History\<close>: the state aggregator over sequences of reports, and the abstract table of the last
    report of each chain that it refines.
  \<^item> \<open>Step_Systems\<close>: executions of a step relation, with locales for facts that hold between the ends
    of every execution (\<open>steps_related\<close>), for invariants (\<open>steps_invariant\<close>), for the refinement of an
    abstract function of the calls (\<open>steps_refine\<close>) and for reaching a final state (\<open>steps_progress\<close>).
    \<open>Background_Loops\<close>: a component whose \<open>Start\<close> launches loops that return when their context is
    cancelled, beside clients.
  \<^item> \<open>Task_Aggregator\<close>: \<^verbatim>\<open>aggregator/aggregator.go\<close>. The locale \<open>imbalance_routines\<close> is the contract
    of the imbalance computations, interpreted on the predictor's and on the aggregator's.
    \<open>Task_History\<close>: its tasks and pools over whole executions, and the aggregator that has neither.
  \<^item> \<open>Alert_Store\<close>, \<open>Alert_Manager\<close>, \<open>Health_Monitor\<close>: \<^verbatim>\<open>pkg/monitoring/alerts.go\<close> and
    \<^verbatim>\<open>monitor.go\<close>. The locale \<open>alert_service\<close> is what clients of either may rely on, interpreted on
    both. \<open>Alert_Stats\<close>: the statistics, a map of run-time typed values. \<open>Monitoring_Loops\<close>: \<open>Start\<close>
    and the loops of both, and their state as a function of the history of calls.
  \<^item> \<open>Metrics_Collector\<close>: \<^verbatim>\<open>pkg/monitoring/metrics.go\<close>, and which collectors each component registers.
  \<^item> \<open>Avs_Config\<close>: \<^verbatim>\<open>pkg/config/config.go\<close>.
  \<^item> \<open>Chain_Clients\<close>: \<^verbatim>\<open>pkg/blockchain\<close>. The interface is the sum of its four implementations; the
    locale \<open>chain_client\<close> is what a user of the interface may rely on, interpreted on the sum.
  \<^item> \<open>Eigen_Registration\<close>: \<^verbatim>\<open>pkg/eigenlayer\<close> and \<^verbatim>\<open>internal/eigenlayer\<close>. The locale
    \<open>unreachable_client\<close> is the contract of a client that gives no answer, interpreted on the
    unfinished client.
  \<^item> \<open>Across_Bridge\<close>: \<^verbatim>\<open>pkg/across/client.go\<close>, \<^verbatim>\<open>internal/across/client.go\<close> and
    \<^verbatim>\<open>internal/rebalancer/rebalancer.go\<close>.
  \<^item> \<open>Operator_Node\<close>: \<^verbatim>\<open>operator/operator.go\<close>.
  \<^item> \<open>Internal_Config\<close>: \<^verbatim>\<open>internal/config\<close>, \<^verbatim>\<open>internal/database\<close>, \<^verbatim>\<open>internal/logger\<close>;
    \<open>Internal_Chain\<close>: \<^verbatim>\<open>internal/blockchain/chain.go\<close> and the checks of \<^verbatim>\<open>internal/monitor\<close>;
    \<open>Internal_Operator\<close>: \<^verbatim>\<open>internal/operator\<close> and the goroutines of monitor and rebalancer.
  \<^item> \<open>Commands\<close>: the programs of \<^verbatim>\<open>cmd\<close>.
  \<^item> this theory: the properties that span the packages of \<^verbatim>\<open>pkg/state\<close> and the AVS aggregator.

  \<^bold>\<open>State and operations.\<close> A struct is a record with its fields in order and a prefix per struct
  (\<open>gps_\<close> for \<open>GlobalPoolState\<close>, \<open>tk_\<close> for \<open>SyncHookTask\<close>); a method is a definition with the name of
  the method, taking the receiver last and returning it updated. Two methods of one name get a
  prefix (\<open>predictor_calculateConfidence\<close>, \<open>sh_\<close> for the AVS aggregator, \<open>monitor_\<close>, \<open>metrics_\<close>,
  \<open>chain_\<close>, \<open>internal_\<close>). Every reading of the clock is an argument. Libraries are records of the
  functions the code calls (\<open>sdk\<close>, \<open>viper\<close>, \<open>gorm\<close>, \<open>geth\<close>), over a state where they have one. The
  mutexes make a method one transition; the loops of the AVS aggregator, the goroutines of the alert
  manager and of the monitor, block subscriptions, the goroutines of the node and those of the
  internal operator are the step relations \<open>agg_step\<close>, \<open>am_step\<close>, \<open>mon_step\<close>, \<open>sub_step\<close>, \<open>node_step\<close>
  and \<open>svc_step\<close>, whose executions interleave them in any order.

  \<^bold>\<open>What is shown.\<close> The invariant of the state aggregator and the exact effect of every report, with
  bounds of the average price and independence of the map order; exactly when the validator accepts
  and with which confidence; that predictions never fail on priced pools, with their bounds, and
  that trend and rebalancing decisions computed with floats agree with exact integer conditions;
  safety of consensus along every execution, the outcome of every task as a closed form over the
  passes made, the effect of one pass over pools, and that
  the aggregation of the AVS aggregator refines that of \<^verbatim>\<open>pkg/state\<close>; life cycle, delivery order,
  expiry and cleanup of alerts, and that the alert tables, the exported counters and the performance
  tracker are functions of the history of calls under every interleaving; that the type assertions on
  the statistics never fail; that the monitoring loops can always be shut down; consistency of the
  metrics along every use; acceptance of bridge
  requests, bounds of fees, and what any number of checks of the rebalancer spends; what every chain client promises about blocks, and that a
  subscription delivers them in order; when registration succeeds; which clients a node has; which
  configurations load, and that the connection string reads back; that waiting for a receipt ends;
  that the internal operator has exactly the configured chains, stops what it started in the reverse
  order, submits exactly the states it could read, and can always be shut down. Across components:
  after any sequence of reports validator, predictor and metrics work on figures that are sums over
  the last reports, both rebalancing decisions agree, and the programs agree with the packages they
  use. Some theorems
  state where the code falls short of its purpose: panics on pools without liquidity, tasks that
  fail after completion, an ambiguous hash, signatures that cannot be verified, a watch that may not
  end, a node that cannot be made, an aggregator program that never has a task or a pool, an age limit
  that does not look at the age of the reports, collectors registered twice, a crash on an unchecked interval,
  goroutines that outlive the operator.

  \<^bold>\<open>Loops and termination.\<close> No definition uses fuel. \<open>range\<close> loops are structural, the bisection has a
  termination proof, and the endless loops are step relations or, for \<open>monitorTransfer\<close> and
  \<open>WaitForConfirmation\<close>, functions of the finite list of what was received so far, \<open>None\<close> while they
  have not returned; the latter is shown to return.

  \<^bold>\<open>Not modelled.\<close> Logging; secp256k1, JSON and YAML decoding, the file system, the database and RPC
  calls, and the parsing of command lines, which are parameters, as is the method \<open>Monitor\<close> that the
  monitoring mode of \<^verbatim>\<open>cmd/operator\<close> calls and the operator does not declare; \<open>GetOperatorStake\<close> and
  \<open>GetQuorumStake\<close> of \<^verbatim>\<open>internal/eigenlayer/avs.go\<close>, whose constants do not compile; struct types
  nothing uses, and one of two struct types with the same fields (the configurations of chains,
  EigenLayer, Across and logger are declared twice, and pass for one record here, where Go does not
  accept one for the other); the contracts. Beyond these the Go code is modelled in full. The bodies of the node's loops that should feed the state aggregator
  from the chain clients are empty in the source, so nothing connects the two in the model either.
\<close>

section \<open>Properties across components\<close>

text \<open>C21: The three copies of the integer square root (state aggregator, predictor, AVS aggregator)
  are total and compute the same function: the floor of the real square root, and zero for
  numbers that are not positive.\<close>

theorem sqrt_copies_floor:
  "state_sqrt n = (if n \<le> 0 then 0 else \<lfloor>sqrt (real_of_int n)\<rfloor>) \<and>
   predictor_sqrt n = state_sqrt n \<and> synchook_sqrt n = state_sqrt n"
  using state_sq.sq_floor_sqrt [of n] state_sq.sq_nonpos [of n] by (auto simp: sqrt_defs)

lemma total_liq_pos:
  "ss \<noteq> [] \<Longrightarrow> (\<And>s. s \<in> set ss \<Longrightarrow> 0 < liq s) \<Longrightarrow> 0 < total_liq ss"
proof (induction ss)
  case (Cons s ss)
  then have "0 < liq s" "ss = [] \<or> 0 < total_liq ss" by auto
  then show ?case by (auto simp: total_liq_def)
qed simp

lemma aggregated_pool_predictable:
  assumes "agg_inv a" and "GetGlobalPoolState poolID a = Inr g"
    and "\<forall>s \<in> set (map_vals (gps_ChainStates g)). 0 < liq s \<and> lo \<le> price s \<and> price s \<le> hi" and "0 < lo"
  shows "\<exists>r p q. PredictPoolState impl t0 t1 g h = Inr (Inr r) \<and> gps_AveragePrice g = Some p \<and>
     lo \<le> p \<and> p \<le> hi \<and> pr_PredictedPrice r = Some q \<and> 0 < q \<and> 10 * \<bar>q - p\<bar> \<le> p"
proof -
  let ?ss = "map_vals (gps_ChainStates g)"
  have g: "gps_inv g"
    using assms(1,2) by (auto simp: agg_inv_def GetGlobalPoolState_def split: option.splits)
  then have ne: "?ss \<noteq> []" by (simp add: gps_inv_def)
  have T: "0 < total_liq ?ss" using ne assms(3) by (intro total_liq_pos) auto
  have avg: "lo \<le> avg_price ?ss \<and> avg_price ?ss \<le> hi"
    using assms(3) T by (intro avg_price_bounds) (auto intro: less_imp_le)
  have l: "gps_TotalLiquidity g = Some (total_liq ?ss)" and rec: "recalculated g = g"
    using g T by (auto simp: gps_inv_def)
  from arg_cong [OF rec, of gps_AveragePrice] have p: "gps_AveragePrice g = Some (avg_price ?ss)"
    by (simp add: recalculated_def Let_def)
  have p0: "0 < avg_price ?ss" using avg assms(4) by simp
  from g analyzeTrend_wf [of g] obtain t where t: "analyzeTrend g = Inr (Inr t)" "trend_ok t" by (auto simp: gps_inv_def)
  from predictPrice_bounds [OF p p0 t(2)] obtain q where
    q: "predictPrice impl g t h = Inr (q, None)" "0 < q" "10 * \<bar>q - avg_price ?ss\<bar> \<le> avg_price ?ss" by blast
  from predictLiquidity_bounds [OF l T p p0 q(3)] obtain m where "predictLiquidity g q h = Inr (m, None)" by blast
  with t q p avg show ?thesis by (simp add: PredictPoolState_def)
qed

text \<open>C5: The pipeline of \<^verbatim>\<open>pkg/state\<close> over time. After any sequence of reports with positive
  liquidities and prices between \<open>lo\<close> and \<open>hi\<close>, for every pool served: the validator never panics on
  a complete report and accepts it exactly when its price is within the limit of the weighted
  average of the last reports, its liquidity within the limit of the same chain's last report, and
  its age within the gap, with a confidence between 35721/262144 and 1 that is 1 exactly when the
  price is at most 1 percent off that average and the report at most 300 seconds old; predictions never fail, for any horizon, and stay within 10 percent of
  that average, which lies between \<open>lo\<close> and \<open>hi\<close>; and the metrics are computed, with the sum of the
  last liquidities and an imbalance between 0 and 200 percent.\<close>

theorem state_pipeline:
  fixes rs :: "report list"
  assumes "run report_step NewAggregator rs a" and "GetGlobalPoolState p a = Inr g"
    and "\<forall>r \<in> set rs. 0 < liq (rp_state r) \<and> lo \<le> price (rp_state r) \<and> price (rp_state r) \<le> hi" and "0 < lo"
    and "ps_wf s" and "vc_MaxPriceDeviation c = Some d" and "vc_MaxLiquidityChange c = Some e"
  defines "T \<equiv> last_report rs"
  shows "lo \<le> price_of T p \<and> price_of T p \<le> hi \<and>
     (\<exists>r err. ValidatePoolState t0 t1 t2 s g c = Inr (r, err) \<and> (vr_IsValid r \<longleftrightarrow> err = None) \<and>
        (err = None \<longleftrightarrow> \<bar>price s - price_of T p\<bar> \<le> d \<and>
           (\<forall>q. T p (ps_ChainID s) = Some q \<longrightarrow> \<bar>liq s - liq q\<bar> \<le> e) \<and>
           uint64 t1 - ps_Timestamp s \<le> vc_MaxTimeGap c) \<and>
        (err = None \<longrightarrow> (\<exists>x. vr_Confidence r = Fin x \<and> 35721/262144 \<le> x \<and> x \<le> 1 \<and>
           (x = 1 \<longleftrightarrow> deviation_percent (price_of T p) (price s) \<le> 1 \<and> uint64 t2 - ps_Timestamp s \<le> 300)))) \<and>
     (\<exists>r q. PredictPoolState impl t3 t4 g h = Inr (Inr r) \<and> pr_PredictedPrice r = Some q \<and> 0 < q \<and>
        10 * \<bar>q - price_of T p\<bar> \<le> price_of T p) \<and>
     (\<exists>m i. CalculateAggregatedMetrics p a = Inr (Inr m) \<and> am_TotalLiquidity m = Some (liquidity_of T p) \<and>
        am_AveragePrice m = Some (price_of T p) \<and> am_LiquidityImbalance m = Some i \<and> 0 \<le> i \<and> i \<le> 200)"
proof -
  note tab = reports_table [OF assms(1)]
  note g = pool_of_table(2) [OF tab assms(2), folded T_def]
  let ?cs = "gps_ChainStates g"
  have get: "map_get (agg_poolStates a) p = Some g" using assms(2) by (simp add: GetGlobalPoolState_def split: option.splits)
  then have inv: "gps_inv g" using tab(1) by (simp add: agg_inv_def)
  have "\<exists>r \<in> set rs. s = stored r" if "s \<in> set (map_vals ?cs)" for s
    using pool_states_reported [OF assms(1,2) that] .
  then have pos: "\<forall>s \<in> set (map_vals ?cs). 0 < liq s \<and> lo \<le> price s \<and> price s \<le> hi"
    using assms(3) by (fastforce simp: stored_def)
  have ok: "map_ok ?cs" and at: "\<And>c. map_get ?cs c = T p c" using g by auto
  note fig = table_figures [where T = T and p = p, OF ok at]
  have T0: "0 < total_liq (map_vals ?cs)" using inv pos by (intro total_liq_pos) (auto simp: gps_inv_def)
  then have avg: "gps_AveragePrice g = Some (price_of T p)" using g by (simp add: fig(1))
  obtain r p' q where pr: "PredictPoolState impl t3 t4 g h = Inr (Inr r)" "gps_AveragePrice g = Some p'" "lo \<le> p'" "p' \<le> hi"
    "pr_PredictedPrice r = Some q" "0 < q" "10 * \<bar>q - p'\<bar> \<le> p'"
    using aggregated_pool_predictable [OF tab(1) assms(2) pos assms(4), of impl t3 t4 h] by blast
  then have p': "p' = price_of T p" using avg by simp
  have "\<forall>q. map_get ?cs (ps_ChainID s) = Some q \<longrightarrow> ps_wf q"
    using inv ok by (auto simp: gps_inv_def gm.vals_iff)
  from ValidatePoolState_decides [OF assms(5) avg this assms(6,7), of t0 t1 t2] p' pr(3) assms(4)
  have val: "\<exists>r err. ValidatePoolState t0 t1 t2 s g c = Inr (r, err) \<and> (vr_IsValid r \<longleftrightarrow> err = None) \<and>
        (err = None \<longleftrightarrow> \<bar>price s - price_of T p\<bar> \<le> d \<and> (\<forall>q. T p (ps_ChainID s) = Some q \<longrightarrow> \<bar>liq s - liq q\<bar> \<le> e) \<and>
           uint64 t1 - ps_Timestamp s \<le> vc_MaxTimeGap c)" by (simp add: at)
  have conf: "\<exists>x. vr_Confidence r = Fin x \<and> 35721/262144 \<le> x \<and> x \<le> 1 \<and>
      (x = 1 \<longleftrightarrow> deviation_percent (price_of T p) (price s) \<le> 1 \<and> uint64 t2 - ps_Timestamp s \<le> 300)"
    if "ValidatePoolState t0 t1 t2 s g c = Inr (r, None)" for r
    using ValidatePoolState_confidence [OF assms(5) avg that] p' pr(3) assms(4) by auto
  have "\<forall>s \<in> set (map_vals ?cs). 0 \<le> liq s" using pos by auto
  from CalculateAggregatedMetrics_ok [OF get inv this T0] have
    "\<exists>m i. CalculateAggregatedMetrics p a = Inr (Inr m) \<and> am_TotalLiquidity m = Some (liquidity_of T p) \<and>
        am_AveragePrice m = Some (price_of T p) \<and> am_LiquidityImbalance m = Some i \<and> 0 \<le> i \<and> i \<le> 200"
    unfolding fig(1,2) by blast
  moreover have "lo \<le> price_of T p \<and> price_of T p \<le> hi" using pr(3,4) by (simp only: p')
  moreover have "\<exists>r q. PredictPoolState impl t3 t4 g h = Inr (Inr r) \<and> pr_PredictedPrice r = Some q \<and> 0 < q \<and>
      10 * \<bar>q - price_of T p\<bar> \<le> price_of T p" using pr(1,5-7) by (simp add: p')
  moreover obtain r err where v: "ValidatePoolState t0 t1 t2 s g c = Inr (r, err)" "vr_IsValid r \<longleftrightarrow> err = None"
    "err = None \<longleftrightarrow> \<bar>price s - price_of T p\<bar> \<le> d \<and> (\<forall>q. T p (ps_ChainID s) = Some q \<longrightarrow> \<bar>liq s - liq q\<bar> \<le> e) \<and>
      uint64 t1 - ps_Timestamp s \<le> vc_MaxTimeGap c" using val by blast
  note v conf [of r]
  ultimately show ?thesis by (intro conjI exI [of _ r] exI [of _ err]) blast+
qed

text \<open>The state of a pool after its first report.\<close>

lemma first_report:
  assumes "ps_wf s"
  shows "liq s \<noteq> 0 \<Longrightarrow> \<exists>a g. UpdatePoolState now1 now2 poolID i s NewAggregator = Inr (a, None) \<and>
       GetGlobalPoolState poolID a = Inr g \<and> gps_ChainStates g = [(i, s\<lparr>ps_LastUpdated := now1\<rparr>)] \<and>
       gps_AveragePrice g = Some (price s)"
    and "liq s = 0 \<Longrightarrow> \<exists>a g e. UpdatePoolState now1 now2 poolID i s NewAggregator = Inr (a, Some e) \<and>
       GetGlobalPoolState poolID a = Inr g \<and> gps_ChainStates g = [(i, s\<lparr>ps_LastUpdated := now1\<rparr>)] \<and>
       gps_AveragePrice g = None"
proof -
  have cs: "reported now1 poolID i s NewAggregator = [(i, s\<lparr>ps_LastUpdated := now1\<rparr>)]"
    by (simp add: reported_def NewAggregator_def map_put_def)
  note U = UpdatePoolState_wf [OF agg_inv_new assms, of now1 now2 poolID i, unfolded cs]
  show "liq s \<noteq> 0 \<Longrightarrow> \<exists>a g. UpdatePoolState now1 now2 poolID i s NewAggregator = Inr (a, None) \<and>
       GetGlobalPoolState poolID a = Inr g \<and> gps_ChainStates g = [(i, s\<lparr>ps_LastUpdated := now1\<rparr>)] \<and>
       gps_AveragePrice g = Some (price s)"
    unfolding U by (simp add: GetGlobalPoolState_def recalculated_def Let_def avg_price_def total_value_def)
  show "liq s = 0 \<Longrightarrow> \<exists>a g e. UpdatePoolState now1 now2 poolID i s NewAggregator = Inr (a, Some e) \<and>
       GetGlobalPoolState poolID a = Inr g \<and> gps_ChainStates g = [(i, s\<lparr>ps_LastUpdated := now1\<rparr>)] \<and>
       gps_AveragePrice g = None"
    unfolding U by (simp add: GetGlobalPoolState_def pool_or_new_def NewAggregator_def newGlobalPoolState_def)
qed

lemma fresh_confidence:
  "age \<le> (300 :: u64) \<Longrightarrow>
    triple_penalty (300 < age) (600 < age) (1800 < age) (price_confidence p p) = Fin 1"
  using age_confidence(2) [OF price_confidence(1), of "300 < age" "600 < age" "1800 < age" p p]
    price_confidence(2) [of p p]
  by (auto simp: deviation_percent_def euclid_div_def word_less_def word_le_def)

text \<open>From aggregator to validator. The first report of a pool with non-zero liquidity and a fresh
  timestamp is accepted against the state it has just produced, under any non-negative limits, and
  with confidence 1: its price is the average price and its liquidity the recorded one.\<close>

theorem first_report_validates:
  assumes "ps_wf s" and "liq s \<noteq> 0" and "vc_MaxPriceDeviation c = Some d" and "0 \<le> d"
    and "vc_MaxLiquidityChange c = Some e" and "0 \<le> e"
    and "uint64 t1 - ps_Timestamp s \<le> vc_MaxTimeGap c" and "uint64 t2 - ps_Timestamp s \<le> 300"
  shows "\<exists>a g r. UpdatePoolState now1 now2 poolID (ps_ChainID s) s NewAggregator = Inr (a, None) \<and>
     GetGlobalPoolState poolID a = Inr g \<and>
     ValidatePoolState t0 t1 t2 (s\<lparr>ps_LastUpdated := now1\<rparr>) g c = Inr (r, None) \<and> vr_IsValid r \<and> vr_Confidence r = Fin 1"
proof -
  let ?s = "s\<lparr>ps_LastUpdated := now1\<rparr>"
  from first_report(1) [OF assms(1,2)] obtain a g where
    U: "UpdatePoolState now1 now2 poolID (ps_ChainID s) s NewAggregator = Inr (a, None)" "GetGlobalPoolState poolID a = Inr g"
    and g: "gps_ChainStates g = [(ps_ChainID s, ?s)]" "gps_AveragePrice g = Some (price s)" by blast
  have prev: "map_get (gps_ChainStates g) (ps_ChainID s) = Some ?s" by (simp add: g map_get_def)
  have pd: "validatePriceDeviation ?s g c r = Inr (r, None)" for r
    using assms(1,3,4) by (simp add: validatePriceDeviation_def g ps_wf_fields)
  have lc: "validateLiquidityChange ?s g c r = Inr (r, None)" for r
    using assms(1,5,6) by (simp add: validateLiquidityChange_def prev ps_wf_fields)
  have ts: "validateTimestamp t1 ?s c r = (r, None)" for r
    using assms(7) by (simp add: validateTimestamp_def Let_def not_less)
  have "ps_wf ?s" using assms(1) by simp
  from calculateConfidence_wf [OF this g(2)] fresh_confidence [OF assms(8)]
  have "calculateConfidence t2 ?s g r = Inr (r\<lparr>vr_Confidence := Fin 1\<rparr>)" for r by (simp add: Let_def)
  with U pd lc ts show ?thesis by (simp add: ValidatePoolState_def)
qed

text \<open>C26: A first report with zero liquidity poisons its pool: the update returns an error but the
  report is stored and the pool is served without an average price, so that validating any report
  against it, and predicting from it, panic with a nil dereference.\<close>

theorem zero_liquidity_poisons:
  assumes "ps_wf s" and "liq s = 0"
  shows "\<exists>a g e. UpdatePoolState now1 now2 poolID chainID s NewAggregator = Inr (a, Some e) \<and>
     GetGlobalPoolState poolID a = Inr g \<and>
     ValidatePoolState t0 t1 t2 s' g c = Inl NilDeref \<and> PredictPoolState impl t0 t1 g h = Inl NilDeref"
proof -
  from first_report(2) [OF assms] obtain a g e where
    U: "UpdatePoolState now1 now2 poolID chainID s NewAggregator = Inr (a, Some e)" "GetGlobalPoolState poolID a = Inr g"
    and g: "gps_ChainStates g = [(chainID, s\<lparr>ps_LastUpdated := now1\<rparr>)]" "gps_AveragePrice g = None" by blast
  have "ValidatePoolState t0 t1 t2 s' g c = Inl NilDeref"
    by (simp add: ValidatePoolState_def validatePriceDeviation_def g)
  moreover have "PredictPoolState impl t0 t1 g h = Inl NilDeref"
    by (simp add: PredictPoolState_def analyzeTrend_def predictPrice_def g)
  ultimately show ?thesis using U by blast
qed

lemma PredictRebalancingNeed_balanced:
  assumes "sh_balanced_books gs"
  shows "(\<exists>amount. PredictRebalancingNeed (shared gs) th = Inr (True, amount, None)) \<longleftrightarrow>
     f_less th (Fin (of_int (imbalance_percent (map_vals (gps_ChainStates gs)))))"
proof -
  let ?ss = "map_vals (gps_ChainStates (shared gs))"
  have ss: "\<forall>s \<in> set ?ss. ps_wf s \<and> 0 \<le> liq s" "gps_TotalLiquidity (shared gs) = Some (total_liq ?ss)"
    using assms by (auto simp: sh_balanced_books_def shared_fields)
  from predictor.percent_exact [OF ss] obtain d where d: "predictor_calculateImbalance (shared gs) = Inr d"
    "predictor_calculateImbalancePercent d (gps_TotalLiquidity (shared gs)) = Inr (Fin (of_int (imbalance_percent ?ss)))"
    by (auto simp: go_bind_Inr_iff)
  then show ?thesis
    by (simp add: PredictRebalancingNeed_def predictImbalance_def calculateRebalancingAmount_def ss(2) shared_fields(1) Let_def)
qed

text \<open>C4: The two implementations of the rebalancing decision agree: on pools as the aggregation leaves
  them, with non-negative liquidities, the AVS aggregator counts exactly the pools for which the
  predictor of pkg/state answers that rebalancing is needed at the same threshold.\<close>

theorem rebalancing_decisions_agree:
  assumes "\<forall>gs \<in> set (map_vals (sa_poolStates a)). sh_balanced_books gs"
  shows "\<exists>a'. checkRebalancingNeeds a = Inr a' \<and> sa_rebalancingOps a' = sa_rebalancingOps a +
     length (filter (\<lambda>gs. \<exists>amount. PredictRebalancingNeed (shared gs) (ac_RebalancingThreshold (sa_config a)) =
        Inr (True, amount, None)) (map_vals (sa_poolStates a)))"
proof -
  have "filter (\<lambda>gs. \<exists>amount. PredictRebalancingNeed (shared gs) th = Inr (True, amount, None)) (map_vals (sa_poolStates a)) =
      filter (\<lambda>gs. f_less th (Fin (of_int (imbalance_percent (map_vals (gps_ChainStates gs)))))) (map_vals (sa_poolStates a))" for th
    using assms by (intro filter_cong) (auto simp: PredictRebalancingNeed_balanced)
  then show ?thesis using checkRebalancingNeeds_wf [OF assms] by simp
qed

section \<open>Witnesses\<close>

theorem state_pipeline_witness:
  "\<exists>a g r q. run report_step NewAggregator ex_reports a \<and> GetGlobalPoolState ''P'' a = Inr g \<and>
     PredictPoolState (\<lambda>_. 0) 0 0 g 300 = Inr (Inr r) \<and> pr_PredictedPrice r = Some q \<and>
     10 * \<bar>q - price_of (last_report ex_reports) ''P''\<bar> \<le> price_of (last_report ex_reports) ''P''"
proof -
  have wf: "\<forall>r \<in> set ex_reports. ps_wf (rp_state r)" by (simp add: ex_reports_def ex_report_def ps_wf_def)
  obtain a where a: "run report_step NewAggregator ex_reports a" using reports_total [OF agg_inv_new wf] by blast
  have "GetGlobalPoolState ''P'' a \<noteq> Inl (''pool state not found: '' @ ''P'')"
    using pool_of_table(1) [OF reports_table [OF a], of "''P''"] ex_chains by simp
  then obtain g where g: "GetGlobalPoolState ''P'' a = Inr g" by (auto simp: GetGlobalPoolState_def split: option.splits)
  have b: "\<forall>r \<in> set ex_reports. 0 < liq (rp_state r) \<and> 8 \<le> price (rp_state r) \<and> price (rp_state r) \<le> 20"
    by (simp add: ex_reports_def ex_report_def liq_def price_def)
  from state_pipeline [OF a g b, of "ex_state 1 1" ex_criteria 50 100 0 0 0 "\<lambda>_. 0" 0 0 300] a g show ?thesis
    by (auto simp: ex_criteria_def)
qed

theorem first_report_validates_witness:
  "\<exists>a g r. UpdatePoolState 5 6 ''p'' (ps_ChainID (ex_state 1000 2000)) (ex_state 1000 2000) NewAggregator = Inr (a, None) \<and>
     GetGlobalPoolState ''p'' a = Inr g \<and>
     ValidatePoolState 105 105 105 ((ex_state 1000 2000)\<lparr>ps_LastUpdated := 5\<rparr>) g ex_criteria = Inr (r, None) \<and> vr_IsValid r"
  using first_report_validates [of "ex_state 1000 2000" ex_criteria 50 100 105 105 5 6 "''p''" 105]
  by (auto simp: ex_criteria_def ex_state_def go_eval ps_wf_def liq_def)

theorem zero_liquidity_poisons_witness:
  "\<exists>a g e. UpdatePoolState 5 6 ''p'' 1 (ex_state 0 2000) NewAggregator = Inr (a, Some e) \<and>
     GetGlobalPoolState ''p'' a = Inr g \<and> ValidatePoolState 0 0 0 (ex_state 1 1) g ex_criteria = Inl NilDeref"
  using zero_liquidity_poisons [of "ex_state 0 2000" 5 6 "''p''" 1 0 0 0 "ex_state 1 1" ex_criteria "\<lambda>_. 0" 300] by auto

theorem rebalancing_decisions_agree_witness:
  "\<exists>a'. checkRebalancingNeeds ex_aggregator = Inr a'"
  using rebalancing_decisions_agree [of ex_aggregator] by auto

end
